(* ===== verification/Mojo_Prelude.thy ===== *)
theory Mojo_Prelude
  imports Main "HOL-Library.Word"
begin

text \<open>
  Shared vocabulary of the development: the machine integer types of the C sources, the
  outcomes a C function can have beside returning (an access outside mapped memory, a failed
  \<^verbatim>\<open>assert\<close>, fuel exhaustion of the model), the sequencing combinators every operation is
  written with, and the generic lemmas on words that the component theories use.
\<close>

unbundle bit_operations_syntax

type_synonym u8 = "8 word"
type_synonym u32 = "32 word"
type_synonym u64 = "64 word"

text \<open>
  Addresses are natural numbers: C pointer arithmetic stays inside one object and never wraps
  in a defined execution, so an address formed outside every object is simply not mapped.
  \<^verbatim>\<open>NULL\<close> is address 0.
\<close>

type_synonym addr = nat

named_theorems res_simps \<open>when a sequenced computation returns a value\<close>
named_theorems mono_intros \<open>one computation returns whatever another does\<close>
named_theorems word_nat \<open>moving word comparisons and arithmetic to the naturals\<close>

section \<open>Outcomes\<close>

datatype fault = BadAccess | AssertFailed | OutOfFuel

type_synonym 'a res = "fault + 'a"

definition bindR :: "'a res \<Rightarrow> ('a \<Rightarrow> 'b res) \<Rightarrow> 'b res" where
  "bindR x f = (case x of Inl e \<Rightarrow> Inl e | Inr v \<Rightarrow> f v)"

text \<open>\<^verbatim>\<open>assert(c); k\<close> in a build with assertions on.\<close>

definition assertC :: "bool \<Rightarrow> 'a res \<Rightarrow> 'a res" where
  "assertC c k = (if c then k else Inl AssertFailed)"

text \<open>Unfolded for evaluation, so that the rest of a computation is evaluated only once its
  first step has a value.\<close>

declare bindR_def [code_unfold] assertC_def [code_unfold]

lemma bindR_simps [simp]:
  "bindR (Inl e) f = Inl e"
  "bindR (Inr v) f = f v"
  by (simp_all add: bindR_def)

lemma bindR_cong [fundef_cong]:
  "x = y \<Longrightarrow> (\<And>v. y = Inr v \<Longrightarrow> f v = g v) \<Longrightarrow> bindR x f = bindR y g"
  by (cases y) simp_all

lemma assertC_simps [simp]:
  "assertC True k = k"
  "assertC False k = Inl AssertFailed"
  by (simp_all add: assertC_def)

lemma assertC_cong [fundef_cong]:
  "c = d \<Longrightarrow> (d \<Longrightarrow> k = l) \<Longrightarrow> assertC c k = assertC d l"
  by (simp add: assertC_def)

lemma bindR_eq_Inr [res_simps]: "bindR x f = Inr y \<longleftrightarrow> (\<exists>v. x = Inr v \<and> f v = Inr y)"
  by (cases x) simp_all

lemma bindR_eq_Inl: "bindR x f = Inl e \<longleftrightarrow> x = Inl e \<or> (\<exists>v. x = Inr v \<and> f v = Inl e)"
  by (cases x) simp_all

lemma assertC_eq_Inr [res_simps]: "assertC c k = Inr y \<longleftrightarrow> c \<and> k = Inr y"
  by (simp add: assertC_def)

lemma assertC_eq_Inl: "assertC c k = Inl e \<longleftrightarrow> (if c then k = Inl e else e = AssertFailed)"
  by (auto simp: assertC_def)

text \<open>A computation that returns whatever another one returns.\<close>

definition le_res :: "'a res \<Rightarrow> 'a res \<Rightarrow> bool" where
  "le_res x y \<longleftrightarrow> (\<forall>v. x = Inr v \<longrightarrow> y = Inr v)"

lemma le_resD: "le_res x y \<Longrightarrow> x = Inr v \<Longrightarrow> y = Inr v"
  by (simp add: le_res_def)

lemma le_res_refl [simp, mono_intros]: "le_res x x"
  by (simp add: le_res_def)

lemma le_res_bindR [mono_intros]:
  "le_res x y \<Longrightarrow> (\<And>v. x = Inr v \<Longrightarrow> le_res (f v) (g v)) \<Longrightarrow> le_res (bindR x f) (bindR y g)"
  by (auto simp: le_res_def bindR_eq_Inr)

lemma le_res_assertC [mono_intros]: "(c \<Longrightarrow> le_res x y) \<Longrightarrow> le_res (assertC c x) (assertC c y)"
  by (simp add: le_res_def assertC_eq_Inr)

lemma le_res_if [mono_intros]:
  "(c \<Longrightarrow> le_res x y) \<Longrightarrow> (\<not> c \<Longrightarrow> le_res x' y') \<Longrightarrow>
   le_res (if c then x else x') (if c then y else y')"
  by simp

lemma le_res_case_prod [mono_intros]:
  "(\<And>a b. p = (a, b) \<Longrightarrow> le_res (f a b) (g a b)) \<Longrightarrow> le_res (case_prod f p) (case_prod g p)"
  by (cases p) simp

section \<open>Words\<close>

lemmas [word_nat] = word_less_nat_alt word_le_nat_alt

lemma unat_u32_bound: "unat (w :: u32) < 4294967296"
  using unsigned_less [of w] by simp

text \<open>A loop index below a \<^verbatim>\<open>uint32_t\<close> bound gets closer to \<open>2 ^ 32\<close> when it is incremented.\<close>

lemma u32_count_up: "i < unat (n :: u32) \<Longrightarrow> 4294967295 - i < 4294967296 - i"
  using unat_u32_bound [of n] by linarith

lemma unat_u64_bound: "unat (w :: u64) < 18446744073709551616"
  using unsigned_less [of w] by simp

lemma unat_ucast_u32_u64 [simp]: "unat (ucast (w :: u32) :: u64) = unat w"
  by (simp add: unsigned_ucast_eq take_bit_nat_eq_self_iff unat_u32_bound [THEN less_trans])

lemma unat_ucast_u64_u32: "unat (ucast (w :: u64) :: u32) = unat w mod 4294967296"
  by (simp add: unsigned_ucast_eq take_bit_eq_mod)

lemma unat_minus_le: "unat b \<le> unat a \<Longrightarrow> unat (a - b) = unat a - unat (b :: 'a::len word)"
  by (simp add: unat_sub_if_size)

lemma unat_minus_of_nat:
  "n \<le> unat a \<Longrightarrow> unat (a - of_nat n) = unat (a :: 'a::len word) - n"
proof -
  assume le: "n \<le> unat a"
  then have "n < 2 ^ LENGTH('a)" by (rule le_less_trans) simp
  then have "unat (of_nat n :: 'a word) = n" by (simp add: unat_of_nat)
  with le show ?thesis by (simp add: unat_minus_le)
qed

text \<open>The C idiom \<^verbatim>\<open>(x & 7) != 0\<close> tests divisibility by eight.\<close>

lemma unat_and_7: "unat (w AND 7) = unat (w :: 'a::len word) mod 8"
proof -
  have "w AND 7 = take_bit 3 w"
    by (simp add: take_bit_eq_mask mask_eq_exp_minus_1)
  then have "unat (w AND 7) = take_bit 3 (unat w)"
    by (simp only: unsigned_take_bit_eq)
  then show ?thesis by (simp add: take_bit_eq_mod)
qed

lemma and_7_iff_dvd: "(w AND 7 = 0) \<longleftrightarrow> 8 dvd unat (w :: 'a::len word)"
  by (simp add: unat_and_7 dvd_eq_mod_eq_0 unat_eq_0 [symmetric])

lemma unat_and_not_7: "unat (w AND NOT 7) = unat (w :: 'a::len word) div 8 * 8"
proof -
  have disj: "(w AND NOT 7) AND (w AND 7) = 0" and join: "(w AND NOT 7) OR (w AND 7) = w"
    by (auto simp: bit_eq_iff bit_simps)
  have "(w AND NOT 7) + (w AND 7) = w"
    using word_plus_and_or [of "w AND NOT 7" "w AND 7"] by (simp only: disj join) simp
  then have "w AND NOT 7 = w - (w AND 7)"
    by (metis add_diff_cancel_right')
  moreover have "unat (w AND 7) \<le> unat w"
    by (simp add: unat_and_7)
  ultimately have "unat (w AND NOT 7) = unat w - unat w mod 8"
    by (simp add: unat_minus_le unat_and_7)
  then show ?thesis by (simp add: minus_mod_eq_div_mult)
qed

text \<open>\<^verbatim>\<open>a - (p - q)\<close> where \<^verbatim>\<open>a\<close> is a \<^verbatim>\<open>uint32_t\<close> and the pointer difference is a
  \<^verbatim>\<open>ptrdiff_t\<close>: computed in 64 bits and truncated.\<close>

definition sub_ptrdiff :: "u32 \<Rightarrow> addr \<Rightarrow> addr \<Rightarrow> u32" where
  "sub_ptrdiff a p q = a - word_of_int (int p - int q)"

lemma unat_sub_ptrdiff:
  assumes "q \<le> p" and "p - q \<le> unat a"
  shows "unat (sub_ptrdiff a p q) = unat a - (p - q)"
proof -
  from assms(1) have "int p - int q = int (p - q)" by simp
  then have "sub_ptrdiff a p q = a - of_nat (p - q)"
    by (simp only: sub_ptrdiff_def of_int_of_nat_eq)
  with assms(2) show ?thesis by (simp add: unat_minus_of_nat)
qed

lemma sub_ptrdiff_add [simp]: "sub_ptrdiff a (q + n) q = a - of_nat n"
  by (simp add: sub_ptrdiff_def)

end
