(* ===== verification/Mojo_Memory.thy ===== *)
theory Mojo_Memory
  imports Mojo_Prelude
begin

text \<open>
  Byte-addressed memory. A memory maps an address to the byte stored there, or to \<^term>\<open>None\<close>
  where nothing is mapped: reading or writing there is the outcome \<^term>\<open>BadAccess\<close>.
  Multi-byte scalars are little endian, as on the platforms the bindings run on
  (the wire format is the memory image). \<^verbatim>\<open>load32\<close>, \<^verbatim>\<open>load64\<close>, \<^verbatim>\<open>store32\<close>, \<^verbatim>\<open>store64\<close> and
  \<^verbatim>\<open>memcpy\<close> are the accesses the C code makes; the lemmas give their values on mapped
  memory and what they leave unchanged.
\<close>

type_synonym mem = "addr \<Rightarrow> u8 option"

section \<open>Scalars as bytes\<close>

fun bytes_of_word :: "nat \<Rightarrow> 'a::len word \<Rightarrow> u8 list" where
  "bytes_of_word 0 w = []"
| "bytes_of_word (Suc n) w = ucast w # bytes_of_word n (drop_bit 8 w)"

fun word_of_bytes :: "u8 list \<Rightarrow> 'a::len word" where
  "word_of_bytes [] = 0"
| "word_of_bytes (b # bs) = ucast b OR push_bit 8 (word_of_bytes bs)"

lemma length_bytes_of_word [simp]: "length (bytes_of_word n w) = n"
  by (induction n arbitrary: w) simp_all

lemma word_of_bytes_of_word_take:
  "word_of_bytes (bytes_of_word n w) = take_bit (8 * n) (w :: 'a::len word)"
proof (induction n arbitrary: w)
  case 0
  then show ?case by simp
next
  case (Suc n)
  have "word_of_bytes (bytes_of_word (Suc n) w) =
      ucast (ucast w :: u8) OR push_bit 8 (take_bit (8 * n) (drop_bit 8 w))"
    using Suc by simp
  also have "\<dots> = take_bit (8 * Suc n) w"
    by (rule bit_word_eqI)
      (auto simp: bit_or_iff bit_push_bit_iff bit_take_bit_iff bit_drop_bit_eq bit_ucast_iff)
  finally show ?case .
qed

lemma word_of_bytes_of_word:
  "LENGTH('a) \<le> 8 * n \<Longrightarrow> word_of_bytes (bytes_of_word n w) = (w :: 'a::len word)"
  by (simp add: word_of_bytes_of_word_take take_bit_word_eq_self)

section \<open>Access\<close>

fun load_bytes :: "mem \<Rightarrow> addr \<Rightarrow> nat \<Rightarrow> u8 list res" where
  "load_bytes m a 0 = Inr []"
| "load_bytes m a (Suc n) =
     (case m a of
        None \<Rightarrow> Inl BadAccess
      | Some b \<Rightarrow> bindR (load_bytes m (Suc a) n) (\<lambda>bs. Inr (b # bs)))"

fun store_bytes :: "mem \<Rightarrow> addr \<Rightarrow> u8 list \<Rightarrow> mem res" where
  "store_bytes m a [] = Inr m"
| "store_bytes m a (b # bs) =
     (case m a of
        None \<Rightarrow> Inl BadAccess
      | Some _ \<Rightarrow> store_bytes (m(a \<mapsto> b)) (Suc a) bs)"

definition load32 :: "mem \<Rightarrow> addr \<Rightarrow> u32 res" where
  "load32 m a = bindR (load_bytes m a 4) (\<lambda>bs. Inr (word_of_bytes bs))"

definition load64 :: "mem \<Rightarrow> addr \<Rightarrow> u64 res" where
  "load64 m a = bindR (load_bytes m a 8) (\<lambda>bs. Inr (word_of_bytes bs))"

definition store32 :: "mem \<Rightarrow> addr \<Rightarrow> u32 \<Rightarrow> mem res" where
  "store32 m a w = store_bytes m a (bytes_of_word 4 w)"

definition store64 :: "mem \<Rightarrow> addr \<Rightarrow> u64 \<Rightarrow> mem res" where
  "store64 m a w = store_bytes m a (bytes_of_word 8 w)"

definition memcpy :: "mem \<Rightarrow> addr \<Rightarrow> addr \<Rightarrow> nat \<Rightarrow> mem res" where
  "memcpy m dst src n = bindR (load_bytes m src n) (store_bytes m dst)"

text \<open>A memory that holds the given bytes from \<open>base\<close> on and nothing else.\<close>

definition mem_of :: "addr \<Rightarrow> u8 list \<Rightarrow> mem" where
  "mem_of base bs =
     (\<lambda>a. if base \<le> a \<and> a < base + length bs then Some (bs ! (a - base)) else None)"

section \<open>Mapped ranges and total access\<close>

definition mapped :: "mem \<Rightarrow> addr \<Rightarrow> nat \<Rightarrow> bool" where
  "mapped m a n \<longleftrightarrow> (\<forall>i < n. m (a + i) \<noteq> None)"

definition peek :: "mem \<Rightarrow> addr \<Rightarrow> nat \<Rightarrow> u8 list" where
  "peek m a n = map (\<lambda>i. the (m (a + i))) [0..<n]"

definition poke :: "mem \<Rightarrow> addr \<Rightarrow> u8 list \<Rightarrow> mem" where
  "poke m a bs = (\<lambda>x. if a \<le> x \<and> x < a + length bs then Some (bs ! (x - a)) else m x)"

definition peek32 :: "mem \<Rightarrow> addr \<Rightarrow> u32" where
  "peek32 m a = word_of_bytes (peek m a 4)"

definition peek64 :: "mem \<Rightarrow> addr \<Rightarrow> u64" where
  "peek64 m a = word_of_bytes (peek m a 8)"

lemma mapped_0 [simp]: "mapped m a 0"
  by (simp add: mapped_def)

lemma mapped_Suc: "mapped m a (Suc n) \<longleftrightarrow> m a \<noteq> None \<and> mapped m (Suc a) n"
  by (auto simp: mapped_def less_Suc_eq_0_disj)

lemma mapped_iff_range: "mapped m a n \<longleftrightarrow> (\<forall>x. a \<le> x \<longrightarrow> x < a + n \<longrightarrow> m x \<noteq> None)"
  by (auto simp: mapped_def le_iff_add)

lemma mapped_iff_dom: "mapped m a n \<longleftrightarrow> {a..<a + n} \<subseteq> dom m"
  by (auto simp: mapped_iff_range)

lemma mapped_sub: "mapped m a n \<Longrightarrow> a \<le> b \<Longrightarrow> b + k \<le> a + n \<Longrightarrow> mapped m b k"
  by (auto simp: mapped_iff_range)

lemma load_bytes_eq:
  "load_bytes m a n = (if mapped m a n then Inr (peek m a n) else Inl BadAccess)"
proof (induction n arbitrary: a)
  case 0
  then show ?case by (simp add: peek_def)
next
  case (Suc n)
  then show ?case
    by (auto simp: mapped_Suc peek_def map_upt_Suc split: option.splits simp del: upt_Suc)
qed

lemma poke_Nil [simp]: "poke m a [] = m"
  by (auto simp: poke_def fun_eq_iff)

lemma poke_Cons: "poke m a (b # bs) = poke (m(a \<mapsto> b)) (Suc a) bs"
  by (auto simp: poke_def fun_eq_iff nth_Cons split: nat.splits)
    (metis diff_Suc_Suc le_antisym not_less_eq_eq Suc_diff_le diff_Suc_1)+

lemma mapped_upd_other [simp]: "mapped (m(a \<mapsto> b)) (Suc a) n \<longleftrightarrow> mapped m (Suc a) n"
  by (auto simp: mapped_def)

lemma store_bytes_eq:
  "store_bytes m a bs = (if mapped m a (length bs) then Inr (poke m a bs) else Inl BadAccess)"
  by (induction bs arbitrary: m a) (auto simp: mapped_Suc poke_Cons split: option.splits)

lemma load32_eq: "load32 m a = (if mapped m a 4 then Inr (peek32 m a) else Inl BadAccess)"
  by (simp add: load32_def load_bytes_eq peek32_def)

lemma load64_eq: "load64 m a = (if mapped m a 8 then Inr (peek64 m a) else Inl BadAccess)"
  by (simp add: load64_def load_bytes_eq peek64_def)

lemma store32_eq:
  "store32 m a w = (if mapped m a 4 then Inr (poke m a (bytes_of_word 4 w)) else Inl BadAccess)"
  by (simp only: store32_def store_bytes_eq length_bytes_of_word)

lemma store64_eq:
  "store64 m a w = (if mapped m a 8 then Inr (poke m a (bytes_of_word 8 w)) else Inl BadAccess)"
  by (simp only: store64_def store_bytes_eq length_bytes_of_word)

lemma length_peek [simp]: "length (peek m a n) = n"
  by (simp add: peek_def)

lemma memcpy_eq:
  "memcpy m dst src n =
     (if mapped m src n \<and> mapped m dst n then Inr (poke m dst (peek m src n)) else Inl BadAccess)"
  by (simp add: memcpy_def load_bytes_eq store_bytes_eq)

section \<open>Frames\<close>

text \<open>Two memories agree on a range, or everywhere outside a range.\<close>

definition agree :: "mem \<Rightarrow> mem \<Rightarrow> addr \<Rightarrow> nat \<Rightarrow> bool" where
  "agree m m' a n \<longleftrightarrow> (\<forall>x. a \<le> x \<longrightarrow> x < a + n \<longrightarrow> m x = m' x)"

lemma agree_refl [simp]: "agree m m a n"
  by (simp add: agree_def)

lemma agree_sym: "agree m m' a n \<Longrightarrow> agree m' m a n"
  by (simp add: agree_def)

lemma agree_trans: "agree m1 m2 a n \<Longrightarrow> agree m2 m3 a n \<Longrightarrow> agree m1 m3 a n"
  by (simp add: agree_def)

lemma agree_sub: "agree m m' a n \<Longrightarrow> a \<le> b \<Longrightarrow> b + k \<le> a + n \<Longrightarrow> agree m m' b k"
  by (simp add: agree_def)

lemma agree_peek: "agree m m' a n \<Longrightarrow> peek m a n = peek m' a n"
  by (simp add: agree_def peek_def)

lemma agree_mapped: "agree m m' a n \<Longrightarrow> mapped m a n \<longleftrightarrow> mapped m' a n"
  by (simp add: agree_def mapped_iff_range)

lemma agree_peek32: "agree m m' a 4 \<Longrightarrow> peek32 m a = peek32 m' a"
  by (simp add: peek32_def agree_peek)

lemma agree_peek64: "agree m m' a 8 \<Longrightarrow> peek64 m a = peek64 m' a"
  by (simp add: peek64_def agree_peek)

lemma agree_poke: "b + k \<le> a \<or> a + length bs \<le> b \<Longrightarrow> agree (poke m a bs) m b k"
  by (auto simp: agree_def poke_def)

lemma poke_outside: "x < a \<or> a + length bs \<le> x \<Longrightarrow> poke m a bs x = m x"
  by (auto simp: poke_def)

lemma dom_poke: "mapped m a (length bs) \<Longrightarrow> dom (poke m a bs) = dom m"
  by (auto simp: poke_def mapped_iff_range dom_def)

lemma mapped_dom_cong: "dom m = dom m' \<Longrightarrow> mapped m a n \<longleftrightarrow> mapped m' a n"
  by (simp add: mapped_iff_dom)

lemma mapped_poke: "mapped m a (length bs) \<Longrightarrow> mapped (poke m a bs) b k \<longleftrightarrow> mapped m b k"
  by (rule mapped_dom_cong) (rule dom_poke)

lemma peek_poke_same: "n = length bs \<Longrightarrow> peek (poke m a bs) a n = bs"
  by (rule nth_equalityI) (simp_all add: peek_def poke_def)

lemma peek32_poke_same [simp]: "peek32 (poke m a (bytes_of_word 4 w)) a = w"
  by (simp add: peek32_def peek_poke_same word_of_bytes_of_word)

lemma peek64_poke_same [simp]: "peek64 (poke m a (bytes_of_word 8 w)) a = w"
  by (simp add: peek64_def peek_poke_same word_of_bytes_of_word)

lemma mapped_mem_of: "mapped (mem_of base bs) a n \<longleftrightarrow> n = 0 \<or> base \<le> a \<and> a + n \<le> base + length bs"
proof -
  have "mapped (mem_of base bs) a n \<longleftrightarrow>
      (\<forall>x. a \<le> x \<longrightarrow> x < a + n \<longrightarrow> base \<le> x \<and> x < base + length bs)"
    by (auto simp: mapped_iff_range mem_of_def)
  also have "\<dots> \<longleftrightarrow> n = 0 \<or> base \<le> a \<and> a + n \<le> base + length bs"
    by (cases n) (auto, metis add_Suc_right le_add1 lessI less_Suc_eq_le not_less)
  finally show ?thesis .
qed

end
