(* ===== verification/Mojom_Types.thy ===== *)
theory Mojom_Types
  imports Mojo_Memory
begin

text \<open>
  The data of the C bindings library: the type descriptor tables of
  \<^verbatim>\<open>internal/type_descriptor.h\<close>, the validation codes of \<^verbatim>\<open>validation.h\<close>, the validation context
  of \<^verbatim>\<open>internal/util.h\<close> and the memory layouts of \<^verbatim>\<open>struct.h\<close>, \<^verbatim>\<open>array.h\<close>, \<^verbatim>\<open>union.h\<close>, \<^verbatim>\<open>map.h\<close>,
  \<^verbatim>\<open>interface.h\<close> and \<^verbatim>\<open>message.h\<close>.

  The C descriptors refer to each other through \<^verbatim>\<open>const void*\<close> and may be cyclic (a struct with
  a field of its own type), so the model keeps them in a table: a \<^verbatim>\<open>descref\<close> is the address of a
  descriptor (0 is \<^verbatim>\<open>NULL\<close>), and a \<^verbatim>\<open>tenv\<close> says which descriptor lives there. The cast of an
  \<^verbatim>\<open>elem_descriptor\<close> to the wrong descriptor type, or its use when there is none, is a bad access.
\<close>

section \<open>Validation results and context\<close>

datatype MojomValidationResult =
    VALIDATION_ERROR_NONE
  | VALIDATION_MISALIGNED_OBJECT
  | VALIDATION_ILLEGAL_MEMORY_RANGE
  | VALIDATION_UNEXPECTED_STRUCT_HEADER
  | VALIDATION_UNEXPECTED_ARRAY_HEADER
  | VALIDATION_ILLEGAL_HANDLE
  | VALIDATION_UNEXPECTED_INVALID_HANDLE
  | VALIDATION_ILLEGAL_POINTER
  | VALIDATION_UNEXPECTED_NULL_POINTER
  | VALIDATION_MESSAGE_HEADER_INVALID_FLAGS
  | VALIDATION_MESSAGE_HEADER_MISSING_REQUEST_ID
  | VALIDATION_MESSAGE_HEADER_UNKNOWN_METHOD
  | VALIDATION_DIFFERENT_SIZED_ARRAYS_IN_MAP
  | VALIDATION_UNEXPECTED_NULL_UNION

record MojomValidationContext =
  next_handle_index :: u32
  next_pointer :: addr

section \<open>Type descriptors\<close>

datatype MojomTypeDescriptorType =
    TYPE_STRUCT_PTR
  | TYPE_MAP_PTR
  | TYPE_ARRAY_PTR
  | TYPE_UNION_PTR
  | TYPE_UNION
  | TYPE_HANDLE
  | TYPE_INTERFACE
  | TYPE_POD

type_synonym descref = nat

record MojomTypeDescriptorStructVersion =
  sv_version :: u32
  sv_num_bytes :: u32

record MojomTypeDescriptorStructEntry =
  se_elem_type :: MojomTypeDescriptorType
  se_elem_descriptor :: descref
  se_offset :: u32
  se_min_version :: u32
  se_nullable :: bool

text \<open>An array with its element count (\<^verbatim>\<open>num_versions\<close> and \<^verbatim>\<open>versions\<close>, \<^verbatim>\<open>num_entries\<close> and
  \<^verbatim>\<open>entries\<close>) is a list.\<close>

record MojomTypeDescriptorStruct =
  sd_versions :: "MojomTypeDescriptorStructVersion list"
  sd_entries :: "MojomTypeDescriptorStructEntry list"

record MojomTypeDescriptorUnionEntry =
  ue_elem_type :: MojomTypeDescriptorType
  ue_elem_descriptor :: descref
  ue_tag :: u32
  ue_nullable :: bool

record MojomTypeDescriptorUnion =
  ud_num_fields :: u32
  ud_entries :: "MojomTypeDescriptorUnionEntry list"

record MojomTypeDescriptorArray =
  ad_elem_type :: MojomTypeDescriptorType
  ad_elem_descriptor :: descref
  ad_num_elements :: u32
  ad_elem_num_bits :: u32
  ad_nullable :: bool

datatype type_desc =
    DescStruct MojomTypeDescriptorStruct
  | DescUnion MojomTypeDescriptorUnion
  | DescArray MojomTypeDescriptorArray

type_synonym tenv = "descref \<Rightarrow> type_desc option"

definition struct_desc :: "tenv \<Rightarrow> descref \<Rightarrow> MojomTypeDescriptorStruct res" where
  "struct_desc env r = (case env r of Some (DescStruct d) \<Rightarrow> Inr d | _ \<Rightarrow> Inl BadAccess)"

definition union_desc :: "tenv \<Rightarrow> descref \<Rightarrow> MojomTypeDescriptorUnion res" where
  "union_desc env r = (case env r of Some (DescUnion d) \<Rightarrow> Inr d | _ \<Rightarrow> Inl BadAccess)"

definition array_desc :: "tenv \<Rightarrow> descref \<Rightarrow> MojomTypeDescriptorArray res" where
  "array_desc env r = (case env r of Some (DescArray d) \<Rightarrow> Inr d | _ \<Rightarrow> Inl BadAccess)"

lemma struct_desc_eq_Inr [res_simps]: "struct_desc env r = Inr d \<longleftrightarrow> env r = Some (DescStruct d)"
  by (auto simp: struct_desc_def split: option.splits type_desc.splits)

lemma union_desc_eq_Inr [res_simps]: "union_desc env r = Inr d \<longleftrightarrow> env r = Some (DescUnion d)"
  by (auto simp: union_desc_def split: option.splits type_desc.splits)

lemma array_desc_eq_Inr [res_simps]: "array_desc env r = Inr d \<longleftrightarrow> env r = Some (DescArray d)"
  by (auto simp: array_desc_def split: option.splits type_desc.splits)

definition g_mojom_string_type_description :: MojomTypeDescriptorArray where
  "g_mojom_string_type_description =
     \<lparr>ad_elem_type = TYPE_POD, ad_elem_descriptor = 0, ad_num_elements = 0,
      ad_elem_num_bits = 8, ad_nullable = False\<rparr>"

section \<open>Layouts\<close>

text \<open>Field offsets and sizes fixed by the static assertions of the headers.\<close>

definition sizeof_MojomStructHeader :: nat where "sizeof_MojomStructHeader = 8"
definition sizeof_MojomArrayHeader :: nat where "sizeof_MojomArrayHeader = 8"
definition sizeof_MojomPointer :: nat where "sizeof_MojomPointer = 8"
definition sizeof_MojomUnionLayout :: nat where "sizeof_MojomUnionLayout = 16"
definition sizeof_MojomInterfaceData :: nat where "sizeof_MojomInterfaceData = 8"
definition sizeof_MojomMapLayout :: nat where "sizeof_MojomMapLayout = 24"
definition sizeof_MojomMessage :: nat where "sizeof_MojomMessage = 16"
definition sizeof_MojomMessageWithRequestId :: nat where "sizeof_MojomMessageWithRequestId = 24"
definition sizeof_MojoHandle :: nat where "sizeof_MojoHandle = 4"

lemmas sizeofs [simp] =
  sizeof_MojomStructHeader_def sizeof_MojomArrayHeader_def sizeof_MojomPointer_def
  sizeof_MojomUnionLayout_def sizeof_MojomInterfaceData_def sizeof_MojomMapLayout_def
  sizeof_MojomMessage_def sizeof_MojomMessageWithRequestId_def sizeof_MojoHandle_def

definition struct_num_bytes :: "mem \<Rightarrow> addr \<Rightarrow> u32 res" where
  "struct_num_bytes m p = load32 m p"

definition struct_version :: "mem \<Rightarrow> addr \<Rightarrow> u32 res" where
  "struct_version m p = load32 m (p + 4)"

definition array_num_bytes :: "mem \<Rightarrow> addr \<Rightarrow> u32 res" where
  "array_num_bytes m p = load32 m p"

definition array_num_elements :: "mem \<Rightarrow> addr \<Rightarrow> u32 res" where
  "array_num_elements m p = load32 m (p + 4)"

definition union_size :: "mem \<Rightarrow> addr \<Rightarrow> u32 res" where
  "union_size m p = load32 m p"

definition union_tag :: "mem \<Rightarrow> addr \<Rightarrow> u32 res" where
  "union_tag m p = load32 m (p + 4)"

text \<open>The \<^verbatim>\<open>data\<close> member of a \<^verbatim>\<open>MojomUnionLayout\<close>.\<close>

definition union_data :: "addr \<Rightarrow> addr" where
  "union_data p = p + 8"

text \<open>A \<^verbatim>\<open>union MojomPointer\<close> read as its member \<^verbatim>\<open>ptr\<close> or \<^verbatim>\<open>offset\<close>.\<close>

definition pointer_ptr :: "mem \<Rightarrow> addr \<Rightarrow> addr res" where
  "pointer_ptr m p = bindR (load64 m p) (\<lambda>w. Inr (unat w))"

definition pointer_offset :: "mem \<Rightarrow> addr \<Rightarrow> u64 res" where
  "pointer_offset m p = load64 m p"

definition set_pointer_ptr :: "mem \<Rightarrow> addr \<Rightarrow> addr \<Rightarrow> mem res" where
  "set_pointer_ptr m p a = store64 m p (of_nat a)"

definition set_pointer_offset :: "mem \<Rightarrow> addr \<Rightarrow> u64 \<Rightarrow> mem res" where
  "set_pointer_offset m p w = store64 m p w"

lemmas layout_defs =
  struct_num_bytes_def struct_version_def array_num_bytes_def array_num_elements_def
  union_size_def union_tag_def union_data_def pointer_ptr_def pointer_offset_def
  set_pointer_ptr_def set_pointer_offset_def

text \<open>The bytes a field of a given type occupies in its container.\<close>

fun elem_size :: "MojomTypeDescriptorType \<Rightarrow> nat" where
  "elem_size TYPE_UNION = sizeof_MojomUnionLayout"
| "elem_size TYPE_HANDLE = sizeof_MojoHandle"
| "elem_size TYPE_INTERFACE = sizeof_MojomInterfaceData"
| "elem_size TYPE_POD = 0"
| "elem_size _ = sizeof_MojomPointer"

text \<open>The encoding of a \<^verbatim>\<open>MojoHandle\<close>; \<^verbatim>\<open>kEncodedHandleInvalid\<close> is \<^verbatim>\<open>(MojoHandle)-1\<close>.\<close>

type_synonym MojoHandle = u32

definition MOJO_HANDLE_INVALID :: MojoHandle where "MOJO_HANDLE_INVALID = 0"
definition kEncodedHandleInvalid :: MojoHandle where "kEncodedHandleInvalid = - 1"

end
