(* ===== verification/Mojom_Buffer.thy ===== *)
theory Mojom_Buffer
  imports Mojom_Types
begin

text \<open>
  \<^verbatim>\<open>buffer.h\<close> and \<^verbatim>\<open>buffer.c\<close>: the linear allocator every serialised object is carved from, and
  the handle buffer filled while encoding. \<^verbatim>\<open>MojomBuffer_Allocate\<close> is modelled at its C widths:
  the size is rounded up in 64 bits, the comparison is done in 64 bits, and the counter is a
  32-bit word.
\<close>

definition MOJOM_INTERNAL_ROUND_TO_8 :: "'a::len word \<Rightarrow> 'a word" where
  "MOJOM_INTERNAL_ROUND_TO_8 n = (n + 7) AND NOT 7"

record MojomBuffer =
  buf :: addr
  buf_size :: u32
  num_bytes_used :: u32

text \<open>\<^verbatim>\<open>handles\<close> is \<^term>\<open>None\<close> when the C pointer is \<^verbatim>\<open>NULL\<close>.\<close>

record MojomHandleBuffer =
  hb_handles :: "MojoHandle list option"
  hb_num_handles :: u32
  hb_num_handles_used :: u32

definition MojomBuffer_Allocate :: "MojomBuffer \<Rightarrow> u32 \<Rightarrow> MojomBuffer \<times> addr" where
  "MojomBuffer_Allocate b num_bytes =
     (let bytes_used = num_bytes_used b;
          size = MOJOM_INTERNAL_ROUND_TO_8 (ucast num_bytes :: u64)
      in if (ucast bytes_used :: u64) + size > ucast (buf_size b) then (b, 0)
         else (b\<lparr>num_bytes_used := ucast ((ucast (num_bytes_used b) :: u64) + size)\<rparr>,
               buf b + unat bytes_used))"

section \<open>Rounding\<close>

text \<open>The macro is arithmetic rounding as long as it does not overflow its width.\<close>

definition round8 :: "nat \<Rightarrow> nat" where
  "round8 n = (n + 7) div 8 * 8"

lemma round8_bounds: "n \<le> round8 n" "round8 n < n + 8" "8 dvd round8 n"
proof -
  show "n \<le> round8 n" "round8 n < n + 8" unfolding round8_def by linarith+
qed (simp add: round8_def)

lemma unat_ROUND_TO_8:
  assumes "unat n + 7 < 2 ^ LENGTH('a)"
  shows "unat (MOJOM_INTERNAL_ROUND_TO_8 (n :: 'a::len word)) = round8 (unat n)"
proof -
  have "unat (n + 7) = unat n + 7"
    using assms unat_of_nat [of "unat n + 7", where 'a = 'a] by simp
  then show ?thesis
    by (simp only: MOJOM_INTERNAL_ROUND_TO_8_def unat_and_not_7 round8_def)
qed

lemma unat_ROUND_TO_8_u32:
  "unat (MOJOM_INTERNAL_ROUND_TO_8 (ucast (n :: u32) :: u64)) = round8 (unat n)"
  using unat_u32_bound [of n] by (simp add: unat_ROUND_TO_8)

section \<open>What an allocation does\<close>

lemma MojomBuffer_Allocate_cases:
  "MojomBuffer_Allocate b n =
     (if unat (num_bytes_used b) + round8 (unat n) \<le> unat (buf_size b)
      then (b\<lparr>num_bytes_used := num_bytes_used b + of_nat (round8 (unat n))\<rparr>,
            buf b + unat (num_bytes_used b))
      else (b, 0))"
proof -
  let ?used = "ucast (num_bytes_used b) :: u64"
  let ?size = "MOJOM_INTERNAL_ROUND_TO_8 (ucast n :: u64)"
  have sum: "unat (?used + ?size) = unat (num_bytes_used b) + round8 (unat n)"
    using unat_u32_bound [of "num_bytes_used b"] unat_u32_bound [of n] round8_bounds(2) [of "unat n"]
    by (simp add: unat_plus_if_size unat_ROUND_TO_8_u32 word_size)
  then have "(of_nat (unat (?used + ?size)) :: u32) = num_bytes_used b + of_nat (round8 (unat n))"
    by simp
  then have "(ucast (?used + ?size) :: u32) = num_bytes_used b + of_nat (round8 (unat n))"
    by (simp only: of_nat_unat)
  with sum show ?thesis
    by (simp add: MojomBuffer_Allocate_def Let_def word_less_nat_alt not_less)
qed

lemma unat_num_bytes_used_Allocate:
  "unat (num_bytes_used b) + round8 (unat n) \<le> unat (buf_size b) \<Longrightarrow>
   unat (num_bytes_used b + of_nat (round8 (unat n))) = unat (num_bytes_used b) + round8 (unat n)"
  using unat_u32_bound [of "buf_size b"] by (simp add: unat_plus_if_size unat_of_nat word_size)

section \<open>Linear allocators\<close>

text \<open>
  The contract of an allocator that hands out consecutive regions of one block: a request
  that fits returns the first unused byte and advances the fill mark by the (rounded) request,
  a request that does not fit returns \<^verbatim>\<open>NULL\<close> and changes nothing.
\<close>

locale linear_allocator =
  fixes allocate :: "'b \<Rightarrow> 'n \<Rightarrow> 'b \<times> addr"
    and inv :: "'b \<Rightarrow> bool"
    and base :: "'b \<Rightarrow> addr"
    and used :: "'b \<Rightarrow> nat"
    and capacity :: "'b \<Rightarrow> nat"
    and request :: "'n \<Rightarrow> nat"
    and fits :: "'b \<Rightarrow> 'n \<Rightarrow> bool"
  assumes inv_room: "inv b \<Longrightarrow> used b \<le> capacity b"
    and inv_allocate: "inv b \<Longrightarrow> inv (fst (allocate b n))"
    and allocate_fits: "inv b \<Longrightarrow> fits b n \<Longrightarrow> snd (allocate b n) = base b + used b"
    and used_fits: "inv b \<Longrightarrow> fits b n \<Longrightarrow> used (fst (allocate b n)) = used b + request n"
    and allocate_full: "inv b \<Longrightarrow> \<not> fits b n \<Longrightarrow> allocate b n = (b, 0)"
    and base_allocate: "base (fst (allocate b n)) = base b"
    and capacity_allocate: "capacity (fst (allocate b n)) = capacity b"
    and request_aligned: "8 dvd request n"

text \<open>The regions (start and length) a sequence of requests is given, failed ones left out.\<close>

fun alloc_regions ::
  "('b \<Rightarrow> 'n \<Rightarrow> 'b \<times> addr) \<Rightarrow> ('n \<Rightarrow> nat) \<Rightarrow> 'b \<Rightarrow> 'n list \<Rightarrow> (addr \<times> nat) list" where
  "alloc_regions alloc req b [] = []"
| "alloc_regions alloc req b (n # ns) =
     (let (b', p) = alloc b n
      in (if p = 0 then [] else [(p, req n)]) @ alloc_regions alloc req b' ns)"

text \<open>Consecutive regions: each starts at or after the end of the one before, all inside
  \<open>[lo, hi)\<close> and at multiples of eight from \<open>org\<close>.\<close>

fun consecutive :: "addr \<Rightarrow> addr \<Rightarrow> addr \<Rightarrow> (addr \<times> nat) list \<Rightarrow> bool" where
  "consecutive org lo hi [] \<longleftrightarrow> lo \<le> hi"
| "consecutive org lo hi ((p, k) # rs) \<longleftrightarrow>
     lo \<le> p \<and> 8 dvd (p - org) \<and> consecutive org (p + k) hi rs"

lemma consecutive_weaken: "consecutive org lo hi rs \<Longrightarrow> lo' \<le> lo \<Longrightarrow> consecutive org lo' hi rs"
  by (induction rs) auto

lemma consecutive_bounds:
  "consecutive org lo hi rs \<Longrightarrow> (p, k) \<in> set rs \<Longrightarrow> lo \<le> p \<and> p + k \<le> hi \<and> 8 dvd (p - org)"
proof (induction rs arbitrary: lo)
  case (Cons r rs)
  obtain q j where r: "r = (q, j)" by (cases r)
  have "lo' \<le> hi" if "consecutive org lo' hi rs" for lo'
    using that by (induction rs arbitrary: lo') fastforce+
  with Cons r show ?case by fastforce
qed simp

lemma consecutive_disjoint:
  "consecutive org lo hi rs \<Longrightarrow> i < j \<Longrightarrow> j < length rs \<Longrightarrow>
   fst (rs ! i) + snd (rs ! i) \<le> fst (rs ! j)"
proof (induction rs arbitrary: lo i j)
  case (Cons r rs)
  obtain q k where r: "r = (q, k)" by (cases r)
  from Cons.prems r have tail: "consecutive org (q + k) hi rs" by simp
  show ?case
  proof (cases i)
    case 0
    with Cons.prems obtain j' where j: "j = Suc j'" "j' < length rs" by (cases j) auto
    then have "rs ! j' \<in> set rs" by simp
    with consecutive_bounds [OF tail] 0 r j show ?thesis
      by (metis fst_conv nth_Cons_0 nth_Cons_Suc prod.collapse snd_conv)
  next
    case (Suc i')
    with Cons.IH [OF tail] Cons.prems show ?thesis by (cases j) auto
  qed
qed simp

context linear_allocator
begin

lemma alloc_regions_consecutive:
  "base b \<noteq> 0 \<Longrightarrow> 8 dvd used b \<Longrightarrow> inv b \<Longrightarrow>
   consecutive (base b) (base b + used b) (base b + capacity b) (alloc_regions allocate request b ns)"
proof (induction ns arbitrary: b)
  case Nil
  then show ?case by (simp add: inv_room)
next
  case (Cons n ns)
  obtain b' p where bp: "allocate b n = (b', p)" by fastforce
  show ?case
  proof (cases "fits b n")
    case True
    with bp Cons.prems have p: "p = base b + used b" "used b' = used b + request n"
      "base b' = base b" "capacity b' = capacity b" "inv b'"
      using allocate_fits [of b n] used_fits [of b n] base_allocate [of b n]
        capacity_allocate [of b n] inv_allocate [of b n] by simp_all
    with Cons.prems request_aligned [of n] have "8 dvd used b'" by simp
    with Cons.IH [of b'] Cons.prems p bp show ?thesis
      by (simp add: add.assoc)
  next
    case False
    with Cons bp show ?thesis by (simp add: allocate_full)
  qed
qed

lemma alloc_regions_disjoint:
  assumes "base b \<noteq> 0" and "used b = 0" and "inv b" and "rs = alloc_regions allocate request b ns"
  shows "(\<forall>(p, k) \<in> set rs. base b \<le> p \<and> p + k \<le> base b + capacity b \<and> 8 dvd (p - base b)) \<and>
         (\<forall>i j. i < j \<longrightarrow> j < length rs \<longrightarrow> fst (rs ! i) + snd (rs ! i) \<le> fst (rs ! j))"
proof -
  have "consecutive (base b) (base b) (base b + capacity b) rs"
    using alloc_regions_consecutive [of b ns] assms by simp
  then show ?thesis
    using consecutive_bounds consecutive_disjoint by (metis (no_types, lifting) case_prodI2)
qed

end

interpretation mojom_buffer: linear_allocator
  MojomBuffer_Allocate "\<lambda>b. unat (num_bytes_used b) \<le> unat (buf_size b)"
  buf "\<lambda>b. unat (num_bytes_used b)" "\<lambda>b. unat (buf_size b)"
  "\<lambda>n. round8 (unat n)" "\<lambda>b n. unat (num_bytes_used b) + round8 (unat n) \<le> unat (buf_size b)"
  by unfold_locales
    (simp_all add: MojomBuffer_Allocate_cases unat_num_bytes_used_Allocate round8_bounds)

section \<open>Properties\<close>

text \<open>
  Claim C8. \<^verbatim>\<open>MojomBuffer_Allocate\<close> succeeds exactly when the request, rounded up to eight bytes, fits in
  the rest of the buffer. It then returns the first unused byte and advances \<^verbatim>\<open>num_bytes_used\<close> by
  the rounded size without 32-bit wrap-around; otherwise it returns \<^verbatim>\<open>NULL\<close> and leaves the buffer
  unchanged.
\<close>

theorem MojomBuffer_Allocate_correct:
  "(if unat (num_bytes_used b) + round8 (unat n) \<le> unat (buf_size b)
    then MojomBuffer_Allocate b n =
           (b\<lparr>num_bytes_used := num_bytes_used (fst (MojomBuffer_Allocate b n))\<rparr>,
            buf b + unat (num_bytes_used b)) \<and>
         unat (num_bytes_used (fst (MojomBuffer_Allocate b n))) =
           unat (num_bytes_used b) + round8 (unat n)
    else MojomBuffer_Allocate b n = (b, 0))"
  by (simp add: MojomBuffer_Allocate_cases unat_num_bytes_used_Allocate)

text \<open>
  Claim C9. Over any sequence of requests on a buffer that starts empty, the regions
  \<^verbatim>\<open>MojomBuffer_Allocate\<close> hands out lie inside the buffer, start at multiples of eight from its
  beginning and are pairwise disjoint, in the order of the requests.
\<close>

theorem MojomBuffer_Allocate_regions:
  assumes "buf b \<noteq> 0" and "num_bytes_used b = 0"
    and "rs = alloc_regions MojomBuffer_Allocate (\<lambda>n. round8 (unat n)) b ns"
  shows "(\<forall>(p, k) \<in> set rs. buf b \<le> p \<and> p + k \<le> buf b + unat (buf_size b) \<and> 8 dvd (p - buf b)) \<and>
         (\<forall>i j. i < j \<longrightarrow> j < length rs \<longrightarrow> fst (rs ! i) + snd (rs ! i) \<le> fst (rs ! j))"
  using mojom_buffer.alloc_regions_disjoint [of b rs ns] assms by simp

theorem MojomBuffer_Allocate_regions_witness:
  "let b = \<lparr>buf = 64, buf_size = 32, num_bytes_used = 0\<rparr>;
       rs = alloc_regions MojomBuffer_Allocate (\<lambda>n. round8 (unat n)) b [3, 100, 9]
   in rs = [(64, 8), (72, 16)] \<and>
      (\<forall>(p, k) \<in> set rs. 64 \<le> p \<and> p + k \<le> 64 + 32 \<and> 8 dvd (p - 64))"
proof -
  let ?b = "\<lparr>buf = 64, buf_size = 32, num_bytes_used = 0\<rparr>"
  have rs: "alloc_regions MojomBuffer_Allocate (\<lambda>n. round8 (unat n)) ?b [3, 100, 9] =
      [(64, 8), (72, 16)]"
    by (simp add: MojomBuffer_Allocate_cases round8_def)
  with MojomBuffer_Allocate_regions [of ?b _ "[3, 100, 9]", OF _ _ refl] show ?thesis
    by (simp add: Let_def)
qed

end
