(* ===== verification/Mojom_Dispatch.thy ===== *)
theory Mojom_Dispatch
  imports Mojom_Buffer
begin

text \<open>
  The interface that \<^verbatim>\<open>internal/type_descriptor.h\<close> declares between the per-type operations
  (\<^verbatim>\<open>struct.c\<close>, \<^verbatim>\<open>array.c\<close>, \<^verbatim>\<open>union.c\<close>) and the dispatcher of \<^verbatim>\<open>type_descriptor.c\<close>. The two call each
  other: the operations take the dispatch function they call as their first argument, and
  \<^verbatim>\<open>Mojom_TypeDescriptor\<close> ties the knot by recursion on a nesting bound.

  The state of encoding is the memory and the handle buffer; that of decoding the memory and
  the caller's handle array (\<^term>\<open>None\<close> when it is \<^verbatim>\<open>NULL\<close>); that of copying the memory and the
  destination buffer. Validation reads memory and threads its context.
\<close>

type_synonym size_dispatch =
  "tenv \<Rightarrow> mem \<Rightarrow> MojomTypeDescriptorType \<Rightarrow> descref \<Rightarrow> bool \<Rightarrow> addr \<Rightarrow> u64 res"

type_synonym encode_state = "mem \<times> MojomHandleBuffer"

type_synonym encode_dispatch =
  "tenv \<Rightarrow> MojomTypeDescriptorType \<Rightarrow> descref \<Rightarrow> bool \<Rightarrow> addr \<Rightarrow> u32 \<Rightarrow>
   encode_state \<Rightarrow> encode_state res"

type_synonym decode_state = "mem \<times> MojoHandle list option"

type_synonym decode_dispatch =
  "tenv \<Rightarrow> MojomTypeDescriptorType \<Rightarrow> descref \<Rightarrow> bool \<Rightarrow> addr \<Rightarrow> u32 \<Rightarrow> u32 \<Rightarrow>
   decode_state \<Rightarrow> decode_state res"

type_synonym validation = "(MojomValidationResult \<times> MojomValidationContext) res"

type_synonym validate_dispatch =
  "tenv \<Rightarrow> mem \<Rightarrow> MojomTypeDescriptorType \<Rightarrow> descref \<Rightarrow> bool \<Rightarrow> addr \<Rightarrow> u32 \<Rightarrow> u32 \<Rightarrow>
   MojomValidationContext \<Rightarrow> validation"

type_synonym copy_state = "mem \<times> MojomBuffer"

type_synonym copy_dispatch =
  "tenv \<Rightarrow> MojomTypeDescriptorType \<Rightarrow> descref \<Rightarrow> addr \<Rightarrow> addr \<Rightarrow>
   copy_state \<Rightarrow> (bool \<times> copy_state) res"

definition MojomType_IsPointer :: "MojomTypeDescriptorType \<Rightarrow> bool" where
  "MojomType_IsPointer t \<longleftrightarrow>
     t = TYPE_STRUCT_PTR \<or> t = TYPE_MAP_PTR \<or> t = TYPE_ARRAY_PTR \<or> t = TYPE_UNION_PTR"

end
