(* ===== verification/Mojom_Struct.thy ===== *)
theory Mojom_Struct
  imports Mojom_Dispatch
begin

text \<open>
  \<^verbatim>\<open>struct.c\<close>: the five operations on a mojom struct, each a loop over the entries of its type
  descriptor that calls the dispatcher on every entry the struct's version has.
\<close>

section \<open>Serialized size\<close>

fun struct_size_loop ::
  "size_dispatch \<Rightarrow> tenv \<Rightarrow> mem \<Rightarrow> addr \<Rightarrow> MojomTypeDescriptorStructEntry list \<Rightarrow> u64 \<Rightarrow> u64 res"
where
  "struct_size_loop disp env m in_struct [] acc = Inr acc"
| "struct_size_loop disp env m in_struct (entry # es) acc =
     (if \<not> MojomType_IsPointer (se_elem_type entry) \<and> se_elem_type entry \<noteq> TYPE_UNION
      then struct_size_loop disp env m in_struct es acc
      else bindR (struct_version m in_struct) (\<lambda>version.
        if version < se_min_version entry then struct_size_loop disp env m in_struct es acc
        else bindR (disp env m (se_elem_type entry) (se_elem_descriptor entry) (se_nullable entry)
                 (in_struct + sizeof_MojomStructHeader + unat (se_offset entry))) (\<lambda>s.
          struct_size_loop disp env m in_struct es (acc + s))))"

definition MojomStruct_ComputeSerializedSize ::
  "size_dispatch \<Rightarrow> tenv \<Rightarrow> mem \<Rightarrow> descref \<Rightarrow> addr \<Rightarrow> u64 res"
where
  "MojomStruct_ComputeSerializedSize disp env m in_type_desc in_struct =
     assertC (in_struct \<noteq> 0) (assertC (in_type_desc \<noteq> 0) (
     bindR (struct_num_bytes m in_struct) (\<lambda>num_bytes.
     bindR (struct_desc env in_type_desc) (\<lambda>desc.
     struct_size_loop disp env m in_struct (sd_entries desc) (ucast num_bytes)))))"

section \<open>Encoding\<close>

fun struct_encode_loop ::
  "encode_dispatch \<Rightarrow> tenv \<Rightarrow> addr \<Rightarrow> u32 \<Rightarrow> MojomTypeDescriptorStructEntry list \<Rightarrow>
   encode_state \<Rightarrow> encode_state res"
where
  "struct_encode_loop disp env inout_struct in_struct_size [] st = Inr st"
| "struct_encode_loop disp env inout_struct in_struct_size (entry # es) st =
     bindR (struct_version (fst st) inout_struct) (\<lambda>version.
     if version < se_min_version entry
     then struct_encode_loop disp env inout_struct in_struct_size es st
     else assertC (sizeof_MojomStructHeader + unat (se_offset entry) < unat in_struct_size) (
       let elem_data = inout_struct + sizeof_MojomStructHeader + unat (se_offset entry) in
       bindR (disp env (se_elem_type entry) (se_elem_descriptor entry) (se_nullable entry) elem_data
           (sub_ptrdiff in_struct_size elem_data inout_struct) st) (\<lambda>st'.
       struct_encode_loop disp env inout_struct in_struct_size es st')))"

definition MojomStruct_EncodePointersAndHandles ::
  "encode_dispatch \<Rightarrow> tenv \<Rightarrow> descref \<Rightarrow> addr \<Rightarrow> u32 \<Rightarrow> encode_state \<Rightarrow> encode_state res"
where
  "MojomStruct_EncodePointersAndHandles disp env in_type_desc inout_struct in_struct_size st =
     assertC (in_type_desc \<noteq> 0) (assertC (inout_struct \<noteq> 0) (
     assertC (sizeof_MojomStructHeader \<le> unat in_struct_size) (
     bindR (struct_desc env in_type_desc) (\<lambda>desc.
     struct_encode_loop disp env inout_struct in_struct_size (sd_entries desc) st))))"

section \<open>Decoding\<close>

fun struct_decode_loop ::
  "decode_dispatch \<Rightarrow> tenv \<Rightarrow> addr \<Rightarrow> u32 \<Rightarrow> u32 \<Rightarrow> MojomTypeDescriptorStructEntry list \<Rightarrow>
   decode_state \<Rightarrow> decode_state res"
where
  "struct_decode_loop disp env inout_struct in_struct_size in_num_handles [] st = Inr st"
| "struct_decode_loop disp env inout_struct in_struct_size in_num_handles (entry # es) st =
     bindR (struct_version (fst st) inout_struct) (\<lambda>version.
     if version < se_min_version entry
     then struct_decode_loop disp env inout_struct in_struct_size in_num_handles es st
     else assertC (sizeof_MojomStructHeader + unat (se_offset entry) < unat in_struct_size) (
       let elem_data = inout_struct + sizeof_MojomStructHeader + unat (se_offset entry) in
       bindR (disp env (se_elem_type entry) (se_elem_descriptor entry) (se_nullable entry) elem_data
           (sub_ptrdiff in_struct_size elem_data inout_struct) in_num_handles st) (\<lambda>st'.
       struct_decode_loop disp env inout_struct in_struct_size in_num_handles es st')))"

definition MojomStruct_DecodePointersAndHandles ::
  "decode_dispatch \<Rightarrow> tenv \<Rightarrow> descref \<Rightarrow> addr \<Rightarrow> u32 \<Rightarrow> u32 \<Rightarrow> decode_state \<Rightarrow> decode_state res"
where
  "MojomStruct_DecodePointersAndHandles disp env in_type_desc inout_struct in_struct_size
       in_num_handles st =
     assertC (in_type_desc \<noteq> 0) (assertC (inout_struct \<noteq> 0) (
     assertC (snd st \<noteq> None \<or> in_num_handles = 0) (
     bindR (struct_desc env in_type_desc) (\<lambda>desc.
     struct_decode_loop disp env inout_struct in_struct_size in_num_handles (sd_entries desc) st))))"

section \<open>Validation\<close>

text \<open>The reverse scan for the most recent version the struct is compatible with.\<close>

fun version_seek :: "MojomTypeDescriptorStructVersion list \<Rightarrow> u32 \<Rightarrow> nat \<Rightarrow> nat res" where
  "version_seek versions v 0 = Inr 0"
| "version_seek versions v (Suc i) =
     (if Suc i < length versions
      then if sv_version (versions ! Suc i) > v then version_seek versions v i else Inr (Suc i)
      else Inl BadAccess)"

definition is_valid_size_for_version ::
  "u32 \<Rightarrow> u32 \<Rightarrow> MojomTypeDescriptorStructVersion list \<Rightarrow> u32 \<Rightarrow> bool res"
where
  "is_valid_size_for_version num_bytes version versions num_versions =
     bindR (version_seek versions version (unat (num_versions - 1))) (\<lambda>i.
     if i < length versions
     then Inr (if version = sv_version (versions ! i)
               then num_bytes = sv_num_bytes (versions ! i)
               else num_bytes \<ge> sv_num_bytes (versions ! i))
     else Inl BadAccess)"

fun struct_validate_loop ::
  "validate_dispatch \<Rightarrow> tenv \<Rightarrow> mem \<Rightarrow> addr \<Rightarrow> u32 \<Rightarrow> u32 \<Rightarrow>
   MojomTypeDescriptorStructEntry list \<Rightarrow> MojomValidationContext \<Rightarrow> validation"
where
  "struct_validate_loop disp env m in_struct in_struct_size in_num_handles [] ctx =
     Inr (VALIDATION_ERROR_NONE, ctx)"
| "struct_validate_loop disp env m in_struct in_struct_size in_num_handles (entry # es) ctx =
     bindR (struct_version m in_struct) (\<lambda>version.
     if version < se_min_version entry
     then struct_validate_loop disp env m in_struct in_struct_size in_num_handles es ctx
     else
       let elem_data = in_struct + sizeof_MojomStructHeader + unat (se_offset entry) in
       bindR (disp env m (se_elem_type entry) (se_elem_descriptor entry) (se_nullable entry) elem_data
           (sub_ptrdiff in_struct_size elem_data in_struct) in_num_handles ctx) (\<lambda>(result, ctx').
       if result \<noteq> VALIDATION_ERROR_NONE then Inr (result, ctx')
       else struct_validate_loop disp env m in_struct in_struct_size in_num_handles es ctx'))"

definition MojomStruct_Validate ::
  "validate_dispatch \<Rightarrow> tenv \<Rightarrow> mem \<Rightarrow> descref \<Rightarrow> addr \<Rightarrow> u32 \<Rightarrow> u32 \<Rightarrow>
   MojomValidationContext \<Rightarrow> validation"
where
  "MojomStruct_Validate disp env m in_type_desc in_struct in_struct_size in_num_handles ctx =
     assertC (in_type_desc \<noteq> 0) (assertC (in_struct \<noteq> 0) (
     if unat in_struct_size < sizeof_MojomStructHeader
     then Inr (VALIDATION_ILLEGAL_MEMORY_RANGE, ctx)
     else
     bindR (struct_num_bytes m in_struct) (\<lambda>num_bytes.
     if num_bytes > in_struct_size then Inr (VALIDATION_ILLEGAL_MEMORY_RANGE, ctx)
     else
     bindR (struct_desc env in_type_desc) (\<lambda>desc.
     bindR (struct_version m in_struct) (\<lambda>version.
     bindR (is_valid_size_for_version num_bytes version (sd_versions desc)
         (of_nat (length (sd_versions desc)))) (\<lambda>ok.
     if \<not> ok then Inr (VALIDATION_UNEXPECTED_STRUCT_HEADER, ctx)
     else if num_bytes AND 7 \<noteq> 0 then Inr (VALIDATION_MISALIGNED_OBJECT, ctx)
     else struct_validate_loop disp env m in_struct in_struct_size in_num_handles (sd_entries desc)
            (ctx\<lparr>next_pointer := in_struct + unat num_bytes\<rparr>)))))))"

section \<open>Deep copy\<close>

fun struct_copy_loop ::
  "copy_dispatch \<Rightarrow> tenv \<Rightarrow> addr \<Rightarrow> addr \<Rightarrow> MojomTypeDescriptorStructEntry list \<Rightarrow>
   copy_state \<Rightarrow> (bool \<times> copy_state) res"
where
  "struct_copy_loop disp env in_struct out_struct [] st = Inr (True, st)"
| "struct_copy_loop disp env in_struct out_struct (entry # es) st =
     bindR (struct_version (fst st) in_struct) (\<lambda>version.
     if version < se_min_version entry then struct_copy_loop disp env in_struct out_struct es st
     else
       bindR (pointer_ptr (fst st) out_struct) (\<lambda>copy.
       let in_elem_data = in_struct + sizeof_MojomStructHeader + unat (se_offset entry);
           out_elem_data = copy + sizeof_MojomStructHeader + unat (se_offset entry) in
       bindR (disp env (se_elem_type entry) (se_elem_descriptor entry) in_elem_data out_elem_data st)
         (\<lambda>(ok, st').
       if \<not> ok then Inr (False, st') else struct_copy_loop disp env in_struct out_struct es st')))"

text \<open>\<^verbatim>\<open>out_struct\<close> is the address of the pointer cell the copy is assigned to.\<close>

definition MojomStruct_DeepCopy ::
  "copy_dispatch \<Rightarrow> tenv \<Rightarrow> descref \<Rightarrow> addr \<Rightarrow> addr \<Rightarrow> copy_state \<Rightarrow> (bool \<times> copy_state) res"
where
  "MojomStruct_DeepCopy disp env in_type_desc in_struct out_struct st =
     assertC (in_type_desc \<noteq> 0) (assertC (in_struct \<noteq> 0) (assertC (out_struct \<noteq> 0) (
     bindR (struct_num_bytes (fst st) in_struct) (\<lambda>num_bytes.
     case MojomBuffer_Allocate (snd st) num_bytes of (buffer, copy) \<Rightarrow>
     bindR (set_pointer_ptr (fst st) out_struct copy) (\<lambda>m.
     if copy = 0 then Inr (False, (m, buffer))
     else
     bindR (struct_num_bytes m in_struct) (\<lambda>n.
     bindR (memcpy m copy in_struct (unat n)) (\<lambda>m'.
     bindR (struct_desc env in_type_desc) (\<lambda>desc.
     struct_copy_loop disp env in_struct out_struct (sd_entries desc) (m', buffer)))))))))"

section \<open>The version scan\<close>

lemma version_seek_spec:
  "i < length versions \<Longrightarrow>
   \<exists>j \<le> i. version_seek versions v i = Inr j \<and>
     (j = 0 \<or> sv_version (versions ! j) \<le> v) \<and>
     (\<forall>k. j < k \<longrightarrow> k \<le> i \<longrightarrow> v < sv_version (versions ! k))"
proof (induction i)
  case (Suc i)
  show ?case
  proof (cases "sv_version (versions ! Suc i) > v")
    case True
    with Suc obtain j where "j \<le> i" "version_seek versions v i = Inr j"
      "j = 0 \<or> sv_version (versions ! j) \<le> v"
      "\<forall>k. j < k \<longrightarrow> k \<le> i \<longrightarrow> v < sv_version (versions ! k)" by auto
    with True Suc.prems show ?thesis by (auto simp: le_Suc_eq)
  next
    case False
    with Suc.prems show ?thesis by (intro exI [of _ "Suc i"]) auto
  qed
qed auto

text \<open>Version tables as the generator writes them: not empty, increasing by version.\<close>

definition wf_version_table :: "MojomTypeDescriptorStructVersion list \<Rightarrow> bool" where
  "wf_version_table versions \<longleftrightarrow>
     versions \<noteq> [] \<and> length versions < 4294967296 \<and>
     sorted_wrt (\<lambda>a b. sv_version a < sv_version b) versions"

lemma wf_version_table_mono:
  "wf_version_table versions \<Longrightarrow> a < b \<Longrightarrow> b < length versions \<Longrightarrow>
   sv_version (versions ! a) < sv_version (versions ! b)"
  by (auto simp: wf_version_table_def sorted_wrt_iff_nth_less)

text \<open>The table index the scan of \<^verbatim>\<open>is_valid_size_for_version\<close> stops at.\<close>

lemma is_valid_size_for_version_eq:
  assumes "wf_version_table versions"
  obtains j where "j < length versions"
    "j = 0 \<or> sv_version (versions ! j) \<le> version"
    "\<And>k. j < k \<Longrightarrow> k < length versions \<Longrightarrow> version < sv_version (versions ! k)"
    "\<And>num_bytes. is_valid_size_for_version num_bytes version versions (of_nat (length versions)) =
       Inr (if version = sv_version (versions ! j) then num_bytes = sv_num_bytes (versions ! j)
            else num_bytes \<ge> sv_num_bytes (versions ! j))"
proof -
  from assms have len: "0 < length versions" "length versions < 4294967296"
    by (simp_all add: wf_version_table_def)
  then have "unat (of_nat (length versions) - 1 :: u32) = length versions - 1"
    using unat_minus_of_nat [of 1 "of_nat (length versions) :: u32"] by (simp add: unat_of_nat Suc_le_eq)
  moreover from len have "length versions - 1 < length versions" by simp
  ultimately obtain j where "j \<le> length versions - 1"
    "version_seek versions version (unat (of_nat (length versions) - 1 :: u32)) = Inr j"
    "j = 0 \<or> sv_version (versions ! j) \<le> version"
    "\<forall>k. j < k \<longrightarrow> k \<le> length versions - 1 \<longrightarrow> version < sv_version (versions ! k)"
    using version_seek_spec [of "length versions - 1" versions version] by auto
  moreover from this len have "j < length versions" by linarith
  ultimately show thesis
    by (intro that [of j]) (auto simp: is_valid_size_for_version_def)
qed

text \<open>
  Claim C7. Against a version table in increasing order, \<^verbatim>\<open>is_valid_size_for_version\<close> returns without a
  bad access and compares with the right entry: a struct of a listed version must have exactly
  that version's size; a struct between two listed versions, or newer than all of them, must be at
  least as large as the newest listed version that is not newer than it.
\<close>

theorem is_valid_size_for_version_correct:
  assumes "wf_version_table versions"
    and "v \<in> set versions" and "sv_version v \<le> version"
    and "\<forall>w \<in> set versions. sv_version w \<le> version \<longrightarrow> sv_version w \<le> sv_version v"
  shows "is_valid_size_for_version num_bytes version versions (of_nat (length versions)) =
    Inr (if sv_version v = version then num_bytes = sv_num_bytes v else sv_num_bytes v \<le> num_bytes)"
proof -
  obtain j where j: "j < length versions" "j = 0 \<or> sv_version (versions ! j) \<le> version"
    "\<And>k. j < k \<Longrightarrow> k < length versions \<Longrightarrow> version < sv_version (versions ! k)"
    "is_valid_size_for_version num_bytes version versions (of_nat (length versions)) =
       Inr (if version = sv_version (versions ! j) then num_bytes = sv_num_bytes (versions ! j)
            else num_bytes \<ge> sv_num_bytes (versions ! j))"
    using is_valid_size_for_version_eq [OF assms(1), of version] by metis
  obtain i where i: "i < length versions" "v = versions ! i"
    using assms(2) by (metis in_set_conv_nth)
  with j(3) assms(3) have "i \<le> j" by (metis leD leI)
  moreover have "\<not> i < j"
  proof
    assume "i < j"
    with j have "sv_version (versions ! j) \<le> version" by simp
    with assms(4) j(1) i(2) have "sv_version (versions ! j) \<le> sv_version (versions ! i)" by simp
    with wf_version_table_mono [OF assms(1) \<open>i < j\<close> j(1)] show False by simp
  qed
  ultimately show ?thesis using j(4) i(2) by (auto split: if_splits)
qed

theorem is_valid_size_for_version_correct_witness:
  "is_valid_size_for_version 32 2
     [\<lparr>sv_version = 0, sv_num_bytes = 16\<rparr>, \<lparr>sv_version = 1, sv_num_bytes = 24\<rparr>,
      \<lparr>sv_version = 3, sv_num_bytes = 40\<rparr>] 3 = Inr True"
proof -
  let ?vs = "[\<lparr>sv_version = 0, sv_num_bytes = 16\<rparr>, \<lparr>sv_version = 1, sv_num_bytes = 24\<rparr>,
      \<lparr>sv_version = 3, sv_num_bytes = 40\<rparr>] :: MojomTypeDescriptorStructVersion list"
  have "wf_version_table ?vs" by (simp add: wf_version_table_def)
  from is_valid_size_for_version_correct [OF this,
      of "\<lparr>sv_version = 1, sv_num_bytes = 24\<rparr>" 2 32]
  show ?thesis by simp
qed

end
