(* ===== verification/Mojom_Array.thy ===== *)
theory Mojom_Array
  imports Mojom_Dispatch
begin

text \<open>
  \<^verbatim>\<open>array.c\<close>: allocation of a mojom array and the five operations on it, each a loop over the
  elements. Encoding and decoding write memory, so their loops read \<^verbatim>\<open>num_elements\<close> again in every
  iteration, as the C loop condition does; they end because the index stays below \<open>2 ^ 32\<close>.
\<close>

section \<open>Allocation\<close>

definition MojomArray_New ::
  "u32 \<Rightarrow> u32 \<Rightarrow> copy_state \<Rightarrow> (addr \<times> copy_state) res"
where
  "MojomArray_New num_elements element_byte_size st =
     (let num_bytes = (of_nat sizeof_MojomArrayHeader :: u64) +
            ucast num_elements * ucast element_byte_size in
      if num_bytes > ucast (- 1 :: u32) then Inr (0, st)
      else case MojomBuffer_Allocate (snd st) (ucast num_bytes) of (buffer, arr) \<Rightarrow>
        if arr = 0 then Inr (0, (fst st, buffer))
        else assertC (arr + unat (MOJOM_INTERNAL_ROUND_TO_8 num_bytes) =
                      buf buffer + unat (num_bytes_used buffer)) (
          bindR (store32 (fst st) (arr + 4) num_elements) (\<lambda>m.
          bindR (store32 m arr (MOJOM_INTERNAL_ROUND_TO_8 (ucast num_bytes :: u32))) (\<lambda>m'.
          Inr (arr, (m', buffer))))))"

section \<open>Element addresses\<close>

text \<open>\<^verbatim>\<open>MOJOM_ARRAY_INDEX(base, type, index)\<close>, with the size of the element type.\<close>

definition MOJOM_ARRAY_INDEX :: "addr \<Rightarrow> nat \<Rightarrow> nat \<Rightarrow> addr" where
  "MOJOM_ARRAY_INDEX base sizeof_type index = base + sizeof_MojomArrayHeader + sizeof_type * index"

definition array_index_by_type ::
  "addr \<Rightarrow> MojomTypeDescriptorType \<Rightarrow> nat \<Rightarrow> addr res"
where
  "array_index_by_type arr t index =
     (case t of
        TYPE_STRUCT_PTR \<Rightarrow> Inr (MOJOM_ARRAY_INDEX arr sizeof_MojomPointer index)
      | TYPE_MAP_PTR \<Rightarrow> Inr (MOJOM_ARRAY_INDEX arr sizeof_MojomPointer index)
      | TYPE_ARRAY_PTR \<Rightarrow> Inr (MOJOM_ARRAY_INDEX arr sizeof_MojomPointer index)
      | TYPE_UNION \<Rightarrow> Inr (MOJOM_ARRAY_INDEX arr sizeof_MojomUnionLayout index)
      | TYPE_HANDLE \<Rightarrow> Inr (MOJOM_ARRAY_INDEX arr sizeof_MojoHandle index)
      | TYPE_INTERFACE \<Rightarrow> Inr (MOJOM_ARRAY_INDEX arr sizeof_MojomInterfaceData index)
      | TYPE_UNION_PTR \<Rightarrow> Inl AssertFailed
      | TYPE_POD \<Rightarrow> Inl AssertFailed)"

section \<open>Serialized size\<close>

function array_size_loop ::
  "size_dispatch \<Rightarrow> tenv \<Rightarrow> mem \<Rightarrow> MojomTypeDescriptorArray \<Rightarrow> addr \<Rightarrow> nat \<Rightarrow> u64 \<Rightarrow> u64 res"
where
  "array_size_loop disp env m desc in_array i acc =
     bindR (array_num_elements m in_array) (\<lambda>num_elements.
     if i < unat num_elements
     then bindR (array_index_by_type in_array (ad_elem_type desc) i) (\<lambda>elem_data.
          bindR (disp env m (ad_elem_type desc) (ad_elem_descriptor desc) (ad_nullable desc) elem_data)
            (\<lambda>s. array_size_loop disp env m desc in_array (Suc i) (acc + s)))
     else Inr acc)"
  by pat_completeness auto
termination
  by (relation "measure (\<lambda>(_, _, _, _, _, i, _). 4294967296 - i)")
    (auto intro: u32_count_up)

definition MojomArray_ComputeSerializedSize ::
  "size_dispatch \<Rightarrow> tenv \<Rightarrow> mem \<Rightarrow> descref \<Rightarrow> addr \<Rightarrow> u64 res"
where
  "MojomArray_ComputeSerializedSize disp env m in_type_desc in_array =
     assertC (in_array \<noteq> 0) (assertC (in_type_desc \<noteq> 0) (
     bindR (array_num_bytes m in_array) (\<lambda>num_bytes.
     bindR (array_desc env in_type_desc) (\<lambda>desc.
     if \<not> MojomType_IsPointer (ad_elem_type desc) \<and> ad_elem_type desc \<noteq> TYPE_UNION
     then Inr (ucast num_bytes)
     else array_size_loop disp env m desc in_array 0 (ucast num_bytes)))))"

section \<open>Encoding\<close>

function array_encode_loop ::
  "encode_dispatch \<Rightarrow> tenv \<Rightarrow> MojomTypeDescriptorArray \<Rightarrow> addr \<Rightarrow> u32 \<Rightarrow> nat \<Rightarrow>
   encode_state \<Rightarrow> encode_state res"
where
  "array_encode_loop disp env desc inout_array in_array_size i st =
     bindR (array_num_elements (fst st) inout_array) (\<lambda>num_elements.
     if i < unat num_elements
     then bindR (array_index_by_type inout_array (ad_elem_type desc) i) (\<lambda>elem_data.
          assertC (elem_data < inout_array + unat in_array_size) (
          bindR (disp env (ad_elem_type desc) (ad_elem_descriptor desc) (ad_nullable desc) elem_data
              (in_array_size - of_nat (elem_data - inout_array)) st) (\<lambda>st'.
          array_encode_loop disp env desc inout_array in_array_size (Suc i) st')))
     else Inr st)"
  by pat_completeness auto
termination
  by (relation "measure (\<lambda>(_, _, _, _, _, i, _). 4294967296 - i)")
    (auto intro: u32_count_up)

definition MojomArray_EncodePointersAndHandles ::
  "encode_dispatch \<Rightarrow> tenv \<Rightarrow> descref \<Rightarrow> addr \<Rightarrow> u32 \<Rightarrow> encode_state \<Rightarrow> encode_state res"
where
  "MojomArray_EncodePointersAndHandles disp env in_type_desc inout_array in_array_size st =
     assertC (in_type_desc \<noteq> 0) (assertC (inout_array \<noteq> 0) (
     assertC (sizeof_MojomArrayHeader \<le> unat in_array_size) (
     bindR (array_num_bytes (fst st) inout_array) (\<lambda>num_bytes.
     assertC (in_array_size \<ge> num_bytes) (
     bindR (array_desc env in_type_desc) (\<lambda>desc.
     if ad_elem_type desc = TYPE_POD then Inr st
     else array_encode_loop disp env desc inout_array in_array_size 0 st))))))"

section \<open>Decoding\<close>

function array_decode_loop ::
  "decode_dispatch \<Rightarrow> tenv \<Rightarrow> MojomTypeDescriptorArray \<Rightarrow> addr \<Rightarrow> u32 \<Rightarrow> u32 \<Rightarrow> nat \<Rightarrow>
   decode_state \<Rightarrow> decode_state res"
where
  "array_decode_loop disp env desc inout_array in_array_size in_num_handles i st =
     bindR (array_num_elements (fst st) inout_array) (\<lambda>num_elements.
     if i < unat num_elements
     then bindR (array_index_by_type inout_array (ad_elem_type desc) i) (\<lambda>elem_data.
          assertC (elem_data < inout_array + unat in_array_size) (
          bindR (disp env (ad_elem_type desc) (ad_elem_descriptor desc) (ad_nullable desc) elem_data
              (in_array_size - of_nat (elem_data - inout_array)) in_num_handles st) (\<lambda>st'.
          array_decode_loop disp env desc inout_array in_array_size in_num_handles (Suc i) st')))
     else Inr st)"
  by pat_completeness auto
termination
  by (relation "measure (\<lambda>(_, _, _, _, _, _, i, _). 4294967296 - i)")
    (auto intro: u32_count_up)

definition MojomArray_DecodePointersAndHandles ::
  "decode_dispatch \<Rightarrow> tenv \<Rightarrow> descref \<Rightarrow> addr \<Rightarrow> u32 \<Rightarrow> u32 \<Rightarrow> decode_state \<Rightarrow> decode_state res"
where
  "MojomArray_DecodePointersAndHandles disp env in_type_desc inout_array in_array_size
       in_num_handles st =
     assertC (in_type_desc \<noteq> 0) (assertC (inout_array \<noteq> 0) (
     assertC (snd st \<noteq> None \<or> in_num_handles = 0) (
     bindR (array_desc env in_type_desc) (\<lambda>desc.
     if ad_elem_type desc = TYPE_POD then Inr st
     else array_decode_loop disp env desc inout_array in_array_size in_num_handles 0 st))))"

section \<open>Validation\<close>

definition bits_to_bytes :: "u64 \<Rightarrow> u64" where
  "bits_to_bytes bits = (bits + 7) div 8"

definition validate_array_header ::
  "MojomTypeDescriptorArray \<Rightarrow> mem \<Rightarrow> addr \<Rightarrow> u32 \<Rightarrow> MojomValidationResult res"
where
  "validate_array_header desc m in_array in_buf_size =
     (if unat in_buf_size < sizeof_MojomArrayHeader then Inr VALIDATION_ILLEGAL_MEMORY_RANGE
      else bindR (array_num_bytes m in_array) (\<lambda>num_bytes.
      if unat num_bytes < sizeof_MojomArrayHeader then Inr VALIDATION_UNEXPECTED_ARRAY_HEADER
      else if num_bytes > in_buf_size then Inr VALIDATION_ILLEGAL_MEMORY_RANGE
      else bindR (array_num_elements m in_array) (\<lambda>num_elements.
      if ad_num_elements desc \<noteq> 0 \<and> num_elements \<noteq> ad_num_elements desc
      then Inr VALIDATION_UNEXPECTED_ARRAY_HEADER
      else if (ucast num_bytes :: u64) <
           of_nat sizeof_MojomArrayHeader +
             bits_to_bytes (ucast (ad_elem_num_bits desc) * ucast num_elements)
      then Inr VALIDATION_UNEXPECTED_ARRAY_HEADER
      else Inr VALIDATION_ERROR_NONE)))"

function array_validate_loop ::
  "validate_dispatch \<Rightarrow> tenv \<Rightarrow> mem \<Rightarrow> MojomTypeDescriptorArray \<Rightarrow> addr \<Rightarrow> u32 \<Rightarrow> u32 \<Rightarrow> nat \<Rightarrow>
   MojomValidationContext \<Rightarrow> validation"
where
  "array_validate_loop disp env m desc in_array in_array_size in_num_handles i ctx =
     bindR (array_num_elements m in_array) (\<lambda>num_elements.
     if i < unat num_elements
     then bindR (array_index_by_type in_array (ad_elem_type desc) i) (\<lambda>elem_data.
          bindR (disp env m (ad_elem_type desc) (ad_elem_descriptor desc) (ad_nullable desc) elem_data
              (in_array_size - of_nat (elem_data - in_array)) in_num_handles ctx) (\<lambda>rc.
          if fst rc \<noteq> VALIDATION_ERROR_NONE then Inr rc
          else array_validate_loop disp env m desc in_array in_array_size in_num_handles (Suc i)
                 (snd rc)))
     else Inr (VALIDATION_ERROR_NONE, ctx))"
  by pat_completeness auto
termination
  by (relation "measure (\<lambda>(_, _, _, _, _, _, _, i, _). 4294967296 - i)")
    (auto intro: u32_count_up)

definition MojomArray_Validate ::
  "validate_dispatch \<Rightarrow> tenv \<Rightarrow> mem \<Rightarrow> descref \<Rightarrow> addr \<Rightarrow> u32 \<Rightarrow> u32 \<Rightarrow>
   MojomValidationContext \<Rightarrow> validation"
where
  "MojomArray_Validate disp env m in_type_desc in_array in_array_size in_num_handles ctx =
     assertC (in_type_desc \<noteq> 0) (assertC (in_array \<noteq> 0) (
     bindR (array_desc env in_type_desc) (\<lambda>desc.
     bindR (validate_array_header desc m in_array in_array_size) (\<lambda>result.
     if result \<noteq> VALIDATION_ERROR_NONE then Inr (result, ctx)
     else
     bindR (array_num_bytes m in_array) (\<lambda>num_bytes.
     let ctx' = ctx\<lparr>next_pointer := in_array + unat num_bytes\<rparr> in
     if ad_elem_type desc = TYPE_POD then Inr (VALIDATION_ERROR_NONE, ctx')
     else array_validate_loop disp env m desc in_array in_array_size in_num_handles 0 ctx')))))"

section \<open>Deep copy\<close>

function array_copy_loop ::
  "copy_dispatch \<Rightarrow> tenv \<Rightarrow> MojomTypeDescriptorArray \<Rightarrow> addr \<Rightarrow> addr \<Rightarrow> nat \<Rightarrow>
   copy_state \<Rightarrow> (bool \<times> copy_state) res"
where
  "array_copy_loop disp env desc in_array out_array i st =
     bindR (array_num_elements (fst st) in_array) (\<lambda>num_elements.
     if i < unat num_elements
     then bindR (array_index_by_type in_array (ad_elem_type desc) i) (\<lambda>in_elem_data.
          bindR (pointer_ptr (fst st) out_array) (\<lambda>copy.
          bindR (array_index_by_type copy (ad_elem_type desc) i) (\<lambda>out_elem_data.
          bindR (disp env (ad_elem_type desc) (ad_elem_descriptor desc) in_elem_data out_elem_data st)
            (\<lambda>rs.
          if \<not> fst rs then Inr rs
          else array_copy_loop disp env desc in_array out_array (Suc i) (snd rs)))))
     else Inr (True, st))"
  by pat_completeness auto
termination
  by (relation "measure (\<lambda>(_, _, _, _, _, i, _). 4294967296 - i)")
    (auto intro: u32_count_up)

definition MojomArray_DeepCopy ::
  "copy_dispatch \<Rightarrow> tenv \<Rightarrow> descref \<Rightarrow> addr \<Rightarrow> addr \<Rightarrow> copy_state \<Rightarrow> (bool \<times> copy_state) res"
where
  "MojomArray_DeepCopy disp env in_type_desc in_array out_array st =
     assertC (in_type_desc \<noteq> 0) (assertC (in_array \<noteq> 0) (assertC (out_array \<noteq> 0) (
     bindR (array_num_bytes (fst st) in_array) (\<lambda>num_bytes.
     case MojomBuffer_Allocate (snd st) num_bytes of (buffer, copy) \<Rightarrow>
     bindR (set_pointer_ptr (fst st) out_array copy) (\<lambda>m.
     if copy = 0 then Inr (False, (m, buffer))
     else
     bindR (array_num_bytes m in_array) (\<lambda>n.
     bindR (memcpy m copy in_array (unat n)) (\<lambda>m'.
     bindR (array_desc env in_type_desc) (\<lambda>desc.
     if ad_elem_type desc = TYPE_POD then Inr (True, (m', buffer))
     else array_copy_loop disp env desc in_array out_array 0 (m', buffer)))))))))"

declare array_size_loop.simps [simp del] array_encode_loop.simps [simp del]
  array_decode_loop.simps [simp del] array_validate_loop.simps [simp del]
  array_copy_loop.simps [simp del]

end
