(* ===== verification/Mojom_Union.thy ===== *)
theory Mojom_Union
  imports Mojom_Dispatch
begin

text \<open>
  \<^verbatim>\<open>union.c\<close>: the five operations on a mojom union. Each looks for the entry of the descriptor
  with the union's tag and dispatches on the union's \<^verbatim>\<open>data\<close> member; \<^verbatim>\<open>map.c\<close>: the check that the
  two arrays of a map have the same length.
\<close>

section \<open>Serialized size\<close>

fun union_size_loop ::
  "size_dispatch \<Rightarrow> tenv \<Rightarrow> mem \<Rightarrow> addr \<Rightarrow> MojomTypeDescriptorUnionEntry list \<Rightarrow> u64 res"
where
  "union_size_loop disp env m in_union_data [] = Inr 0"
| "union_size_loop disp env m in_union_data (entry # es) =
     bindR (union_tag m in_union_data) (\<lambda>tag.
     if tag \<noteq> ue_tag entry then union_size_loop disp env m in_union_data es
     else if \<not> MojomType_IsPointer (ue_elem_type entry) then Inr 0
     else disp env m (ue_elem_type entry) (ue_elem_descriptor entry) (ue_nullable entry)
            (union_data in_union_data))"

definition MojomUnion_ComputeSerializedSize ::
  "size_dispatch \<Rightarrow> tenv \<Rightarrow> mem \<Rightarrow> descref \<Rightarrow> addr \<Rightarrow> u64 res"
where
  "MojomUnion_ComputeSerializedSize disp env m in_type_desc in_union_data =
     assertC (in_type_desc \<noteq> 0) (assertC (in_union_data \<noteq> 0) (
     bindR (union_desc env in_type_desc) (\<lambda>desc.
     union_size_loop disp env m in_union_data (ud_entries desc))))"

section \<open>Encoding\<close>

fun union_encode_loop ::
  "encode_dispatch \<Rightarrow> tenv \<Rightarrow> addr \<Rightarrow> u32 \<Rightarrow> MojomTypeDescriptorUnionEntry list \<Rightarrow>
   encode_state \<Rightarrow> encode_state res"
where
  "union_encode_loop disp env inout_union in_buf_size [] st = Inr st"
| "union_encode_loop disp env inout_union in_buf_size (entry # es) st =
     bindR (union_tag (fst st) inout_union) (\<lambda>tag.
     if tag \<noteq> ue_tag entry then union_encode_loop disp env inout_union in_buf_size es st
     else if ue_elem_type entry = TYPE_POD then Inr st
     else disp env (ue_elem_type entry) (ue_elem_descriptor entry) (ue_nullable entry)
            (union_data inout_union)
            (sub_ptrdiff in_buf_size (union_data inout_union) inout_union) st)"

definition MojomUnion_EncodePointersAndHandles ::
  "encode_dispatch \<Rightarrow> tenv \<Rightarrow> descref \<Rightarrow> addr \<Rightarrow> u32 \<Rightarrow> encode_state \<Rightarrow> encode_state res"
where
  "MojomUnion_EncodePointersAndHandles disp env in_type_desc inout_union in_buf_size st =
     assertC (sizeof_MojomUnionLayout \<le> unat in_buf_size) (
     bindR (union_desc env in_type_desc) (\<lambda>desc.
     union_encode_loop disp env inout_union in_buf_size (ud_entries desc) st))"

section \<open>Decoding\<close>

fun union_decode_loop ::
  "decode_dispatch \<Rightarrow> tenv \<Rightarrow> addr \<Rightarrow> u32 \<Rightarrow> u32 \<Rightarrow> MojomTypeDescriptorUnionEntry list \<Rightarrow>
   decode_state \<Rightarrow> decode_state res"
where
  "union_decode_loop disp env inout_union in_union_size in_num_handles [] st = Inr st"
| "union_decode_loop disp env inout_union in_union_size in_num_handles (entry # es) st =
     bindR (union_tag (fst st) inout_union) (\<lambda>tag.
     if tag \<noteq> ue_tag entry
     then union_decode_loop disp env inout_union in_union_size in_num_handles es st
     else if ue_elem_type entry = TYPE_POD then Inr st
     else disp env (ue_elem_type entry) (ue_elem_descriptor entry) (ue_nullable entry)
            (union_data inout_union)
            (sub_ptrdiff in_union_size (union_data inout_union) inout_union) in_num_handles st)"

definition MojomUnion_DecodePointersAndHandles ::
  "decode_dispatch \<Rightarrow> tenv \<Rightarrow> descref \<Rightarrow> addr \<Rightarrow> u32 \<Rightarrow> u32 \<Rightarrow> decode_state \<Rightarrow> decode_state res"
where
  "MojomUnion_DecodePointersAndHandles disp env in_type_desc inout_union in_union_size
       in_num_handles st =
     assertC (sizeof_MojomUnionLayout \<le> unat in_union_size) (
     assertC (snd st \<noteq> None \<or> in_num_handles = 0) (
     bindR (union_desc env in_type_desc) (\<lambda>desc.
     union_decode_loop disp env inout_union in_union_size in_num_handles (ud_entries desc) st)))"

section \<open>Validation\<close>

fun union_validate_loop ::
  "validate_dispatch \<Rightarrow> tenv \<Rightarrow> mem \<Rightarrow> bool \<Rightarrow> addr \<Rightarrow> u32 \<Rightarrow> u32 \<Rightarrow>
   MojomTypeDescriptorUnionEntry list \<Rightarrow> MojomValidationContext \<Rightarrow> validation"
where
  "union_validate_loop disp env m in_nullable in_union in_union_size in_num_handles [] ctx =
     Inr (VALIDATION_ERROR_NONE, ctx)"
| "union_validate_loop disp env m in_nullable in_union in_union_size in_num_handles (entry # es) ctx =
     bindR (union_tag m in_union) (\<lambda>tag.
     if tag \<noteq> ue_tag entry
     then union_validate_loop disp env m in_nullable in_union in_union_size in_num_handles es ctx
     else if ue_elem_type entry = TYPE_POD then Inr (VALIDATION_ERROR_NONE, ctx)
     else bindR (union_size m in_union) (\<lambda>usize.
     if \<not> in_nullable \<and> unat usize \<noteq> sizeof_MojomUnionLayout
     then Inr (VALIDATION_UNEXPECTED_NULL_UNION, ctx)
     else disp env m (ue_elem_type entry) (ue_elem_descriptor entry) (ue_nullable entry)
            (union_data in_union)
            (sub_ptrdiff in_union_size (union_data in_union) in_union) in_num_handles ctx))"

definition MojomUnion_Validate ::
  "validate_dispatch \<Rightarrow> tenv \<Rightarrow> mem \<Rightarrow> descref \<Rightarrow> bool \<Rightarrow> addr \<Rightarrow> u32 \<Rightarrow> u32 \<Rightarrow>
   MojomValidationContext \<Rightarrow> validation"
where
  "MojomUnion_Validate disp env m in_type_desc in_nullable in_union in_union_size in_num_handles ctx =
     bindR (union_desc env in_type_desc) (\<lambda>desc.
     union_validate_loop disp env m in_nullable in_union in_union_size in_num_handles
       (ud_entries desc) ctx)"

section \<open>Deep copy\<close>

definition UNION_TAG_UNKNOWN :: u32 where
  "UNION_TAG_UNKNOWN = 0xFFFFFFFF"

fun union_copy_loop ::
  "copy_dispatch \<Rightarrow> tenv \<Rightarrow> MojomTypeDescriptorUnion \<Rightarrow> addr \<Rightarrow> addr \<Rightarrow>
   MojomTypeDescriptorUnionEntry list \<Rightarrow> copy_state \<Rightarrow> (bool \<times> copy_state) res"
where
  "union_copy_loop disp env desc in_union_data out_union_data [] st =
     bindR (union_tag (fst st) in_union_data) (\<lambda>tag.
     Inr (tag < ud_num_fields desc \<or> tag = UNION_TAG_UNKNOWN, st))"
| "union_copy_loop disp env desc in_union_data out_union_data (entry # es) st =
     bindR (union_tag (fst st) in_union_data) (\<lambda>tag.
     if tag \<noteq> ue_tag entry then union_copy_loop disp env desc in_union_data out_union_data es st
     else if ue_elem_type entry = TYPE_POD then Inr (True, st)
     else disp env (ue_elem_type entry) (ue_elem_descriptor entry)
            (union_data in_union_data) (union_data out_union_data) st)"

definition MojomUnion_DeepCopy ::
  "copy_dispatch \<Rightarrow> tenv \<Rightarrow> descref \<Rightarrow> addr \<Rightarrow> addr \<Rightarrow> copy_state \<Rightarrow> (bool \<times> copy_state) res"
where
  "MojomUnion_DeepCopy disp env in_type_desc in_union_data out_union_data st =
     bindR (memcpy (fst st) out_union_data in_union_data sizeof_MojomUnionLayout) (\<lambda>m.
     bindR (union_size m in_union_data) (\<lambda>usize.
     if usize = 0 then Inr (True, (m, snd st))
     else
     bindR (union_desc env in_type_desc) (\<lambda>desc.
     union_copy_loop disp env desc in_union_data out_union_data (ud_entries desc) (m, snd st))))"

section \<open>Maps\<close>

definition MojomMap_Validate ::
  "mem \<Rightarrow> addr \<Rightarrow> MojomValidationResult res"
where
  "MojomMap_Validate m in_struct =
     bindR (pointer_offset m (in_struct + 8)) (\<lambda>keys_offset.
     bindR (pointer_offset m (in_struct + 16)) (\<lambda>values_offset.
     let keys_arr = in_struct + unat (8 + keys_offset);
         values_arr = in_struct + unat (16 + values_offset) in
     bindR (array_num_elements m keys_arr) (\<lambda>keys_num.
     bindR (array_num_elements m values_arr) (\<lambda>values_num.
     if keys_num \<noteq> values_num then Inr VALIDATION_DIFFERENT_SIZED_ARRAYS_IN_MAP
     else Inr VALIDATION_ERROR_NONE))))"

end
