(* ===== verification/Mojom_TypeDescriptor.thy ===== *)
theory Mojom_TypeDescriptor
  imports Mojom_Struct Mojom_Array Mojom_Union
begin

text \<open>
  \<^verbatim>\<open>type_descriptor.c\<close>: encoding, decoding and validating one pointer or handle, and the dispatchers
  that recurse through structs, arrays, maps and unions. Descriptors may be cyclic, so the
  recursion is bounded by fuel: each dispatch on a nested value spends one unit, and running out
  is \<^term>\<open>OutOfFuel\<close>. How much is enough is a theorem of the validation theory.
\<close>

section \<open>Serialized size\<close>

text \<open>
  The test \<^verbatim>\<open>!nullable || (udata && udata->size != 0)\<close> of the three dispatchers, with C's
  short-circuit evaluation: memory is read only when the union is nullable and not \<^verbatim>\<open>NULL\<close>.
\<close>

definition union_present :: "mem \<Rightarrow> bool \<Rightarrow> addr \<Rightarrow> bool res" where
  "union_present m nullable udata =
     (if \<not> nullable then Inr True
      else if udata = 0 then Inr False
      else bindR (union_size m udata) (\<lambda>s. Inr (s \<noteq> 0)))"

primrec MojomType_DispatchComputeSerializedSize :: "nat \<Rightarrow> size_dispatch" where
  "MojomType_DispatchComputeSerializedSize 0 env m t type_desc nullable data = Inl OutOfFuel"
| "MojomType_DispatchComputeSerializedSize (Suc fuel) env m t type_desc nullable data =
     (let disp = MojomType_DispatchComputeSerializedSize fuel;
         union_case = (\<lambda>acc data_ptr.
           bindR (union_present m nullable data_ptr) (\<lambda>present.
           if present
           then bindR (MojomUnion_ComputeSerializedSize disp env m type_desc data) (\<lambda>s. Inr (acc + s))
           else Inr acc)) in
     case t of
       TYPE_MAP_PTR \<Rightarrow> bindR (pointer_ptr m data) (\<lambda>data_ptr.
         if \<not> nullable \<or> data_ptr \<noteq> 0
         then MojomStruct_ComputeSerializedSize disp env m type_desc data_ptr else Inr 0)
     | TYPE_STRUCT_PTR \<Rightarrow> bindR (pointer_ptr m data) (\<lambda>data_ptr.
         if \<not> nullable \<or> data_ptr \<noteq> 0
         then MojomStruct_ComputeSerializedSize disp env m type_desc data_ptr else Inr 0)
     | TYPE_ARRAY_PTR \<Rightarrow> bindR (pointer_ptr m data) (\<lambda>data_ptr.
         if \<not> nullable \<or> data_ptr \<noteq> 0
         then MojomArray_ComputeSerializedSize disp env m type_desc data_ptr else Inr 0)
     | TYPE_UNION_PTR \<Rightarrow> bindR (pointer_ptr m data) (\<lambda>data_ptr.
         union_case (if data_ptr \<noteq> 0 then of_nat sizeof_MojomUnionLayout else 0) data_ptr)
     | TYPE_UNION \<Rightarrow> union_case 0 data
     | TYPE_HANDLE \<Rightarrow> Inl AssertFailed
     | TYPE_INTERFACE \<Rightarrow> Inl AssertFailed
     | TYPE_POD \<Rightarrow> Inl AssertFailed)"

section \<open>Pointers and handles\<close>

definition encode_pointer :: "mem \<Rightarrow> addr \<Rightarrow> u32 \<Rightarrow> mem res" where
  "encode_pointer m pointer max_offset =
     bindR (pointer_ptr m pointer) (\<lambda>ptr.
     if ptr = 0 then set_pointer_offset m pointer 0
     else assertC (pointer < ptr) (
          assertC (ptr - pointer < unat max_offset) (
          set_pointer_offset m pointer (of_nat (ptr - pointer)))))"

definition decode_pointer :: "mem \<Rightarrow> addr \<Rightarrow> mem res" where
  "decode_pointer m pointer =
     bindR (pointer_offset m pointer) (\<lambda>offset.
     if offset = 0 then set_pointer_ptr m pointer 0
     else set_pointer_ptr m pointer (pointer + unat offset))"

definition encode_handle :: "bool \<Rightarrow> addr \<Rightarrow> encode_state \<Rightarrow> encode_state res" where
  "encode_handle nullable handle st =
     (case st of (m, hb) \<Rightarrow>
     assertC (handle \<noteq> 0) (
     case hb_handles hb of None \<Rightarrow> Inl AssertFailed | Some hs \<Rightarrow>
     bindR (load32 m handle) (\<lambda>h.
     if h = MOJO_HANDLE_INVALID
     then assertC nullable (
          bindR (store32 m handle kEncodedHandleInvalid) (\<lambda>m'. Inr (m', hb)))
     else assertC (hb_num_handles_used hb < hb_num_handles hb) (
          if unat (hb_num_handles_used hb) < length hs
          then bindR (store32 m handle (hb_num_handles_used hb)) (\<lambda>m'.
               Inr (m', hb\<lparr>hb_handles := Some (hs[unat (hb_num_handles_used hb) := h]),
                           hb_num_handles_used := hb_num_handles_used hb + 1\<rparr>))
          else Inl BadAccess))))"

definition decode_handle :: "addr \<Rightarrow> u32 \<Rightarrow> decode_state \<Rightarrow> decode_state res" where
  "decode_handle handle in_num_handles st =
     (case st of (m, inout_handles) \<Rightarrow>
     assertC (handle \<noteq> 0) (
     case inout_handles of None \<Rightarrow> Inl AssertFailed | Some hs \<Rightarrow>
     bindR (load32 m handle) (\<lambda>index.
     if index = kEncodedHandleInvalid
     then bindR (store32 m handle MOJO_HANDLE_INVALID) (\<lambda>m'. Inr (m', inout_handles))
     else assertC (index < in_num_handles) (
          if unat index < length hs
          then bindR (store32 m handle (hs ! unat index)) (\<lambda>m'.
               Inr (m', Some (hs[unat index := MOJO_HANDLE_INVALID])))
          else Inl BadAccess))))"

section \<open>Encoding\<close>

primrec MojomType_DispatchEncodePointersAndHandles :: "nat \<Rightarrow> encode_dispatch" where
  "MojomType_DispatchEncodePointersAndHandles 0
       env t in_type_desc in_nullable inout_buf in_buf_size st = Inl OutOfFuel"
| "MojomType_DispatchEncodePointersAndHandles (Suc fuel)
       env t in_type_desc in_nullable inout_buf in_buf_size st =
     (let disp = MojomType_DispatchEncodePointersAndHandles fuel;
         encoded = (\<lambda>k.
           bindR (pointer_ptr (fst st) inout_buf) (\<lambda>ptr.
           bindR (encode_pointer (fst st) inout_buf in_buf_size) (\<lambda>m. k m ptr)));
         object_case = (\<lambda>encode m inout_object.
           if \<not> in_nullable \<or> inout_object \<noteq> 0
           then encode disp env in_type_desc inout_object
                  (sub_ptrdiff in_buf_size inout_object inout_buf) (m, snd st)
           else Inr (m, snd st));
         union_case = (\<lambda>m union_buf.
           bindR (union_present m in_nullable union_buf) (\<lambda>present.
           if present
           then MojomUnion_EncodePointersAndHandles disp env in_type_desc inout_buf in_buf_size
                  (m, snd st)
           else Inr (m, snd st))) in
     assertC (inout_buf \<noteq> 0) (
     case t of
       TYPE_MAP_PTR \<Rightarrow> encoded (object_case MojomStruct_EncodePointersAndHandles)
     | TYPE_STRUCT_PTR \<Rightarrow> encoded (object_case MojomStruct_EncodePointersAndHandles)
     | TYPE_ARRAY_PTR \<Rightarrow> encoded (object_case MojomArray_EncodePointersAndHandles)
     | TYPE_UNION_PTR \<Rightarrow> encoded union_case
     | TYPE_UNION \<Rightarrow> union_case (fst st) inout_buf
     | TYPE_HANDLE \<Rightarrow> encode_handle in_nullable inout_buf st
     | TYPE_INTERFACE \<Rightarrow> encode_handle in_nullable inout_buf st
     | TYPE_POD \<Rightarrow> Inl AssertFailed))"

section \<open>Decoding\<close>

primrec MojomType_DispatchDecodePointersAndHandles :: "nat \<Rightarrow> decode_dispatch" where
  "MojomType_DispatchDecodePointersAndHandles 0
       env t in_type_desc in_nullable inout_buf in_buf_size in_num_handles st = Inl OutOfFuel"
| "MojomType_DispatchDecodePointersAndHandles (Suc fuel)
       env t in_type_desc in_nullable inout_buf in_buf_size in_num_handles st =
     (let disp = MojomType_DispatchDecodePointersAndHandles fuel;
         decoded = (\<lambda>k.
           bindR (decode_pointer (fst st) inout_buf) (\<lambda>m.
           bindR (pointer_ptr m inout_buf) (\<lambda>ptr.
           assertC (ptr = 0 \<or> ptr < inout_buf + unat in_buf_size) (k m ptr))));
         object_case = (\<lambda>decode m inout_object.
           if \<not> in_nullable \<or> inout_object \<noteq> 0
           then decode disp env in_type_desc inout_object
                  (sub_ptrdiff in_buf_size inout_object inout_buf) in_num_handles (m, snd st)
           else Inr (m, snd st));
         union_case = (\<lambda>m union_buf.
           bindR (union_present m in_nullable union_buf) (\<lambda>present.
           if present
           then MojomUnion_DecodePointersAndHandles disp env in_type_desc inout_buf in_buf_size
                  in_num_handles (m, snd st)
           else Inr (m, snd st))) in
     assertC (inout_buf \<noteq> 0) (
     case t of
       TYPE_MAP_PTR \<Rightarrow> decoded (object_case MojomStruct_DecodePointersAndHandles)
     | TYPE_STRUCT_PTR \<Rightarrow> decoded (object_case MojomStruct_DecodePointersAndHandles)
     | TYPE_ARRAY_PTR \<Rightarrow> decoded (object_case MojomArray_DecodePointersAndHandles)
     | TYPE_UNION_PTR \<Rightarrow> decoded union_case
     | TYPE_UNION \<Rightarrow> union_case (fst st) inout_buf
     | TYPE_HANDLE \<Rightarrow> decode_handle inout_buf in_num_handles st
     | TYPE_INTERFACE \<Rightarrow> decode_handle inout_buf in_num_handles st
     | TYPE_POD \<Rightarrow> Inl AssertFailed))"

section \<open>Validation\<close>

definition validate_pointer :: "mem \<Rightarrow> addr \<Rightarrow> u32 \<Rightarrow> bool \<Rightarrow> MojomValidationContext \<Rightarrow> validation" where
  "validate_pointer m pointer max_offset is_nullable ctx =
     bindR (pointer_offset m pointer) (\<lambda>offset.
     if offset > ucast max_offset \<or> offset > ucast (- 1 :: u32)
     then Inr (VALIDATION_ILLEGAL_POINTER, ctx)
     else if offset \<noteq> 0 \<and> pointer + unat offset < next_pointer ctx
     then Inr (VALIDATION_ILLEGAL_MEMORY_RANGE, ctx)
     else
       let ctx' = (if offset \<noteq> 0 then ctx\<lparr>next_pointer := pointer + unat offset\<rparr> else ctx) in
       if offset AND 7 \<noteq> 0 then Inr (VALIDATION_MISALIGNED_OBJECT, ctx')
       else if \<not> is_nullable \<and> offset = 0 then Inr (VALIDATION_UNEXPECTED_NULL_POINTER, ctx')
       else Inr (VALIDATION_ERROR_NONE, ctx'))"

definition validate_handle ::
  "MojoHandle \<Rightarrow> u32 \<Rightarrow> bool \<Rightarrow> MojomValidationContext \<Rightarrow> MojomValidationResult \<times> MojomValidationContext"
where
  "validate_handle encoded_handle num_handles is_nullable ctx =
     (if \<not> is_nullable \<and> encoded_handle = kEncodedHandleInvalid
      then (VALIDATION_UNEXPECTED_INVALID_HANDLE, ctx)
      else if encoded_handle \<noteq> kEncodedHandleInvalid
      then if encoded_handle \<ge> num_handles \<or> encoded_handle < next_handle_index ctx
           then (VALIDATION_ILLEGAL_HANDLE, ctx)
           else (VALIDATION_ERROR_NONE, ctx\<lparr>next_handle_index := encoded_handle + 1\<rparr>)
      else (VALIDATION_ERROR_NONE, ctx))"

text \<open>\<^verbatim>\<open>in_buf_size - pointer->offset\<close>: computed in 64 bits, truncated to the \<^verbatim>\<open>uint32_t\<close> parameter.\<close>

definition size_minus_offset :: "u32 \<Rightarrow> u64 \<Rightarrow> u32" where
  "size_minus_offset in_buf_size offset = ucast ((ucast in_buf_size :: u64) - offset)"

primrec MojomType_DispatchValidate :: "nat \<Rightarrow> validate_dispatch" where
  "MojomType_DispatchValidate 0
       env m t in_type_desc in_nullable in_buf in_buf_size in_num_handles ctx = Inl OutOfFuel"
| "MojomType_DispatchValidate (Suc fuel)
       env m t in_type_desc in_nullable in_buf in_buf_size in_num_handles ctx =
     (let disp = MojomType_DispatchValidate fuel;
         pointed = (\<lambda>k.
           bindR (validate_pointer m in_buf in_buf_size in_nullable ctx) (\<lambda>(result, ctx').
           bindR (pointer_offset m in_buf) (\<lambda>offset.
           if result \<noteq> VALIDATION_ERROR_NONE \<or> offset = 0 then Inr (result, ctx')
           else k offset ctx')));
         union_case = (\<lambda>union_buf ctx'.
           bindR (union_size m union_buf) (\<lambda>usize.
           if usize = 0
           then Inr (if in_nullable then VALIDATION_ERROR_NONE
                     else VALIDATION_UNEXPECTED_NULL_UNION, ctx')
           else MojomUnion_Validate disp env m in_type_desc in_nullable union_buf
                  (sub_ptrdiff in_buf_size union_buf in_buf) in_num_handles ctx')) in
     assertC (in_buf \<noteq> 0) (
     case t of
       TYPE_MAP_PTR \<Rightarrow> pointed (\<lambda>offset ctx'.
         bindR (MojomStruct_Validate disp env m in_type_desc (in_buf + unat offset)
             (size_minus_offset in_buf_size offset) in_num_handles ctx') (\<lambda>(result, ctx'').
         if result = VALIDATION_ERROR_NONE
         then bindR (MojomMap_Validate m (in_buf + unat offset)) (\<lambda>r. Inr (r, ctx''))
         else Inr (result, ctx'')))
     | TYPE_STRUCT_PTR \<Rightarrow> pointed (\<lambda>offset ctx'.
         MojomStruct_Validate disp env m in_type_desc (in_buf + unat offset)
             (size_minus_offset in_buf_size offset) in_num_handles ctx')
     | TYPE_ARRAY_PTR \<Rightarrow> pointed (\<lambda>offset ctx'.
         MojomArray_Validate disp env m in_type_desc (in_buf + unat offset)
             (size_minus_offset in_buf_size offset) in_num_handles ctx')
     | TYPE_UNION_PTR \<Rightarrow> pointed (\<lambda>offset ctx'.
         union_case (in_buf + unat offset)
           (ctx'\<lparr>next_pointer := next_pointer ctx' + sizeof_MojomUnionLayout\<rparr>))
     | TYPE_UNION \<Rightarrow> union_case in_buf ctx
     | TYPE_HANDLE \<Rightarrow>
         bindR (load32 m in_buf) (\<lambda>h. Inr (validate_handle h in_num_handles in_nullable ctx))
     | TYPE_INTERFACE \<Rightarrow>
         bindR (load32 m in_buf) (\<lambda>h. Inr (validate_handle h in_num_handles in_nullable ctx))
     | TYPE_POD \<Rightarrow> Inr (VALIDATION_ERROR_NONE, ctx)))"

section \<open>Deep copy\<close>

primrec MojomType_DispatchDeepCopy :: "nat \<Rightarrow> copy_dispatch" where
  "MojomType_DispatchDeepCopy 0 env t in_type_desc in_data out_data st = Inl OutOfFuel"
| "MojomType_DispatchDeepCopy (Suc fuel) env t in_type_desc in_data out_data st =
     (let disp = MojomType_DispatchDeepCopy fuel;
         copied = (\<lambda>k.
           bindR (pointer_ptr (fst st) in_data) (\<lambda>ptr.
           if ptr = 0
           then bindR (set_pointer_ptr (fst st) out_data 0) (\<lambda>m. Inr (True, (m, snd st)))
           else k ptr)) in
     assertC (in_data \<noteq> 0) (
     case t of
       TYPE_MAP_PTR \<Rightarrow> copied (\<lambda>ptr. MojomStruct_DeepCopy disp env in_type_desc ptr out_data st)
     | TYPE_STRUCT_PTR \<Rightarrow> copied (\<lambda>ptr. MojomStruct_DeepCopy disp env in_type_desc ptr out_data st)
     | TYPE_ARRAY_PTR \<Rightarrow> copied (\<lambda>ptr. MojomArray_DeepCopy disp env in_type_desc ptr out_data st)
     | TYPE_UNION_PTR \<Rightarrow> copied (\<lambda>ptr.
         case MojomBuffer_Allocate (snd st) (of_nat sizeof_MojomUnionLayout) of
           (buffer, out_union_data) \<Rightarrow>
             if out_union_data = 0 then Inr (False, (fst st, buffer))
             else bindR (set_pointer_ptr (fst st) out_data out_union_data) (\<lambda>m.
                  MojomUnion_DeepCopy disp env in_type_desc ptr out_union_data (m, buffer)))
     | TYPE_UNION \<Rightarrow> MojomUnion_DeepCopy disp env in_type_desc in_data out_data st
     | TYPE_HANDLE \<Rightarrow> Inr (True, st)
     | TYPE_INTERFACE \<Rightarrow> Inr (True, st)
     | TYPE_POD \<Rightarrow> Inr (True, st)))"

end
