(* ===== verification/Mojom_WellFormed.thy ===== *)
theory Mojom_WellFormed
  imports Mojom_TypeDescriptor
begin

text \<open>
  What the bindings generator guarantees of the descriptors it emits, as documented in
  \<^verbatim>\<open>internal/type_descriptor.h\<close>: every reference leads to a descriptor of the right type, version
  tables increase, every entry lies inside the struct in all versions that have it, entries do not
  overlap, the element size of an array is that of its element type, a map is a struct of two
  arrays, and unions nest only through pointers.
\<close>

definition is_map_desc :: "MojomTypeDescriptorStruct \<Rightarrow> bool" where
  "is_map_desc d \<longleftrightarrow>
     (case sd_entries d of
        [k, v] \<Rightarrow> se_elem_type k = TYPE_ARRAY_PTR \<and> se_offset k = 0 \<and> se_min_version k = 0 \<and>
                  se_elem_type v = TYPE_ARRAY_PTR \<and> se_offset v = 8 \<and> se_min_version v = 0
      | _ \<Rightarrow> False)"

definition wf_ref :: "tenv \<Rightarrow> MojomTypeDescriptorType \<Rightarrow> descref \<Rightarrow> bool" where
  "wf_ref env t r \<longleftrightarrow>
     (case t of
        TYPE_STRUCT_PTR \<Rightarrow> (case env r of Some (DescStruct _) \<Rightarrow> True | _ \<Rightarrow> False)
      | TYPE_MAP_PTR \<Rightarrow> (case env r of Some (DescStruct d) \<Rightarrow> is_map_desc d | _ \<Rightarrow> False)
      | TYPE_ARRAY_PTR \<Rightarrow> (case env r of Some (DescArray _) \<Rightarrow> True | _ \<Rightarrow> False)
      | TYPE_UNION_PTR \<Rightarrow> (case env r of Some (DescUnion _) \<Rightarrow> True | _ \<Rightarrow> False)
      | TYPE_UNION \<Rightarrow> (case env r of Some (DescUnion _) \<Rightarrow> True | _ \<Rightarrow> False)
      | _ \<Rightarrow> True)"

definition entry_end :: "MojomTypeDescriptorStructEntry \<Rightarrow> nat" where
  "entry_end e = unat (se_offset e) + elem_size (se_elem_type e)"

definition entry_fits ::
  "MojomTypeDescriptorStructVersion list \<Rightarrow> MojomTypeDescriptorStructEntry \<Rightarrow> bool"
where
  "entry_fits versions e \<longleftrightarrow>
     (\<forall>v \<in> set versions. se_min_version e \<le> sv_version v \<longrightarrow> 8 + entry_end e \<le> unat (sv_num_bytes v)) \<and>
     (se_min_version e \<in> sv_version ` set versions \<or> se_min_version e \<le> sv_version (hd versions))"

definition entries_apart ::
  "MojomTypeDescriptorStructEntry \<Rightarrow> MojomTypeDescriptorStructEntry \<Rightarrow> bool"
where
  "entries_apart e f \<longleftrightarrow> entry_end e \<le> unat (se_offset f) \<or> entry_end f \<le> unat (se_offset e)"

definition wf_struct_desc :: "tenv \<Rightarrow> MojomTypeDescriptorStruct \<Rightarrow> bool" where
  "wf_struct_desc env d \<longleftrightarrow>
     wf_version_table (sd_versions d) \<and>
     (\<forall>v \<in> set (sd_versions d). 8 \<le> unat (sv_num_bytes v)) \<and>
     sorted_wrt entries_apart (sd_entries d) \<and>
     (\<forall>e \<in> set (sd_entries d). entry_fits (sd_versions d) e \<and>
        wf_ref env (se_elem_type e) (se_elem_descriptor e) \<and>
        se_elem_type e \<noteq> TYPE_UNION_PTR \<and> se_elem_type e \<noteq> TYPE_POD)"

definition wf_union_desc :: "tenv \<Rightarrow> MojomTypeDescriptorUnion \<Rightarrow> bool" where
  "wf_union_desc env d \<longleftrightarrow>
     (\<forall>e \<in> set (ud_entries d). wf_ref env (ue_elem_type e) (ue_elem_descriptor e) \<and>
        ue_elem_type e \<noteq> TYPE_UNION)"

definition wf_array_desc :: "tenv \<Rightarrow> MojomTypeDescriptorArray \<Rightarrow> bool" where
  "wf_array_desc env d \<longleftrightarrow>
     wf_ref env (ad_elem_type d) (ad_elem_descriptor d) \<and> ad_elem_type d \<noteq> TYPE_UNION_PTR \<and>
     (ad_elem_type d \<noteq> TYPE_POD \<longrightarrow>
        unat (ad_elem_num_bits d) = 8 * elem_size (ad_elem_type d))"

definition wf_env :: "tenv \<Rightarrow> bool" where
  "wf_env env \<longleftrightarrow> env 0 = None \<and>
     (\<forall>r d. env r = Some d \<longrightarrow>
        (case d of DescStruct s \<Rightarrow> wf_struct_desc env s
         | DescUnion u \<Rightarrow> wf_union_desc env u
         | DescArray a \<Rightarrow> wf_array_desc env a))"

text \<open>No union has a union among its fields, so \<^verbatim>\<open>TYPE_UNION_PTR\<close> does not occur.\<close>

definition flat_unions :: "tenv \<Rightarrow> bool" where
  "flat_unions env \<longleftrightarrow>
     (\<forall>r d. env r = Some (DescUnion d) \<longrightarrow>
        (\<forall>e \<in> set (ud_entries d). ue_elem_type e \<noteq> TYPE_UNION_PTR))"

lemma wf_envD:
  assumes "wf_env env"
  shows "env r = Some (DescStruct s) \<Longrightarrow> wf_struct_desc env s"
    and "env r = Some (DescUnion u) \<Longrightarrow> wf_union_desc env u"
    and "env r = Some (DescArray a) \<Longrightarrow> wf_array_desc env a"
  using assms by (force simp: wf_env_def split: type_desc.splits)+

lemma wf_env_nonnull: "wf_env env \<Longrightarrow> env r = Some d \<Longrightarrow> r \<noteq> 0"
  by (metis option.distinct(1) wf_env_def)

lemma wf_ref_simps:
  "wf_ref env TYPE_STRUCT_PTR r \<longleftrightarrow> (\<exists>d. env r = Some (DescStruct d))"
  "wf_ref env TYPE_MAP_PTR r \<longleftrightarrow> (\<exists>d. env r = Some (DescStruct d) \<and> is_map_desc d)"
  "wf_ref env TYPE_ARRAY_PTR r \<longleftrightarrow> (\<exists>d. env r = Some (DescArray d))"
  "wf_ref env TYPE_UNION_PTR r \<longleftrightarrow> (\<exists>d. env r = Some (DescUnion d))"
  "wf_ref env TYPE_UNION r \<longleftrightarrow> (\<exists>d. env r = Some (DescUnion d))"
  "wf_ref env TYPE_HANDLE r" "wf_ref env TYPE_INTERFACE r" "wf_ref env TYPE_POD r"
  by (auto simp: wf_ref_def split: option.splits type_desc.splits)

text \<open>An entry the struct's version has lies inside the \<^verbatim>\<open>num_bytes\<close> the version check accepted.\<close>

lemma active_entry_fits:
  assumes "wf_version_table versions" and "entry_fits versions e"
    and "is_valid_size_for_version num_bytes version versions (of_nat (length versions)) = Inr True"
    and "\<not> version < se_min_version e"
  shows "8 + entry_end e \<le> unat num_bytes"
proof -
  obtain j where j: "j < length versions" "j = 0 \<or> sv_version (versions ! j) \<le> version"
    "\<And>k. j < k \<Longrightarrow> k < length versions \<Longrightarrow> version < sv_version (versions ! k)"
    "is_valid_size_for_version num_bytes version versions (of_nat (length versions)) =
       Inr (if version = sv_version (versions ! j) then num_bytes = sv_num_bytes (versions ! j)
            else num_bytes \<ge> sv_num_bytes (versions ! j))"
    using is_valid_size_for_version_eq [OF assms(1), of version] by metis
  have le: "sv_version (versions ! k) \<le> sv_version (versions ! j)" if "k \<le> j" for k
    using wf_version_table_mono [OF assms(1) _ j(1), of k] that by (cases "k = j") auto
  have "se_min_version e \<le> sv_version (versions ! j)"
  proof (cases "se_min_version e \<in> sv_version ` set versions")
    case True
    then obtain k where k: "k < length versions" "se_min_version e = sv_version (versions ! k)"
      by (auto simp: in_set_conv_nth)
    with j(3) assms(4) have "k \<le> j" by (metis leI)
    with le k(2) show ?thesis by simp
  next
    case False
    with assms(2) have "se_min_version e \<le> sv_version (hd versions)" by (simp add: entry_fits_def)
    with le [of 0] j(1) show ?thesis by (metis hd_conv_nth le0 length_greater_0_conv not_less0 order_trans linorder_neqE_nat)
  qed
  with assms(2) j(1) have "8 + entry_end e \<le> unat (sv_num_bytes (versions ! j))"
    by (simp add: entry_fits_def)
  also from j(4) assms(3) have "\<dots> \<le> unat num_bytes"
    by (auto simp: word_le_nat_alt split: if_splits)
  finally show ?thesis .
qed

lemma valid_size_header:
  assumes "wf_version_table versions" and "\<forall>v \<in> set versions. 8 \<le> unat (sv_num_bytes v)"
    and "is_valid_size_for_version num_bytes version versions (of_nat (length versions)) = Inr True"
  shows "8 \<le> unat num_bytes"
proof -
  obtain j where "j < length versions"
    "is_valid_size_for_version num_bytes version versions (of_nat (length versions)) =
       Inr (if version = sv_version (versions ! j) then num_bytes = sv_num_bytes (versions ! j)
            else num_bytes \<ge> sv_num_bytes (versions ! j))"
    using is_valid_size_for_version_eq [OF assms(1), of version] by metis
  with assms(2,3) have "8 \<le> unat (sv_num_bytes (versions ! j))" "sv_num_bytes (versions ! j) \<le> num_bytes"
    by (auto split: if_splits)
  then show ?thesis by (simp add: word_le_nat_alt)
qed

lemma is_valid_size_total:
  "wf_version_table versions \<Longrightarrow>
   \<exists>ok. is_valid_size_for_version n v versions (of_nat (length versions)) = Inr ok"
  by (metis is_valid_size_for_version_eq)

end
