(* ===== verification/Mojom_Validation.thy ===== *)
theory Mojom_Validation
  imports Mojom_WellFormed
begin

text \<open>
  Validation of untrusted encoded messages: on every input it returns a verdict without reading
  outside the buffer (given descriptors without nested unions), and while it accepts, the context
  only moves forward. The laws a dispatcher promises to the struct, array and union validators
  are a locale; each validator is proved against it once, and the real dispatcher is an
  interpretation for every fuel.
\<close>

section \<open>Single pointers and handles\<close>

definition ctx_le :: "MojomValidationContext \<Rightarrow> MojomValidationContext \<Rightarrow> bool" where
  "ctx_le c d \<longleftrightarrow> next_pointer c \<le> next_pointer d \<and> next_handle_index c \<le> next_handle_index d"

lemma ctx_le_refl [simp]: "ctx_le c c"
  by (simp add: ctx_le_def)

lemma ctx_le_trans [trans]: "ctx_le a b \<Longrightarrow> ctx_le b c \<Longrightarrow> ctx_le a c"
  by (auto simp: ctx_le_def)

text \<open>What is left of a pointer that validates: null, or inside the buffer and not before the
  end of what is claimed already.\<close>

lemma validate_pointer_NONE:
  assumes "validate_pointer m a sz nl ctx = Inr (VALIDATION_ERROR_NONE, ctx')"
  shows "mapped m a 8" "unat (peek64 m a) \<le> unat sz" "8 dvd unat (peek64 m a)"
    and "peek64 m a = 0 \<Longrightarrow> nl \<and> ctx' = ctx"
    and "peek64 m a \<noteq> 0 \<Longrightarrow> next_pointer ctx \<le> a + unat (peek64 m a) \<and>
           ctx' = ctx\<lparr>next_pointer := a + unat (peek64 m a)\<rparr>"
  using assms
  by (auto simp: validate_pointer_def pointer_offset_def load64_eq Let_def word_nat and_7_iff_dvd
      split: if_splits)

lemma validate_pointer_total:
  "mapped m a 8 \<Longrightarrow> \<exists>r ctx'. validate_pointer m a sz nl ctx = Inr (r, ctx')"
  by (simp add: validate_pointer_def pointer_offset_def load64_eq Let_def)

lemma validate_handle_NONE:
  assumes "validate_handle h nh nl ctx = (VALIDATION_ERROR_NONE, ctx')"
  shows "h = kEncodedHandleInvalid \<Longrightarrow> nl \<and> ctx' = ctx"
    and "h \<noteq> kEncodedHandleInvalid \<Longrightarrow> h < nh \<and> next_handle_index ctx \<le> h \<and>
           ctx' = ctx\<lparr>next_handle_index := h + 1\<rparr> \<and> unat (h + 1) = unat h + 1"
proof -
  show "h = kEncodedHandleInvalid \<Longrightarrow> nl \<and> ctx' = ctx"
    using assms by (auto simp: validate_handle_def split: if_splits)
  assume "h \<noteq> kEncodedHandleInvalid"
  with assms have "h < nh" "next_handle_index ctx \<le> h" "ctx' = ctx\<lparr>next_handle_index := h + 1\<rparr>"
    by (auto simp: validate_handle_def split: if_splits)
  moreover from this have "unat (h + 1) = unat h + 1"
    using unat_u32_bound [of nh] by (simp add: unat_plus_if_size word_size word_less_nat_alt)
  ultimately show "h < nh \<and> next_handle_index ctx \<le> h \<and>
      ctx' = ctx\<lparr>next_handle_index := h + 1\<rparr> \<and> unat (h + 1) = unat h + 1" by simp
qed

lemma validate_handle_ctx_le:
  "validate_handle h nh nl ctx = (VALIDATION_ERROR_NONE, ctx') \<Longrightarrow> ctx_le ctx ctx'"
  using validate_handle_NONE [of h nh nl ctx ctx']
  by (cases "h = kEncodedHandleInvalid") (auto simp: ctx_le_def word_le_nat_alt)

lemma unat_size_minus_offset:
  assumes "unat off \<le> unat sz"
  shows "unat (size_minus_offset sz off) = unat sz - unat off"
proof -
  from assms have "unat ((ucast sz :: u64) - off) = unat sz - unat off"
    by (simp add: unat_minus_le)
  moreover have "unat (ucast w :: u32) = unat w mod 4294967296" for w :: u64
    by (simp add: unsigned_ucast_eq take_bit_eq_mod)
  ultimately show ?thesis
    using unat_u32_bound [of sz] by (simp add: size_minus_offset_def)
qed

section \<open>Array headers and element addresses\<close>

lemma array_index_by_type_eq:
  "t \<noteq> TYPE_POD \<Longrightarrow> t \<noteq> TYPE_UNION_PTR \<Longrightarrow>
   array_index_by_type p t i = Inr (p + 8 + elem_size t * i)"
  by (cases t) (simp_all add: array_index_by_type_def MOJOM_ARRAY_INDEX_def)

lemma validate_array_header_total:
  "mapped m p (unat sz) \<Longrightarrow> \<exists>r. validate_array_header d m p sz = Inr r"
  using mapped_sub [of m p "unat sz" p 4] mapped_sub [of m p "unat sz" "p + 4" 4]
  by (auto simp: validate_array_header_def layout_defs load32_eq)

lemma bits_to_bytes_elems:
  assumes "unat bits = 8 * k" and "k \<le> 16"
  shows "unat (bits_to_bytes (ucast (bits :: u32) * ucast (num :: u32))) = k * unat num"
proof -
  have le: "k * unat num \<le> 16 * 4294967295"
    using assms(2) unat_u32_bound [of num] by (intro mult_le_mono) auto
  have "unat (ucast bits * ucast num :: u64) = 8 * (k * unat num)"
    using le assms(1) by (simp add: unat_word_ariths(2) mult.assoc)
  then have "unat ((ucast bits * ucast num :: u64) + 7) = 8 * (k * unat num) + 7"
    using le by (simp add: unat_plus_if_size word_size)
  then show ?thesis by (simp add: bits_to_bytes_def unat_div)
qed

lemma elem_size_le_16: "elem_size t \<le> 16"
  by (cases t) simp_all

lemma validate_array_header_NONE:
  assumes "validate_array_header d m p sz = Inr VALIDATION_ERROR_NONE"
  shows "mapped m p 8" and "8 \<le> unat (peek32 m p)" and "unat (peek32 m p) \<le> unat sz"
    and "wf_array_desc env d \<Longrightarrow> ad_elem_type d \<noteq> TYPE_POD \<Longrightarrow>
      8 + elem_size (ad_elem_type d) * unat (peek32 m (p + 4)) \<le> unat (peek32 m p)"
proof -
  from assms have hdr: "mapped m p 4" "mapped m (p + 4) 4"
    and size: "8 \<le> unat (peek32 m p)" "unat (peek32 m p) \<le> unat sz"
    and elems: "(8 :: u64) + bits_to_bytes (ucast (ad_elem_num_bits d) * ucast (peek32 m (p + 4))) \<le>
      ucast (peek32 m p)"
    by (auto simp: validate_array_header_def layout_defs load32_eq word_le_nat_alt not_less
        split: if_splits)
  show "8 \<le> unat (peek32 m p)" "unat (peek32 m p) \<le> unat sz" by fact+
  show "mapped m p 8" using hdr by (auto simp: mapped_iff_range)
  assume "wf_array_desc env d" "ad_elem_type d \<noteq> TYPE_POD"
  then have "unat (ad_elem_num_bits d) = 8 * elem_size (ad_elem_type d)"
    by (simp add: wf_array_desc_def)
  note bytes = bits_to_bytes_elems [OF this elem_size_le_16, of "peek32 m (p + 4)"]
  have "elem_size (ad_elem_type d) * unat (peek32 m (p + 4)) \<le> 16 * 4294967295"
    using elem_size_le_16 unat_u32_bound [of "peek32 m (p + 4)"] by (intro mult_le_mono) auto
  with bytes elems show "8 + elem_size (ad_elem_type d) * unat (peek32 m (p + 4)) \<le> unat (peek32 m p)"
    by (simp add: word_le_nat_alt unat_plus_if_size word_size)
qed

text \<open>One round of the element loop that accepts.\<close>

lemma array_validate_loop_NONE:
  assumes "array_validate_loop disp env m d p sz nh i ctx = Inr (VALIDATION_ERROR_NONE, ctx')"
  obtains "mapped m (p + 4) 4" and "unat (peek32 m (p + 4)) \<le> i" and "ctx' = ctx"
  | a c where "mapped m (p + 4) 4" and "i < unat (peek32 m (p + 4))"
      and "array_index_by_type p (ad_elem_type d) i = Inr a"
      and "disp env m (ad_elem_type d) (ad_elem_descriptor d) (ad_nullable d) a
             (sz - of_nat (a - p)) nh ctx = Inr (VALIDATION_ERROR_NONE, c)"
      and "array_validate_loop disp env m d p sz nh (Suc i) c = Inr (VALIDATION_ERROR_NONE, ctx')"
  using assms
  by (subst (asm) array_validate_loop.simps)
    (auto simp: res_simps layout_defs load32_eq split: if_splits)

text \<open>What acceptance of a struct, an array or a union says of its header.\<close>

lemma MojomStruct_Validate_NONE:
  assumes "MojomStruct_Validate disp env m td p sz nh ctx = Inr (VALIDATION_ERROR_NONE, ctx')"
  obtains d where "td \<noteq> 0" and "p \<noteq> 0" and "env td = Some (DescStruct d)" and "8 \<le> unat sz"
    and "mapped m p 4" and "mapped m (p + 4) 4"
    and "unat (peek32 m p) \<le> unat sz" and "8 dvd unat (peek32 m p)"
    and "is_valid_size_for_version (peek32 m p) (peek32 m (p + 4)) (sd_versions d)
           (of_nat (length (sd_versions d))) = Inr True"
    and "struct_validate_loop disp env m p sz nh (sd_entries d)
           (ctx\<lparr>next_pointer := p + unat (peek32 m p)\<rparr>) = Inr (VALIDATION_ERROR_NONE, ctx')"
  using assms
  by (auto simp: MojomStruct_Validate_def res_simps layout_defs load32_eq word_le_nat_alt not_less
      and_7_iff_dvd split: if_splits)

lemma MojomArray_Validate_NONE:
  assumes "MojomArray_Validate disp env m td p sz nh ctx = Inr (VALIDATION_ERROR_NONE, ctx')"
  obtains d where "td \<noteq> 0" and "p \<noteq> 0" and "env td = Some (DescArray d)"
    and "validate_array_header d m p sz = Inr VALIDATION_ERROR_NONE"
    and "ad_elem_type d = TYPE_POD \<Longrightarrow> ctx' = ctx\<lparr>next_pointer := p + unat (peek32 m p)\<rparr>"
    and "ad_elem_type d \<noteq> TYPE_POD \<Longrightarrow>
           array_validate_loop disp env m d p sz nh 0 (ctx\<lparr>next_pointer := p + unat (peek32 m p)\<rparr>) =
             Inr (VALIDATION_ERROR_NONE, ctx')"
  using assms
  by (auto simp: MojomArray_Validate_def res_simps layout_defs load32_eq Let_def split: if_splits)

section \<open>The dispatcher's contract\<close>

text \<open>A field that lies inside \<open>sz\<close> mapped bytes and has the descriptor its type needs.\<close>

definition slot_ok :: "tenv \<Rightarrow> mem \<Rightarrow> MojomTypeDescriptorType \<Rightarrow> descref \<Rightarrow> addr \<Rightarrow> nat \<Rightarrow> bool" where
  "slot_ok env m t r a sz \<longleftrightarrow>
     a \<noteq> 0 \<and> wf_ref env t r \<and> t \<noteq> TYPE_UNION_PTR \<and> elem_size t \<le> sz \<and> mapped m a sz"

locale validate_dispatcher =
  fixes disp :: validate_dispatch and n :: nat
  assumes total: "wf_env env \<Longrightarrow> flat_unions env \<Longrightarrow> slot_ok env m t r a (unat sz) \<Longrightarrow>
      unat sz < 8 * n \<Longrightarrow> \<exists>res. disp env m t r nl a sz nh ctx = Inr res"
    and forward: "disp env m t r nl a sz nh ctx = Inr (VALIDATION_ERROR_NONE, ctx') \<Longrightarrow>
      ctx_le ctx ctx'"
    and array_mapped:
      "disp env m TYPE_ARRAY_PTR r nl a sz nh ctx = Inr (VALIDATION_ERROR_NONE, ctx') \<Longrightarrow>
       mapped m a 8 \<and> mapped m (a + unat (peek64 m a)) 8 \<and> unat (peek64 m a) \<le> unat sz"
begin

lemma struct_loop_total:
  assumes "wf_env env" "flat_unions env" "p \<noteq> 0" "mapped m p (unat sz)" "8 \<le> unat sz"
    and "unat sz < 8 * Suc n"
    and "\<forall>e \<in> set es. wf_ref env (se_elem_type e) (se_elem_descriptor e) \<and>
        se_elem_type e \<noteq> TYPE_UNION_PTR \<and>
        (\<not> peek32 m (p + 4) < se_min_version e \<longrightarrow> 8 + entry_end e \<le> unat sz)"
  shows "\<exists>res. struct_validate_loop disp env m p sz nh es ctx = Inr res"
  using assms(7)
proof (induction es arbitrary: ctx)
  case (Cons e es)
  have ver: "struct_version m p = Inr (peek32 m (p + 4))"
    using assms(4,5) by (auto simp: layout_defs load32_eq elim: mapped_sub)
  show ?case
  proof (cases "peek32 m (p + 4) < se_min_version e")
    case True
    with ver Cons show ?thesis by simp
  next
    case False
    let ?a = "p + 8 + unat (se_offset e)"
    let ?sz = "sub_ptrdiff sz ?a p"
    from False Cons.prems have fits: "8 + unat (se_offset e) + elem_size (se_elem_type e) \<le> unat sz"
      by (simp add: entry_end_def)
    then have sz: "unat ?sz = unat sz - (8 + unat (se_offset e))"
      by (simp add: unat_sub_ptrdiff)
    have "slot_ok env m (se_elem_type e) (se_elem_descriptor e) ?a (unat ?sz)"
      using fits Cons.prems assms(3) mapped_sub [OF assms(4), of ?a "unat ?sz"]
      by (auto simp: slot_ok_def sz)
    moreover have "unat ?sz < 8 * n" using sz assms(5,6) by simp
    ultimately obtain r c where "disp env m (se_elem_type e) (se_elem_descriptor e) (se_nullable e)
        ?a ?sz nh ctx = Inr (r, c)"
      using total [OF assms(1,2)] by fastforce
    with ver False Cons show ?thesis by (simp add: Let_def)
  qed
qed simp

lemma struct_total:
  assumes "wf_env env" "flat_unions env" "env td = Some (DescStruct d)"
    and "p \<noteq> 0" "mapped m p (unat sz)" "unat sz < 8 * Suc n"
  shows "\<exists>res. MojomStruct_Validate disp env m td p sz nh ctx = Inr res"
proof (cases "8 \<le> unat sz")
  case True
  note wf = wf_envD(1) [OF assms(1,3), unfolded wf_struct_desc_def]
  have hdr: "struct_num_bytes m p = Inr (peek32 m p)" "struct_version m p = Inr (peek32 m (p + 4))"
    using assms(5) True by (auto simp: layout_defs load32_eq elim: mapped_sub)
  obtain ok where ok: "is_valid_size_for_version (peek32 m p) (peek32 m (p + 4)) (sd_versions d)
      (of_nat (length (sd_versions d))) = Inr ok"
    using is_valid_size_total wf by blast
  have "\<exists>res. struct_validate_loop disp env m p sz nh (sd_entries d) c = Inr res"
    if "ok" "peek32 m p \<le> sz" for c
  proof (rule struct_loop_total [OF assms(1,2,4,5) True assms(6)], intro ballI conjI impI)
    fix e assume e: "e \<in> set (sd_entries d)"
    with wf show "wf_ref env (se_elem_type e) (se_elem_descriptor e)"
      "se_elem_type e \<noteq> TYPE_UNION_PTR" by auto
    assume "\<not> peek32 m (p + 4) < se_min_version e"
    with e wf ok that(1) have "8 + entry_end e \<le> unat (peek32 m p)"
      by (intro active_entry_fits [of "sd_versions d" e _ "peek32 m (p + 4)"]) auto
    with that(2) show "8 + entry_end e \<le> unat sz" by (simp add: word_le_nat_alt)
  qed
  with assms(1,3,4) True hdr ok show ?thesis
    by (auto simp: MojomStruct_Validate_def struct_desc_def wf_env_nonnull not_less)
next
  case False
  with assms(1,3,4) show ?thesis
    by (auto simp: MojomStruct_Validate_def wf_env_nonnull)
qed

lemma array_loop_total:
  assumes "wf_env env" "flat_unions env" "p \<noteq> 0" "mapped m p (unat sz)"
    and "unat sz < 8 * Suc n" and "wf_array_desc env d" and "ad_elem_type d \<noteq> TYPE_POD"
    and "8 + elem_size (ad_elem_type d) * unat (peek32 m (p + 4)) \<le> unat sz"
  shows "\<exists>res. array_validate_loop disp env m d p sz nh i ctx = Inr res"
proof (induction "unat (peek32 m (p + 4)) - i" arbitrary: i ctx rule: less_induct)
  case less
  let ?k = "elem_size (ad_elem_type d)" and ?num = "peek32 m (p + 4)"
  have num: "array_num_elements m p = Inr ?num"
    using assms(4,8) by (auto simp: layout_defs load32_eq elim: mapped_sub)
  show ?case
  proof (cases "i < unat ?num")
    case True
    let ?a = "p + 8 + ?k * i" and ?sz = "sz - of_nat (8 + ?k * i)"
    have "?k * i + ?k \<le> ?k * unat ?num"
      using True by (metis Suc_leI mult_Suc_right add.commute mult_le_mono2)
    with assms(8) have room: "8 + ?k * i + ?k \<le> unat sz" by simp
    then have sz: "unat ?sz = unat sz - (8 + ?k * i)"
      by (intro unat_minus_of_nat) simp
    have "slot_ok env m (ad_elem_type d) (ad_elem_descriptor d) ?a (unat ?sz)"
      unfolding slot_ok_def sz
      using room assms(3,6) mapped_sub [OF assms(4), of ?a "unat sz - (8 + ?k * i)"]
      by (auto simp: wf_array_desc_def)
    moreover have "unat ?sz < 8 * n" using sz room assms(5) by simp
    ultimately obtain res where "disp env m (ad_elem_type d) (ad_elem_descriptor d) (ad_nullable d)
        ?a ?sz nh ctx = Inr res"
      using total [OF assms(1,2)] by blast
    moreover have "array_index_by_type p (ad_elem_type d) i = Inr ?a"
      using assms(6,7) by (intro array_index_by_type_eq) (auto simp: wf_array_desc_def)
    ultimately show ?thesis
      using num True less [of "Suc i" "snd res"]
      by (subst array_validate_loop.simps) (auto simp: add.assoc)
  next
    case False
    with num show ?thesis by (subst array_validate_loop.simps) simp
  qed
qed

lemma array_total:
  assumes "wf_env env" "flat_unions env" "env td = Some (DescArray d)"
    and "p \<noteq> 0" "mapped m p (unat sz)" "unat sz < 8 * Suc n"
  shows "\<exists>res. MojomArray_Validate disp env m td p sz nh ctx = Inr res"
proof -
  obtain r where r: "validate_array_header d m p sz = Inr r"
    using validate_array_header_total [OF assms(5)] by blast
  have "\<exists>res. array_validate_loop disp env m d p sz nh 0 c = Inr res"
    if "r = VALIDATION_ERROR_NONE" "ad_elem_type d \<noteq> TYPE_POD" for c
    using array_loop_total [OF assms(1,2,4,5,6) wf_envD(3) [OF assms(1,3)] that(2)]
      validate_array_header_NONE [OF r [unfolded that(1)]] wf_envD(3) [OF assms(1,3)] that(2)
    by (meson le_trans)
  moreover have "array_num_bytes m p = Inr (peek32 m p)" if "r = VALIDATION_ERROR_NONE"
    using validate_array_header_NONE(1) [OF r [unfolded that]] mapped_sub [of m p 8 p 4]
    by (simp add: layout_defs load32_eq)
  ultimately show ?thesis
    using assms(1,3,4) r
    by (auto simp: MojomArray_Validate_def array_desc_def wf_env_nonnull Let_def)
qed

lemma union_total:
  assumes "wf_env env" "flat_unions env" "env td = Some (DescUnion d)"
    and "mapped m u (unat sz)" "16 \<le> unat sz" "unat sz < 8 * Suc n"
  shows "\<exists>res. MojomUnion_Validate disp env m td nl u sz nh ctx = Inr res"
proof -
  have hdr: "union_tag m u = Inr (peek32 m (u + 4))" "union_size m u = Inr (peek32 m u)"
    using assms(4,5) by (auto simp: layout_defs load32_eq elim: mapped_sub)
  have sz: "unat (sz - 8) = unat sz - 8"
    using unat_minus_of_nat [of 8 sz] assms(5) by simp
  have ok: "\<exists>res. disp env m (ue_elem_type e) (ue_elem_descriptor e) (ue_nullable e)
      (union_data u) (sub_ptrdiff sz (union_data u) u) nh ctx = Inr res"
    if "e \<in> set (ud_entries d)" for e
  proof (rule total [OF assms(1,2)])
    have "wf_ref env (ue_elem_type e) (ue_elem_descriptor e)" "ue_elem_type e \<noteq> TYPE_UNION"
      "ue_elem_type e \<noteq> TYPE_UNION_PTR"
      using that wf_envD(2) [OF assms(1,3)] assms(2,3)
      by (auto simp: wf_union_desc_def flat_unions_def)
    moreover from this have "elem_size (ue_elem_type e) \<le> 8" by (cases "ue_elem_type e") auto
    ultimately show "slot_ok env m (ue_elem_type e) (ue_elem_descriptor e) (union_data u)
        (unat (sub_ptrdiff sz (union_data u) u))"
      using mapped_sub [OF assms(4), of "u + 8" "unat sz - 8"] assms(5)
      by (auto simp: slot_ok_def union_data_def sz)
    show "unat (sub_ptrdiff sz (union_data u) u) < 8 * n"
      using assms(5,6) by (simp add: union_data_def sz)
  qed
  then have "\<exists>res. union_validate_loop disp env m nl u sz nh es ctx = Inr res"
    if "set es \<subseteq> set (ud_entries d)" for es
    using that by (induction es) (auto simp: hdr)
  with assms(3) show ?thesis by (auto simp: MojomUnion_Validate_def union_desc_def)
qed

lemma struct_loop_forward:
  "struct_validate_loop disp env m p sz nh es ctx = Inr (VALIDATION_ERROR_NONE, ctx') \<Longrightarrow>
   ctx_le ctx ctx'"
  by (induction es arbitrary: ctx)
    (auto simp: res_simps Let_def split: if_splits dest!: forward intro: ctx_le_trans)

lemma array_loop_forward:
  "array_validate_loop disp env m d p sz nh i ctx = Inr (VALIDATION_ERROR_NONE, ctx') \<Longrightarrow>
   ctx_le ctx ctx'"
proof (induction "4294967296 - i" arbitrary: i ctx rule: less_induct)
  case less
  from less.prems show ?case
  proof (cases rule: array_validate_loop_NONE)
    case (2 a c)
    from less.hyps [OF _ 2(5)] u32_count_up [OF 2(2)] have "ctx_le c ctx'" by simp
    with forward [OF 2(4)] show ?thesis by (rule ctx_le_trans)
  qed simp
qed

lemma union_loop_forward:
  "union_validate_loop disp env m nl u sz nh es ctx = Inr (VALIDATION_ERROR_NONE, ctx') \<Longrightarrow>
   ctx_le ctx ctx'"
  by (induction es) (auto simp: res_simps split: if_splits dest: forward)

text \<open>A struct or array that validates claims at least its own \<^verbatim>\<open>num_bytes\<close>.\<close>

lemma struct_forward:
  assumes "MojomStruct_Validate disp env m td p sz nh ctx = Inr (VALIDATION_ERROR_NONE, ctx')"
  shows "ctx_le (ctx\<lparr>next_pointer := p + unat (peek32 m p)\<rparr>) ctx'"
  using assms by (rule MojomStruct_Validate_NONE) (erule struct_loop_forward)

lemma array_forward:
  assumes "MojomArray_Validate disp env m td p sz nh ctx = Inr (VALIDATION_ERROR_NONE, ctx')"
  shows "ctx_le (ctx\<lparr>next_pointer := p + unat (peek32 m p)\<rparr>) ctx'"
  using assms by (rule MojomArray_Validate_NONE) (metis array_loop_forward ctx_le_refl)

lemma union_forward:
  "MojomUnion_Validate disp env m td nl u sz nh ctx = Inr (VALIDATION_ERROR_NONE, ctx') \<Longrightarrow>
   ctx_le ctx ctx'"
  by (auto simp: MojomUnion_Validate_def res_simps dest: union_loop_forward)

text \<open>Once the struct part of a map validates, its two array headers can be read.\<close>

lemma map_total:
  assumes "MojomStruct_Validate disp env m td p sz nh ctx = Inr (VALIDATION_ERROR_NONE, ctx')"
    and "env td = Some (DescStruct d)" and "is_map_desc d"
  shows "\<exists>r. MojomMap_Validate m p = Inr r"
proof -
  from assms(3) obtain k v where kv: "sd_entries d = [k, v]"
    "se_elem_type k = TYPE_ARRAY_PTR" "se_offset k = 0" "se_min_version k = 0"
    "se_elem_type v = TYPE_ARRAY_PTR" "se_offset v = 8" "se_min_version v = 0"
    by (auto simp: is_map_desc_def split: list.splits)
  from assms(1) obtain c s1 s2 c1 c2 c3 where
    "disp env m TYPE_ARRAY_PTR (se_elem_descriptor k) (se_nullable k) (p + 8) s1 nh c =
       Inr (VALIDATION_ERROR_NONE, c1)"
    "disp env m TYPE_ARRAY_PTR (se_elem_descriptor v) (se_nullable v) (p + 16) s2 nh c2 =
       Inr (VALIDATION_ERROR_NONE, c3)"
    by (rule MojomStruct_Validate_NONE)
      (use assms(2) kv in \<open>auto simp: res_simps Let_def add.commute [of 16] split: if_splits\<close>)
  note maps = array_mapped [OF this(1)] array_mapped [OF this(2)]
  then have off: "unat (8 + peek64 m (p + 8)) = 8 + unat (peek64 m (p + 8))"
    "unat (16 + peek64 m (p + 16)) = 16 + unat (peek64 m (p + 16))"
    using unat_u32_bound [of s1] unat_u32_bound [of s2]
    by (auto simp: unat_plus_if_size word_size)
  have "mapped m (p + (8 + unat (peek64 m (p + 8))) + 4) 4"
    "mapped m (p + (16 + unat (peek64 m (p + 16))) + 4) 4"
    using maps by (auto simp: add.assoc elim: mapped_sub)
  with maps off show ?thesis
    by (simp add: MojomMap_Validate_def layout_defs load64_eq load32_eq Let_def)
qed

end

section \<open>The dispatcher meets its contract\<close>

text \<open>A pointer field that is accepted: null where that is allowed, or the object it leads to is
  accepted with the context moved to the object's start.\<close>

lemma DispatchValidate_pointer_NONE:
  assumes "MojomType_DispatchValidate (Suc n) env m t r nl a sz nh ctx = Inr (VALIDATION_ERROR_NONE, ctx')"
    and "t = TYPE_STRUCT_PTR \<or> t = TYPE_MAP_PTR \<or> t = TYPE_ARRAY_PTR"
  obtains "a \<noteq> 0" and "mapped m a 8" and "peek64 m a = 0" and "nl" and "ctx' = ctx"
  | "a \<noteq> 0" and "mapped m a 8" and "peek64 m a \<noteq> 0"
      and "next_pointer ctx \<le> a + unat (peek64 m a)" and "unat (peek64 m a) \<le> unat sz"
      and "8 dvd unat (peek64 m a)"
      and "(if t = TYPE_ARRAY_PTR then MojomArray_Validate else MojomStruct_Validate)
             (MojomType_DispatchValidate n) env m r (a + unat (peek64 m a))
             (size_minus_offset sz (peek64 m a)) nh (ctx\<lparr>next_pointer := a + unat (peek64 m a)\<rparr>) =
           Inr (VALIDATION_ERROR_NONE, ctx')"
proof -
  from assms obtain c where a: "a \<noteq> 0" "mapped m a 8"
    and vp: "validate_pointer m a sz nl ctx = Inr (VALIDATION_ERROR_NONE, c)"
    and tgt: "peek64 m a = 0 \<and> ctx' = c \<or> peek64 m a \<noteq> 0 \<and>
      (if t = TYPE_ARRAY_PTR then MojomArray_Validate else MojomStruct_Validate)
             (MojomType_DispatchValidate n) env m r (a + unat (peek64 m a))
             (size_minus_offset sz (peek64 m a)) nh c = Inr (VALIDATION_ERROR_NONE, ctx')"
    by (auto simp: Let_def res_simps pointer_offset_def load64_eq split: if_splits)
  note vpN = validate_pointer_NONE [OF vp]
  show thesis
  proof (cases "peek64 m a = 0")
    case True
    with a vpN tgt show ?thesis by (intro that(1)) auto
  next
    case False
    with a vpN tgt show ?thesis by (intro that(2)) auto
  qed
qed

lemma DispatchValidate_union_NONE:
  assumes "MojomType_DispatchValidate (Suc n) env m TYPE_UNION r nl a sz nh ctx =
      Inr (VALIDATION_ERROR_NONE, ctx')"
  obtains "a \<noteq> 0" and "mapped m a 4" and "peek32 m a = 0" and "nl" and "ctx' = ctx"
  | "a \<noteq> 0" and "mapped m a 4" and "peek32 m a \<noteq> 0"
      and "MojomUnion_Validate (MojomType_DispatchValidate n) env m r nl a sz nh ctx =
             Inr (VALIDATION_ERROR_NONE, ctx')"
  using assms
  by (auto simp: Let_def res_simps union_size_def load32_eq sub_ptrdiff_def split: if_splits)

lemma DispatchValidate_handle_NONE:
  assumes "MojomType_DispatchValidate (Suc n) env m t r nl a sz nh ctx =
      Inr (VALIDATION_ERROR_NONE, ctx')"
    and "t = TYPE_HANDLE \<or> t = TYPE_INTERFACE"
  shows "a \<noteq> 0" and "mapped m a 4"
    and "validate_handle (peek32 m a) nh nl ctx = (VALIDATION_ERROR_NONE, ctx')"
  using assms by (auto simp: Let_def res_simps load32_eq split: if_splits)

lemma DispatchValidate_pointer_total:
  assumes "a \<noteq> 0" "mapped m a (unat sz)" "8 \<le> unat sz"
    and "t = TYPE_STRUCT_PTR \<or> t = TYPE_MAP_PTR \<or> t = TYPE_ARRAY_PTR"
    and sub: "\<And>off sz' ctx. 0 < off \<Longrightarrow> off \<le> unat sz \<Longrightarrow> unat sz' = unat sz - off \<Longrightarrow>
      \<exists>res. (if t = TYPE_ARRAY_PTR then MojomArray_Validate else MojomStruct_Validate)
          (MojomType_DispatchValidate n) env m r (a + off) sz' nh ctx = Inr res"
    and map_ok: "\<And>off sz' ctx ctx'. t = TYPE_MAP_PTR \<Longrightarrow>
      MojomStruct_Validate (MojomType_DispatchValidate n) env m r (a + off) sz' nh ctx =
        Inr (VALIDATION_ERROR_NONE, ctx') \<Longrightarrow> \<exists>res. MojomMap_Validate m (a + off) = Inr res"
  shows "\<exists>res. MojomType_DispatchValidate (Suc n) env m t r nl a sz nh ctx = Inr res"
proof -
  let ?off = "peek64 m a"
  have m8: "mapped m a 8" using mapped_sub [OF assms(2), of a 8] assms(3) by simp
  then obtain v c where vp: "validate_pointer m a sz nl ctx = Inr (v, c)"
    using validate_pointer_total by blast
  show ?thesis
  proof (cases "v = VALIDATION_ERROR_NONE \<and> ?off \<noteq> 0")
    case True
    with validate_pointer_NONE(2) vp have le: "unat ?off \<le> unat sz" by simp
    with True sub [of "unat ?off" "size_minus_offset sz ?off" c] obtain res where
      res: "(if t = TYPE_ARRAY_PTR then MojomArray_Validate else MojomStruct_Validate)
          (MojomType_DispatchValidate n) env m r (a + unat ?off) (size_minus_offset sz ?off) nh c =
          Inr res"
      by (auto simp: unat_size_minus_offset unat_gt_0)
    obtain v' c' where "res = (v', c')" by (cases res)
    with True assms(1,4) m8 vp res map_ok show ?thesis
      by (cases "v' = VALIDATION_ERROR_NONE")
        (auto simp: Let_def pointer_offset_def load64_eq dest: map_ok)
  next
    case False
    with assms(1,4) m8 vp show ?thesis
      by (auto simp: Let_def pointer_offset_def load64_eq)
  qed
qed

lemma DispatchValidate_forward:
  assumes IH: "validate_dispatcher (MojomType_DispatchValidate n) n"
    and ok: "MojomType_DispatchValidate (Suc n) env m t r nl a sz nh ctx =
      Inr (VALIDATION_ERROR_NONE, ctx')"
  shows "ctx_le ctx ctx'"
proof (cases "t = TYPE_STRUCT_PTR \<or> t = TYPE_MAP_PTR \<or> t = TYPE_ARRAY_PTR")
  case True
  with ok show ?thesis
  proof (cases rule: DispatchValidate_pointer_NONE)
    case 2
    let ?p = "a + unat (peek64 m a)"
    from 2(7) have "ctx_le (ctx\<lparr>next_pointer := ?p + unat (peek32 m ?p)\<rparr>) ctx'"
      using validate_dispatcher.array_forward [OF IH] validate_dispatcher.struct_forward [OF IH]
      by (fastforce split: if_splits)
    with 2(4) show ?thesis by (auto simp: ctx_le_def)
  qed auto
next
  case False
  show ?thesis
  proof (cases t)
    case TYPE_UNION
    with ok show ?thesis
      by (auto elim!: DispatchValidate_union_NONE dest: validate_dispatcher.union_forward [OF IH]
          simp del: MojomType_DispatchValidate.simps)
  next
    case TYPE_UNION_PTR
    with ok obtain c where "validate_pointer m a sz nl ctx = Inr (VALIDATION_ERROR_NONE, c)"
      and tgt: "peek64 m a = 0 \<and> ctx' = c \<or>
        peek64 m a \<noteq> 0 \<and> ctx_le (c\<lparr>next_pointer := next_pointer c + 16\<rparr>) ctx'"
      by (auto simp: Let_def res_simps layout_defs load64_eq load32_eq split: if_splits
          dest!: validate_dispatcher.union_forward [OF IH])
    note vp = validate_pointer_NONE [OF this(1)]
    show ?thesis
      using tgt vp(4,5) by (cases "peek64 m a = 0") (auto simp: ctx_le_def)
  qed (use False ok DispatchValidate_handle_NONE(3) [OF ok] validate_handle_ctx_le in
      \<open>auto simp: Let_def res_simps\<close>)
qed

lemma validate_dispatcher_step:
  assumes IH: "validate_dispatcher (MojomType_DispatchValidate n) n"
  shows "validate_dispatcher (MojomType_DispatchValidate (Suc n)) (Suc n)"
proof
  fix env m t r a nl nh ctx and sz :: u32
  assume wf: "wf_env env" "flat_unions env" and slot: "slot_ok env m t r a (unat sz)"
    and sz: "unat sz < 8 * Suc n"
  have a: "a \<noteq> 0" "mapped m a (unat sz)" and ref: "wf_ref env t r" using slot by (simp_all add: slot_ok_def)
  have tgt: "mapped m (a + off) (unat sz')" "unat sz' < 8 * Suc n"
    if "off \<le> unat sz" "unat sz' = unat sz - off" for off and sz' :: u32
    using that sz mapped_sub [OF a(2), of "a + off" "unat sz'"] by auto
  have mapd: "\<exists>res. MojomMap_Validate m p = Inr res"
    if "MojomStruct_Validate (MojomType_DispatchValidate n) env m r p sz' nh c =
        Inr (VALIDATION_ERROR_NONE, c')" "t = TYPE_MAP_PTR" for p sz' c c'
    using validate_dispatcher.map_total [OF IH that(1)] ref that(2) by (auto simp: wf_ref_simps)
  show "\<exists>res. MojomType_DispatchValidate (Suc n) env m t r nl a sz nh ctx = Inr res"
  proof (cases "t = TYPE_STRUCT_PTR \<or> t = TYPE_MAP_PTR \<or> t = TYPE_ARRAY_PTR")
    case True
    show ?thesis
    proof (rule DispatchValidate_pointer_total [OF a _ True])
      show "8 \<le> unat sz" using slot True by (auto simp: slot_ok_def)
      show "\<exists>res. (if t = TYPE_ARRAY_PTR then MojomArray_Validate else MojomStruct_Validate)
          (MojomType_DispatchValidate n) env m r (a + off) sz' nh c = Inr res"
        if "0 < off" "off \<le> unat sz" "unat sz' = unat sz - off" for off sz' c
        using True ref tgt [OF that(2,3)] a(1)
          validate_dispatcher.array_total [OF IH wf, of r _ "a + off" m sz' nh c]
          validate_dispatcher.struct_total [OF IH wf, of r _ "a + off" m sz' nh c]
        by (auto simp: wf_ref_simps)
    qed (use mapd in blast)
  next
    case False
    with slot have "t = TYPE_UNION \<or> t = TYPE_HANDLE \<or> t = TYPE_INTERFACE \<or> t = TYPE_POD"
      by (cases t) (simp_all add: slot_ok_def)
    moreover have "mapped m a 4" if "t \<noteq> TYPE_POD"
      using slot that False mapped_sub [OF a(2), of a 4] by (cases t) (auto simp: slot_ok_def)
    ultimately show ?thesis
      using slot a(1) ref sz validate_dispatcher.union_total [OF IH wf, of r _ m a sz nl nh ctx]
      by (auto simp: Let_def load32_eq union_size_def sub_ptrdiff_def slot_ok_def wf_ref_simps)
  qed
next
  fix env m t r nl a sz nh ctx ctx'
  assume "MojomType_DispatchValidate (Suc n) env m t r nl a sz nh ctx =
      Inr (VALIDATION_ERROR_NONE, ctx')"
  then show "ctx_le ctx ctx'" by (rule DispatchValidate_forward [OF IH])
next
  fix env m r nl a sz nh ctx ctx'
  assume ok: "MojomType_DispatchValidate (Suc n) env m TYPE_ARRAY_PTR r nl a sz nh ctx =
      Inr (VALIDATION_ERROR_NONE, ctx')"
  show "mapped m a 8 \<and> mapped m (a + unat (peek64 m a)) 8 \<and> unat (peek64 m a) \<le> unat sz"
    using ok
  proof (rule DispatchValidate_pointer_NONE)
    show ?thesis if "mapped m a 8" "peek64 m a = 0" using that by simp
    show ?thesis if "mapped m a 8" "unat (peek64 m a) \<le> unat sz"
      "(if TYPE_ARRAY_PTR = TYPE_ARRAY_PTR then MojomArray_Validate else MojomStruct_Validate)
             (MojomType_DispatchValidate n) env m r (a + unat (peek64 m a))
             (size_minus_offset sz (peek64 m a)) nh (ctx\<lparr>next_pointer := a + unat (peek64 m a)\<rparr>) =
           Inr (VALIDATION_ERROR_NONE, ctx')"
      using that by (auto elim!: MojomArray_Validate_NONE dest: validate_array_header_NONE(1))
  qed simp
qed

lemma DispatchValidate_dispatcher: "validate_dispatcher (MojomType_DispatchValidate n) n"
proof (induction n)
  case 0
  show ?case by unfold_locales simp_all
next
  case (Suc n)
  then show ?case by (rule validate_dispatcher_step)
qed

interpretation vd: validate_dispatcher "MojomType_DispatchValidate n" n for n
  by (rule DispatchValidate_dispatcher)

section \<open>Properties\<close>

lemma struct_validate_loop_append:
  "struct_validate_loop disp env m p sz nh (xs @ ys) ctx =
     bindR (struct_validate_loop disp env m p sz nh xs ctx) (\<lambda>(r, c).
     if r \<noteq> VALIDATION_ERROR_NONE then Inr (r, c)
     else struct_validate_loop disp env m p sz nh ys c)"
proof (induction xs arbitrary: ctx)
  case (Cons e xs)
  then show ?case
    by (cases "struct_version m p")
      (auto simp: Let_def bindR_def split: sum.splits)
qed simp

text \<open>The field of a struct at \<open>p\<close> that an entry describes, and where a pointer in it leads.\<close>

definition slot_addr :: "addr \<Rightarrow> MojomTypeDescriptorStructEntry \<Rightarrow> addr" where
  "slot_addr p e = p + 8 + unat (se_offset e)"

definition target :: "mem \<Rightarrow> addr \<Rightarrow> addr" where
  "target m a = a + unat (peek64 m a)"

lemma struct_loop_field:
  assumes "struct_validate_loop (MojomType_DispatchValidate n) env m p sz nh (xs @ e # ys) ctx =
      Inr (VALIDATION_ERROR_NONE, ctx')"
    and "\<not> peek32 m (p + 4) < se_min_version e"
  obtains c c' s where "ctx_le ctx c"
    and "MojomType_DispatchValidate n env m (se_elem_type e) (se_elem_descriptor e) (se_nullable e)
           (slot_addr p e) s nh c = Inr (VALIDATION_ERROR_NONE, c')"
    and "struct_validate_loop (MojomType_DispatchValidate n) env m p sz nh ys c' =
           Inr (VALIDATION_ERROR_NONE, ctx')"
  using assms vd.struct_loop_forward
  by (fastforce simp: struct_validate_loop_append res_simps layout_defs load32_eq Let_def
      slot_addr_def split: if_splits)

text \<open>A pointer field that is not null claims memory after the context it is validated in, and
  leaves the context after the object; a handle field does the same with handle indices.\<close>

lemma pointer_field_claims:
  assumes "MojomType_DispatchValidate n env m t r nl a sz nh c = Inr (VALIDATION_ERROR_NONE, c')"
    and "t = TYPE_STRUCT_PTR \<or> t = TYPE_MAP_PTR \<or> t = TYPE_ARRAY_PTR" and "peek64 m a \<noteq> 0"
  shows "next_pointer c \<le> target m a"
    and "target m a + unat (peek32 m (target m a)) \<le> next_pointer c'"
proof -
  from assms(1) obtain k where n: "n = Suc k" by (cases n) auto
  have "next_pointer c \<le> target m a \<and>
      target m a + unat (peek32 m (target m a)) \<le> next_pointer c'"
    using assms(1) [unfolded n] assms(2)
  proof (cases rule: DispatchValidate_pointer_NONE)
    case 2
    then have "ctx_le (c\<lparr>next_pointer := target m a + unat (peek32 m (target m a))\<rparr>) c'"
      using vd.array_forward vd.struct_forward
      by (fastforce simp: target_def split: if_splits)
    with 2 show ?thesis by (simp add: ctx_le_def target_def)
  qed (use assms(3) in simp)
  then show "next_pointer c \<le> target m a"
    "target m a + unat (peek32 m (target m a)) \<le> next_pointer c'" by simp_all
qed

lemma handle_field_claims:
  assumes "MojomType_DispatchValidate n env m t r nl a sz nh c = Inr (VALIDATION_ERROR_NONE, c')"
    and "t = TYPE_HANDLE \<or> t = TYPE_INTERFACE" and "peek32 m a \<noteq> kEncodedHandleInvalid"
  shows "next_handle_index c \<le> peek32 m a" and "peek32 m a < nh"
    and "peek32 m a < next_handle_index c'"
proof -
  from assms(1) obtain k where n: "n = Suc k" by (cases n) auto
  from validate_handle_NONE(2) [OF DispatchValidate_handle_NONE(3) [OF assms(1) [unfolded n] assms(2)]
      assms(3)]
  show "next_handle_index c \<le> peek32 m a" "peek32 m a < nh" "peek32 m a < next_handle_index c'"
    by (simp_all add: word_less_nat_alt)
qed

lemma accepted_two_fields:
  assumes "MojomStruct_Validate (MojomType_DispatchValidate n) env m td p sz nh ctx =
      Inr (VALIDATION_ERROR_NONE, ctx')"
    and "env td = Some (DescStruct d)" and "sd_entries d = xs @ e # ys @ f # zs"
    and "\<not> peek32 m (p + 4) < se_min_version e" and "\<not> peek32 m (p + 4) < se_min_version f"
  obtains c c' s b b' s' where "ctx_le (ctx\<lparr>next_pointer := p + unat (peek32 m p)\<rparr>) c"
    and "MojomType_DispatchValidate n env m (se_elem_type e) (se_elem_descriptor e) (se_nullable e)
           (slot_addr p e) s nh c = Inr (VALIDATION_ERROR_NONE, c')"
    and "ctx_le c' b"
    and "MojomType_DispatchValidate n env m (se_elem_type f) (se_elem_descriptor f) (se_nullable f)
           (slot_addr p f) s' nh b = Inr (VALIDATION_ERROR_NONE, b')"
proof -
  from assms(1,2) have "struct_validate_loop (MojomType_DispatchValidate n) env m p sz nh
      (xs @ e # (ys @ f # zs)) (ctx\<lparr>next_pointer := p + unat (peek32 m p)\<rparr>) =
      Inr (VALIDATION_ERROR_NONE, ctx')"
    unfolding assms(3) [symmetric] by (auto elim: MojomStruct_Validate_NONE)
  from struct_loop_field [OF this assms(4)] struct_loop_field [OF _ assms(5)] that
  show thesis by metis
qed


text \<open>A well-formed table: a struct with a nullable string, a handle, a nullable field of its own
  type, a nullable union whose only reference field is a string, and a nullable interface.\<close>

definition sample_union :: MojomTypeDescriptorUnion where
  "sample_union = \<lparr>ud_num_fields = 2, ud_entries =
     [\<lparr>ue_elem_type = TYPE_ARRAY_PTR, ue_elem_descriptor = 1, ue_tag = 1, ue_nullable = False\<rparr>]\<rparr>"

definition sample_struct :: MojomTypeDescriptorStruct where
  "sample_struct = \<lparr>sd_versions = [\<lparr>sv_version = 0, sv_num_bytes = 56\<rparr>], sd_entries =
     [\<lparr>se_elem_type = TYPE_ARRAY_PTR, se_elem_descriptor = 1, se_offset = 0, se_min_version = 0,
       se_nullable = True\<rparr>,
      \<lparr>se_elem_type = TYPE_HANDLE, se_elem_descriptor = 0, se_offset = 8, se_min_version = 0,
       se_nullable = False\<rparr>,
      \<lparr>se_elem_type = TYPE_STRUCT_PTR, se_elem_descriptor = 3, se_offset = 16, se_min_version = 0,
       se_nullable = True\<rparr>,
      \<lparr>se_elem_type = TYPE_UNION, se_elem_descriptor = 2, se_offset = 24, se_min_version = 0,
       se_nullable = True\<rparr>,
      \<lparr>se_elem_type = TYPE_INTERFACE, se_elem_descriptor = 0, se_offset = 40, se_min_version = 0,
       se_nullable = True\<rparr>]\<rparr>"

definition sample_env :: tenv where
  "sample_env = (\<lambda>r. if r = 1 then Some (DescArray g_mojom_string_type_description)
     else if r = 2 then Some (DescUnion sample_union)
     else if r = 3 then Some (DescStruct sample_struct) else None)"

lemma sample_env_wf: "wf_env sample_env" "flat_unions sample_env"
proof -
  have e: "sample_env 0 = None" "sample_env 1 = Some (DescArray g_mojom_string_type_description)"
    "sample_env 2 = Some (DescUnion sample_union)" "sample_env 3 = Some (DescStruct sample_struct)"
    by (simp_all add: sample_env_def)
  have "wf_array_desc sample_env g_mojom_string_type_description"
    by (simp add: wf_array_desc_def g_mojom_string_type_description_def wf_ref_simps)
  moreover have "wf_union_desc sample_env sample_union"
    using e by (simp add: wf_union_desc_def sample_union_def wf_ref_simps)
  moreover have "wf_struct_desc sample_env sample_struct"
    using e by (simp add: wf_struct_desc_def sample_struct_def wf_ref_simps wf_version_table_def
        entry_fits_def entries_apart_def entry_end_def)
  ultimately show "wf_env sample_env"
    by (auto simp: wf_env_def sample_env_def split: if_splits)
  show "flat_unions sample_env"
    by (auto simp: flat_unions_def sample_env_def sample_union_def split: if_splits)
qed

text \<open>A message body for it: a struct with the string "hi", handle 0, interface handle 2 and a
  nested struct, which has handle 1 and the string "!" in its union.\<close>

definition sample_body :: "u8 list" where
  "sample_body =
     [56, 0, 0, 0, 0, 0, 0, 0,   48, 0, 0, 0, 0, 0, 0, 0,   0, 0, 0, 0, 0, 0, 0, 0,
      48, 0, 0, 0, 0, 0, 0, 0,   0, 0, 0, 0, 0, 0, 0, 0,   0, 0, 0, 0, 0, 0, 0, 0,
      2, 0, 0, 0, 0, 0, 0, 0,   10, 0, 0, 0, 2, 0, 0, 0,   104, 105, 0, 0, 0, 0, 0, 0,
      56, 0, 0, 0, 0, 0, 0, 0,   0, 0, 0, 0, 0, 0, 0, 0,   1, 0, 0, 0, 0, 0, 0, 0,
      0, 0, 0, 0, 0, 0, 0, 0,   16, 0, 0, 0, 1, 0, 0, 0,   16, 0, 0, 0, 0, 0, 0, 0,
      255, 255, 255, 255, 0, 0, 0, 0,   9, 0, 0, 0, 1, 0, 0, 0,   33, 0, 0, 0, 0, 0, 0, 0]"

definition initial_context :: MojomValidationContext where
  "initial_context = \<lparr>next_handle_index = 0, next_pointer = 0\<rparr>"

lemma sample_body_accepted:
  "MojomStruct_Validate (MojomType_DispatchValidate 18) sample_env
      (mem_of 64 sample_body) 3 64 144 3 initial_context =
     Inr (VALIDATION_ERROR_NONE, \<lparr>next_handle_index = 3, next_pointer = 201\<rparr>)"
  by code_simp


text \<open>
  Claim C3. No aliasing. When a struct is accepted, any two of its non-null pointer fields lead to objects
  that do not overlap: the object of the earlier entry ends before the object of the later entry
  begins, and both begin after the end of the struct itself.
\<close>

theorem MojomStruct_Validate_no_alias:
  assumes "MojomStruct_Validate (MojomType_DispatchValidate n) env m td p sz nh ctx =
      Inr (VALIDATION_ERROR_NONE, ctx')"
    and "env td = Some (DescStruct d)" and "sd_entries d = xs @ e # ys @ f # zs"
    and "\<forall>x \<in> {e, f}. \<not> peek32 m (p + 4) < se_min_version x \<and>
           se_elem_type x \<in> {TYPE_STRUCT_PTR, TYPE_MAP_PTR, TYPE_ARRAY_PTR} \<and>
           peek64 m (slot_addr p x) \<noteq> 0"
  shows "p + unat (peek32 m p) \<le> target m (slot_addr p e) \<and>
         target m (slot_addr p e) + unat (peek32 m (target m (slot_addr p e)))
           \<le> target m (slot_addr p f)"
proof -
  from assms(4) have act: "\<not> peek32 m (p + 4) < se_min_version e" "\<not> peek32 m (p + 4) < se_min_version f"
    by simp_all
  from assms(1-3) act show ?thesis
  proof (rule accepted_two_fields)
    fix c c' s b b' s'
    assume le: "ctx_le (ctx\<lparr>next_pointer := p + unat (peek32 m p)\<rparr>) c" "ctx_le c' b"
      and e: "MojomType_DispatchValidate n env m (se_elem_type e) (se_elem_descriptor e) (se_nullable e)
        (slot_addr p e) s nh c = Inr (VALIDATION_ERROR_NONE, c')"
      and f: "MojomType_DispatchValidate n env m (se_elem_type f) (se_elem_descriptor f) (se_nullable f)
        (slot_addr p f) s' nh b = Inr (VALIDATION_ERROR_NONE, b')"
    from pointer_field_claims [OF e] pointer_field_claims(1) [OF f] le assms(4)
    show ?thesis by (auto simp: ctx_le_def)
  qed
qed

lemma sample_struct_entries:
  "sd_entries sample_struct = [] @ sd_entries sample_struct ! 0 # [sd_entries sample_struct ! 1] @
     sd_entries sample_struct ! 2 # drop 3 (sd_entries sample_struct)"
  "sd_entries sample_struct = [sd_entries sample_struct ! 0] @ sd_entries sample_struct ! 1 #
     [sd_entries sample_struct ! 2, sd_entries sample_struct ! 3] @
     sd_entries sample_struct ! 4 # []"
  by (simp_all add: sample_struct_def)

theorem MojomStruct_Validate_no_alias_witness:
  "target (mem_of 64 sample_body) 72 + 10 \<le> target (mem_of 64 sample_body) 88"
proof -
  let ?m = "mem_of 64 sample_body" and ?es = "sd_entries sample_struct"
  have "\<forall>x \<in> {?es ! 0, ?es ! 2}. \<not> peek32 ?m (64 + 4) < se_min_version x \<and>
      se_elem_type x \<in> {TYPE_STRUCT_PTR, TYPE_MAP_PTR, TYPE_ARRAY_PTR} \<and>
      peek64 ?m (slot_addr 64 x) \<noteq> 0" by code_simp
  from MojomStruct_Validate_no_alias [OF sample_body_accepted _ sample_struct_entries(1) this]
  have "target ?m (slot_addr 64 (?es ! 0)) + unat (peek32 ?m (target ?m (slot_addr 64 (?es ! 0))))
      \<le> target ?m (slot_addr 64 (?es ! 2))" by (simp add: sample_env_def)
  moreover have "slot_addr 64 (?es ! 0) = 72" "slot_addr 64 (?es ! 2) = 88"
    "peek32 ?m (target ?m 72) = 10" by code_simp+
  ultimately show ?thesis by simp
qed

text \<open>
  Claim C4. Handles are not shared. When a struct is accepted, any two of its handle or interface fields
  that hold a handle hold different indices, increasing in the order of the entries and all below
  the number of handles that came with the message.
\<close>

theorem MojomStruct_Validate_handles_distinct:
  assumes "MojomStruct_Validate (MojomType_DispatchValidate n) env m td p sz nh ctx =
      Inr (VALIDATION_ERROR_NONE, ctx')"
    and "env td = Some (DescStruct d)" and "sd_entries d = xs @ e # ys @ f # zs"
    and "\<forall>x \<in> {e, f}. \<not> peek32 m (p + 4) < se_min_version x \<and>
           se_elem_type x \<in> {TYPE_HANDLE, TYPE_INTERFACE} \<and>
           peek32 m (slot_addr p x) \<noteq> kEncodedHandleInvalid"
  shows "next_handle_index ctx \<le> peek32 m (slot_addr p e) \<and>
         peek32 m (slot_addr p e) < peek32 m (slot_addr p f) \<and> peek32 m (slot_addr p f) < nh"
proof -
  from assms(4) have act: "\<not> peek32 m (p + 4) < se_min_version e" "\<not> peek32 m (p + 4) < se_min_version f"
    by simp_all
  from assms(1-3) act show ?thesis
  proof (rule accepted_two_fields)
    fix c c' s b b' s'
    assume le: "ctx_le (ctx\<lparr>next_pointer := p + unat (peek32 m p)\<rparr>) c" "ctx_le c' b"
      and e: "MojomType_DispatchValidate n env m (se_elem_type e) (se_elem_descriptor e) (se_nullable e)
        (slot_addr p e) s nh c = Inr (VALIDATION_ERROR_NONE, c')"
      and f: "MojomType_DispatchValidate n env m (se_elem_type f) (se_elem_descriptor f) (se_nullable f)
        (slot_addr p f) s' nh b = Inr (VALIDATION_ERROR_NONE, b')"
    from handle_field_claims [OF e] handle_field_claims(1,2) [OF f] le assms(4)
    show ?thesis by (auto simp: ctx_le_def)
  qed
qed

theorem MojomStruct_Validate_handles_distinct_witness:
  "peek32 (mem_of 64 sample_body) 80 < peek32 (mem_of 64 sample_body) 112 \<and>
   peek32 (mem_of 64 sample_body) 112 < 3"
proof -
  let ?m = "mem_of 64 sample_body" and ?es = "sd_entries sample_struct"
  have "\<forall>x \<in> {?es ! 1, ?es ! 4}. \<not> peek32 ?m (64 + 4) < se_min_version x \<and>
      se_elem_type x \<in> {TYPE_HANDLE, TYPE_INTERFACE} \<and>
      peek32 ?m (slot_addr 64 x) \<noteq> kEncodedHandleInvalid" by code_simp
  from MojomStruct_Validate_handles_distinct [OF sample_body_accepted _ sample_struct_entries(2) this]
  have "peek32 ?m (slot_addr 64 (?es ! 1)) < peek32 ?m (slot_addr 64 (?es ! 4)) \<and>
      peek32 ?m (slot_addr 64 (?es ! 4)) < 3" by (simp add: sample_env_def)
  moreover have "slot_addr 64 (?es ! 1) = 80" "slot_addr 64 (?es ! 4) = 112" by code_simp+
  ultimately show ?thesis by simp
qed

end
