(* ===== verification/Mojom_Decode.thy ===== *)
theory Mojom_Decode
  imports Mojom_Validation
begin

text \<open>
  Decoding of validated messages. The validators promise the decoders that memory and handle
  indices are claimed in order and without overlap; from that promise alone, decoding in place
  never faults and turns every offset into the address it stands for, every handle index into the
  handle, at every level of nesting, and changes nothing else. The contract between the
  dispatcher and the struct, array and union decoders is again a locale, which extends the one for
  validation.
\<close>

section \<open>Outcomes of decoding\<close>

definition frame :: "mem \<Rightarrow> mem \<Rightarrow> addr set \<Rightarrow> bool" where
  "frame m m' W \<longleftrightarrow> dom m' = dom m \<and> (\<forall>x. x \<notin> W \<longrightarrow> m' x = m x)"

definition hkeep :: "MojoHandle list \<Rightarrow> MojoHandle list \<Rightarrow> u32 \<Rightarrow> u32 \<Rightarrow> bool" where
  "hkeep hs hs' i j \<longleftrightarrow>
     length hs' = length hs \<and> (\<forall>k. k < unat i \<or> unat j \<le> k \<longrightarrow> hs' ! k = hs ! k)"

definition hsame :: "MojoHandle list \<Rightarrow> MojoHandle list \<Rightarrow> u32 \<Rightarrow> u32 \<Rightarrow> bool" where
  "hsame hs hs' i j \<longleftrightarrow> (\<forall>k. unat i \<le> k \<longrightarrow> k < unat j \<longrightarrow> hs ! k = hs' ! k)"

text \<open>
  A computation that starts in memory \<open>m\<close> with handles \<open>hs\<close> returns, writes only in \<open>W\<close> and moves
  only handles claimed between the contexts \<open>c\<close> and \<open>c'\<close>; and \<open>P H M H'\<close> holds of every memory
  \<open>M\<close> and handle arrays \<open>H\<close> (before) and \<open>H'\<close> (after) that agree with the run there, so what \<open>P\<close> says
  stays true whatever happens elsewhere.
\<close>

definition outcome ::
  "(MojoHandle list \<Rightarrow> mem \<Rightarrow> MojoHandle list \<Rightarrow> bool) \<Rightarrow> addr set \<Rightarrow>
   MojomValidationContext \<Rightarrow> MojomValidationContext \<Rightarrow> mem \<Rightarrow> MojoHandle list \<Rightarrow>
   decode_state res \<Rightarrow> bool"
where
  "outcome P W c c' m hs res \<longleftrightarrow>
     (\<exists>m' hs'. res = Inr (m', Some hs') \<and> frame m m' W \<and>
        hkeep hs hs' (next_handle_index c) (next_handle_index c') \<and>
        (\<forall>M H H'. (\<forall>x \<in> W. M x = m' x) \<longrightarrow>
           hsame H hs (next_handle_index c) (next_handle_index c') \<longrightarrow>
           hsame H' hs' (next_handle_index c) (next_handle_index c') \<longrightarrow> P H M H'))"

lemma all_from_Suc: "P i \<Longrightarrow> \<forall>j. Suc i \<le> j \<longrightarrow> j < n \<longrightarrow> P j \<Longrightarrow> \<forall>j. i \<le> j \<longrightarrow> j < n \<longrightarrow> P j"
  by (metis Suc_leI le_neq_implies_less)

lemma frame_agree: "frame m m' W \<Longrightarrow> {b..<b + k} \<inter> W = {} \<Longrightarrow> agree m m' b k"
  unfolding frame_def agree_def by (metis IntI atLeastLessThan_iff empty_iff)

lemma outcome_return:
  "(\<And>M H H'. (\<forall>x \<in> W. M x = m x) \<Longrightarrow> P H M H') \<Longrightarrow> outcome P W c c m hs (Inr (m, Some hs))"
  by (auto simp: outcome_def frame_def hkeep_def)

lemma outcome_weaken:
  assumes "outcome P W c c' m hs res" and "W \<subseteq> W'"
    and "\<And>M H H'. P H M H' \<Longrightarrow> (\<forall>x \<in> W' - W. M x = m x) \<Longrightarrow> Q H M H'"
  shows "outcome Q W' c c' m hs res"
proof -
  from assms(1) obtain m' hs' where r: "res = Inr (m', Some hs')" "frame m m' W"
    "hkeep hs hs' (next_handle_index c) (next_handle_index c')"
    and P: "\<And>M H H'. (\<forall>x \<in> W. M x = m' x) \<Longrightarrow>
      hsame H hs (next_handle_index c) (next_handle_index c') \<Longrightarrow>
      hsame H' hs' (next_handle_index c) (next_handle_index c') \<Longrightarrow> P H M H'"
    by (auto simp: outcome_def)
  have "Q H M H'" if "\<forall>x \<in> W'. M x = m' x"
    "hsame H hs (next_handle_index c) (next_handle_index c')"
    "hsame H' hs' (next_handle_index c) (next_handle_index c')" for M H H'
  proof (rule assms(3) [OF P])
    show "\<forall>x \<in> W. M x = m' x" using that(1) assms(2) by auto
    show "\<forall>x \<in> W' - W. M x = m x" using that(1) r(2) by (auto simp: frame_def)
  qed (fact that(2,3))+
  moreover have "frame m m' W'" using r(2) assms(2) by (auto simp: frame_def)
  ultimately show ?thesis using r(1,3) by (auto simp: outcome_def)
qed

lemma outcome_ctx:
  "outcome P W (c\<lparr>next_pointer := x\<rparr>) c' = outcome P W c c'"
  "outcome P W c (c'\<lparr>next_pointer := x\<rparr>) = outcome P W c c'"
  by (simp_all add: outcome_def fun_eq_iff)

text \<open>Two computations that write in different places and move different handles.\<close>

lemma outcome_seq:
  assumes "outcome P W c c1 m hs res" and le: "ctx_le c c1" "ctx_le c1 c2" and disj: "W \<inter> V = {}"
    and k: "\<And>m1 hs1. frame m m1 W \<Longrightarrow> length hs1 = length hs \<Longrightarrow>
      outcome Q V c1 c2 m1 hs1 (k (m1, Some hs1))"
  shows "outcome (\<lambda>H M H'. P H M H' \<and> Q H M H') (W \<union> V) c c2 m hs (bindR res k)"
proof -
  from assms(1) obtain m1 hs1 where 1: "res = Inr (m1, Some hs1)" "frame m m1 W"
    "hkeep hs hs1 (next_handle_index c) (next_handle_index c1)"
    and P: "\<And>M H H'. (\<forall>x \<in> W. M x = m1 x) \<Longrightarrow>
      hsame H hs (next_handle_index c) (next_handle_index c1) \<Longrightarrow>
      hsame H' hs1 (next_handle_index c) (next_handle_index c1) \<Longrightarrow> P H M H'"
    by (auto simp: outcome_def)
  from 1(3) have "length hs1 = length hs" by (simp add: hkeep_def)
  from k [OF 1(2) this] obtain m2 hs2 where 2: "k (m1, Some hs1) = Inr (m2, Some hs2)" "frame m1 m2 V"
    "hkeep hs1 hs2 (next_handle_index c1) (next_handle_index c2)"
    and Q: "\<And>M H H'. (\<forall>x \<in> V. M x = m2 x) \<Longrightarrow>
      hsame H hs1 (next_handle_index c1) (next_handle_index c2) \<Longrightarrow>
      hsame H' hs2 (next_handle_index c1) (next_handle_index c2) \<Longrightarrow> Q H M H'"
    by (auto simp: outcome_def)
  have le': "unat (next_handle_index c) \<le> unat (next_handle_index c1)"
    "unat (next_handle_index c1) \<le> unat (next_handle_index c2)"
    using le by (simp_all add: ctx_le_def word_le_nat_alt)
  have "P H M H' \<and> Q H M H'" if "\<forall>x \<in> W \<union> V. M x = m2 x"
    "hsame H hs (next_handle_index c) (next_handle_index c2)"
    "hsame H' hs2 (next_handle_index c) (next_handle_index c2)" for M H H'
  proof
    show "P H M H'"
      using that disj 2(2,3) le' by (intro P) (auto simp: frame_def hsame_def hkeep_def)
    show "Q H M H'"
      using that 1(3) le' by (intro Q) (auto simp: hsame_def hkeep_def)
  qed
  moreover have "frame m m2 (W \<union> V)" using 1(2) 2(2) by (auto simp: frame_def)
  moreover have "hkeep hs hs2 (next_handle_index c) (next_handle_index c2)"
    using 1(3) 2(3) le' by (auto simp: hkeep_def)
  ultimately show ?thesis using 1(1) 2(1) by (auto simp: outcome_def)
qed

section \<open>What a decoded message is\<close>

text \<open>
  Decoding turns the encoded memory \<open>m\<close> into \<open>M\<close> and the handle array \<open>H\<close> into \<open>H'\<close>. The predicates
  read the types off \<open>m\<close>: a struct, array or union is decoded when each of its pointer, handle and
  union fields is and all its other bytes are unchanged.
\<close>

definition slot :: "MojomTypeDescriptorType \<Rightarrow> addr \<Rightarrow> addr set" where
  "slot t a = {a..<a + elem_size t}"

definition active ::
  "mem \<Rightarrow> addr \<Rightarrow> MojomTypeDescriptorStructEntry list \<Rightarrow> MojomTypeDescriptorStructEntry list"
where
  "active m p es = filter (\<lambda>e. \<not> peek32 m (p + 4) < se_min_version e) es"

definition slots :: "addr \<Rightarrow> MojomTypeDescriptorStructEntry list \<Rightarrow> addr set" where
  "slots p es = (\<Union>e \<in> set es. slot (se_elem_type e) (slot_addr p e))"

type_synonym field_spec = "MojomTypeDescriptorType \<Rightarrow> descref \<Rightarrow> addr \<Rightarrow> bool"

definition decoded_struct :: "field_spec \<Rightarrow> tenv \<Rightarrow> mem \<Rightarrow> mem \<Rightarrow> descref \<Rightarrow> addr \<Rightarrow> bool" where
  "decoded_struct dec env m M r p \<longleftrightarrow>
     (\<exists>d. env r = Some (DescStruct d) \<and>
        (\<forall>e \<in> set (active m p (sd_entries d)).
           dec (se_elem_type e) (se_elem_descriptor e) (slot_addr p e)) \<and>
        (\<forall>x \<in> {p..<p + unat (peek32 m p)} - slots p (active m p (sd_entries d)). M x = m x))"

definition decoded_array :: "field_spec \<Rightarrow> tenv \<Rightarrow> mem \<Rightarrow> mem \<Rightarrow> descref \<Rightarrow> addr \<Rightarrow> bool" where
  "decoded_array dec env m M r p \<longleftrightarrow>
     (\<exists>d. env r = Some (DescArray d) \<and>
        (let k = elem_size (ad_elem_type d); num = unat (peek32 m (p + 4)) in
         (ad_elem_type d \<noteq> TYPE_POD \<longrightarrow>
            (\<forall>i < num. dec (ad_elem_type d) (ad_elem_descriptor d) (p + 8 + k * i))) \<and>
         (\<forall>x \<in> {p..<p + unat (peek32 m p)} - {p + 8..<p + 8 + k * num}. M x = m x)))"

definition decoded_union :: "field_spec \<Rightarrow> tenv \<Rightarrow> mem \<Rightarrow> mem \<Rightarrow> descref \<Rightarrow> addr \<Rightarrow> bool" where
  "decoded_union dec env m M r u \<longleftrightarrow>
     (\<exists>d. env r = Some (DescUnion d) \<and>
        (case find (\<lambda>e. ue_tag e = peek32 m (u + 4)) (ud_entries d) of
           None \<Rightarrow> (\<forall>x \<in> {u..<u + 16}. M x = m x)
         | Some e \<Rightarrow>
             (ue_elem_type e \<noteq> TYPE_POD \<longrightarrow> dec (ue_elem_type e) (ue_elem_descriptor e) (u + 8)) \<and>
             (\<forall>x \<in> {u..<u + 16} - slot (ue_elem_type e) (u + 8). M x = m x)))"

primrec decoded ::
  "nat \<Rightarrow> tenv \<Rightarrow> mem \<Rightarrow> MojoHandle list \<Rightarrow> mem \<Rightarrow> MojoHandle list \<Rightarrow> field_spec"
where
  "decoded 0 env m H M H' t r a = False"
| "decoded (Suc n) env m H M H' t r a =
     (let dec = decoded n env m H M H';
          pointed = (\<lambda>obj. if peek64 m a = 0 then peek64 M a = 0
                           else unat (peek64 M a) = target m a \<and> obj dec env m M r (target m a));
          handle = (if peek32 m a = kEncodedHandleInvalid then peek32 M a = MOJO_HANDLE_INVALID
                    else peek32 M a = H ! unat (peek32 m a) \<and>
                         H' ! unat (peek32 m a) = MOJO_HANDLE_INVALID) in
      case t of
        TYPE_STRUCT_PTR \<Rightarrow> pointed decoded_struct
      | TYPE_MAP_PTR \<Rightarrow> pointed decoded_struct
      | TYPE_ARRAY_PTR \<Rightarrow> pointed decoded_array
      | TYPE_UNION_PTR \<Rightarrow> False
      | TYPE_UNION \<Rightarrow> if peek32 m a = 0 then (\<forall>x \<in> {a..<a + 16}. M x = m x)
                       else decoded_union dec env m M r a
      | TYPE_HANDLE \<Rightarrow> handle
      | TYPE_INTERFACE \<Rightarrow> handle
      | TYPE_POD \<Rightarrow> True)"

section \<open>The dispatcher's contract\<close>

text \<open>The memory a field and the objects below it occupy once the field is accepted.\<close>

definition claimed :: "addr set \<Rightarrow> MojomValidationContext \<Rightarrow> MojomValidationContext \<Rightarrow> addr set" where
  "claimed A c c' = A \<union> {next_pointer c..<next_pointer c'}"

text \<open>The memory \<open>m'\<close> in the course of decoding still is the encoded memory \<open>m\<close> where it matters.\<close>

definition still :: "mem \<Rightarrow> mem \<Rightarrow> addr set \<Rightarrow> bool" where
  "still m m' A \<longleftrightarrow> dom m' = dom m \<and> (\<forall>x \<in> A. m' x = m x)"

lemma still_frame: "still m m' A \<Longrightarrow> frame m' m'' W \<Longrightarrow> A \<inter> W = {} \<Longrightarrow> still m m'' A"
  unfolding still_def frame_def by (metis disjoint_iff)

lemma still_subset: "still m m' A \<Longrightarrow> B \<subseteq> A \<Longrightarrow> still m m' B"
  by (auto simp: still_def)

lemma still_peek32: "still m m' A \<Longrightarrow> {a..<a + 4} \<subseteq> A \<Longrightarrow> peek32 m' a = peek32 m a"
  by (intro agree_peek32) (auto simp: still_def agree_def)

lemma still_peek64: "still m m' A \<Longrightarrow> {a..<a + 8} \<subseteq> A \<Longrightarrow> peek64 m' a = peek64 m a"
  by (intro agree_peek64) (auto simp: still_def agree_def)

lemma still_mapped: "still m m' A \<Longrightarrow> mapped m' a n \<longleftrightarrow> mapped m a n"
  unfolding still_def by (intro mapped_dom_cong) simp

locale decode_dispatcher = validate_dispatcher disp n
  for disp :: validate_dispatch and n :: nat +
  fixes ddisp :: decode_dispatch
    and spec :: "tenv \<Rightarrow> mem \<Rightarrow> MojoHandle list \<Rightarrow> mem \<Rightarrow> MojoHandle list \<Rightarrow> field_spec"
  assumes simulates: "wf_env env \<Longrightarrow> flat_unions env \<Longrightarrow> slot_ok env m t r a (unat sz) \<Longrightarrow>
      t \<noteq> TYPE_POD \<Longrightarrow> a + unat sz < 2 ^ 64 \<Longrightarrow> unat nh \<le> length hs \<Longrightarrow>
      disp env m t r nl a sz nh c = Inr (VALIDATION_ERROR_NONE, c') \<Longrightarrow>
      a + elem_size t \<le> next_pointer c \<Longrightarrow> still m m' (claimed (slot t a) c c') \<Longrightarrow>
      outcome (\<lambda>H M H'. spec env m H M H' t r a) (claimed (slot t a) c c') c c' m' hs
        (ddisp env t r nl a sz nh (m', Some hs))"
begin

lemma struct_loop_decodes:
  assumes "wf_env env" "flat_unions env" "p \<noteq> 0" "mapped m p (unat sz)" "p + unat sz < 2 ^ 64"
    and "unat nh \<le> length hs" "8 \<le> unat sz" "len \<le> unat sz"
    and "\<forall>e \<in> set es. wf_ref env (se_elem_type e) (se_elem_descriptor e) \<and>
        se_elem_type e \<noteq> TYPE_UNION_PTR \<and> se_elem_type e \<noteq> TYPE_POD"
    and "\<forall>e \<in> set (active m p es). 8 + entry_end e \<le> len"
    and "sorted_wrt entries_apart es"
    and "struct_validate_loop disp env m p sz nh es c = Inr (VALIDATION_ERROR_NONE, c')"
    and "p + len \<le> next_pointer c"
    and "still m m' (claimed (slots p (active m p es)) c c')" "still m m' {p + 4..<p + 8}"
  shows "outcome
     (\<lambda>H M H'. \<forall>e \<in> set (active m p es).
        spec env m H M H' (se_elem_type e) (se_elem_descriptor e) (slot_addr p e))
     (claimed (slots p (active m p es)) c c') c c' m' hs
     (struct_decode_loop ddisp env p sz nh es (m', Some hs))"
  using assms(6,9-)
proof (induction es arbitrary: c m' hs)
  case Nil
  then show ?case
    by (auto simp: active_def slots_def claimed_def intro: outcome_return)
next
  case (Cons e es)
  have map4: "mapped m (p + 4) 4" using assms(4,7) by (auto elim: mapped_sub)
  have ver: "struct_version m p = Inr (peek32 m (p + 4))" "struct_version m' p = Inr (peek32 m (p + 4))"
    using Cons.prems(8) map4 still_mapped [OF Cons.prems(8)] still_peek32 [OF Cons.prems(8), of "p + 4"]
    by (auto simp: layout_defs load32_eq)
  show ?case
  proof (cases "peek32 m (p + 4) < se_min_version e")
    case True
    then have "active m p (e # es) = active m p es" by (simp add: active_def)
    with Cons.IH [of hs c m'] Cons.prems ver True show ?thesis by simp
  next
    case False
    then have act: "active m p (e # es) = e # active m p es" by (simp add: active_def)
    let ?a = "slot_addr p e" and ?t = "se_elem_type e" and ?sz = "sub_ptrdiff sz (slot_addr p e) p"
    from Cons.prems(5) ver False obtain c1 where
      d: "disp env m ?t (se_elem_descriptor e) (se_nullable e) ?a ?sz nh c =
        Inr (VALIDATION_ERROR_NONE, c1)"
      and rest: "struct_validate_loop disp env m p sz nh es c1 = Inr (VALIDATION_ERROR_NONE, c')"
      by (auto simp: res_simps Let_def slot_addr_def split: if_splits)
    from forward [OF d] struct_loop_forward [OF rest] have le: "ctx_le c c1" "ctx_le c1 c'" .
    from Cons.prems(3) act have fits: "8 + unat (se_offset e) + elem_size ?t \<le> len"
      by (simp add: entry_end_def)
    then have sz: "unat ?sz = unat sz - (8 + unat (se_offset e))"
      using assms(8) by (simp add: slot_addr_def unat_sub_ptrdiff)
    have pos: "0 < elem_size ?t" using Cons.prems(2) by (cases ?t) auto
    let ?W = "claimed (slot ?t ?a) c c1" and ?V = "claimed (slots p (active m p es)) c1 c'"
    have cover: "claimed (slots p (active m p (e # es))) c c' = ?W \<union> ?V"
      using le by (auto simp: act claimed_def slots_def ctx_le_def)
    have apart: "slot ?t ?a \<inter> slots p (active m p es) = {}"
      using Cons.prems(4) by (fastforce simp: slot_def slots_def active_def slot_addr_def
          entries_apart_def entry_end_def)
    have low: "slot ?t ?a \<subseteq> {p + 8..<next_pointer c}" "slots p (active m p es) \<subseteq> {..<next_pointer c}"
      using Cons.prems(3,6) fits
      by (fastforce simp: slot_def slots_def act slot_addr_def entry_end_def)+
    then have disj: "?W \<inter> ?V = {}"
      using apart le by (fastforce simp: claimed_def ctx_le_def)
    have one: "outcome (\<lambda>H M H'. spec env m H M H' ?t (se_elem_descriptor e) ?a) ?W c c1 m' hs
      (ddisp env ?t (se_elem_descriptor e) (se_nullable e) ?a ?sz nh (m', Some hs))"
    proof (rule simulates [OF assms(1,2)])
      show "slot_ok env m ?t (se_elem_descriptor e) ?a (unat ?sz)"
        unfolding slot_ok_def sz
        using Cons.prems(2) fits assms(3,8)
          mapped_sub [OF assms(4), of ?a "unat sz - (8 + unat (se_offset e))"]
        by (auto simp: slot_addr_def)
      show "?a + unat ?sz < 2 ^ 64"
        unfolding sz using assms(5,8) fits by (simp add: slot_addr_def)
      show "?a + elem_size ?t \<le> next_pointer c" using fits Cons.prems(6) by (simp add: slot_addr_def)
      show "still m m' ?W" using Cons.prems(7) by (rule still_subset) (simp add: cover)
    qed (use Cons.prems(1,2) d in auto)
    have two: "outcome (\<lambda>H M H'. \<forall>e \<in> set (active m p es).
        spec env m H M H' (se_elem_type e) (se_elem_descriptor e) (slot_addr p e)) ?V c1 c' m1 hs1
      (struct_decode_loop ddisp env p sz nh es (m1, Some hs1))"
      if "frame m' m1 ?W" "length hs1 = length hs" for m1 hs1
    proof (rule Cons.IH [OF _ _ _ _ rest])
      show "still m m1 ?V"
        using still_subset [OF Cons.prems(7), of ?V] that(1) disj cover
        by (intro still_frame [of m m' ?V m1 ?W]) auto
      show "still m m1 {p + 4..<p + 8}"
        using Cons.prems(6,8) that(1) low fits
        by (intro still_frame [of m m' _ m1 ?W]) (auto simp: claimed_def)
      show "p + len \<le> next_pointer c1" using Cons.prems(6) le(1) by (simp add: ctx_le_def)
    qed (use Cons.prems(1-4) that(2) act in auto)
    have "struct_decode_loop ddisp env p sz nh (e # es) (m', Some hs) =
      bindR (ddisp env ?t (se_elem_descriptor e) (se_nullable e) ?a ?sz nh (m', Some hs))
        (struct_decode_loop ddisp env p sz nh es)"
      using ver False fits pos assms(8) by (simp add: slot_addr_def Let_def)
    with outcome_seq [OF one le disj two] show ?thesis
      unfolding cover by (simp add: act del: struct_decode_loop.simps)
  qed
qed

lemma struct_decodes:
  assumes "wf_env env" "flat_unions env" "p \<noteq> 0" "mapped m p (unat sz)" "p + unat sz < 2 ^ 64"
    and "unat nh \<le> length hs"
    and "MojomStruct_Validate disp env m td p sz nh c = Inr (VALIDATION_ERROR_NONE, c')"
    and "still m m' {p..<next_pointer c'}"
  shows "outcome (\<lambda>H M H'. decoded_struct (spec env m H M H') env m M td p) {p..<next_pointer c'}
      c c' m' hs (MojomStruct_DecodePointersAndHandles ddisp env td p sz nh (m', Some hs))"
  using assms(7)
proof (rule MojomStruct_Validate_NONE)
  fix d :: MojomTypeDescriptorStruct
  let ?c = "c\<lparr>next_pointer := p + unat (peek32 m p)\<rparr>" and ?act = "active m p (sd_entries d)"
  assume d: "td \<noteq> 0" "env td = Some (DescStruct d)" "8 \<le> unat sz" "unat (peek32 m p) \<le> unat sz"
    and valid: "is_valid_size_for_version (peek32 m p) (peek32 m (p + 4)) (sd_versions d)
           (of_nat (length (sd_versions d))) = Inr True"
    and loop: "struct_validate_loop disp env m p sz nh (sd_entries d) ?c =
      Inr (VALIDATION_ERROR_NONE, c')"
  note wf = wf_envD(1) [OF assms(1) d(2), unfolded wf_struct_desc_def]
  have le: "p + unat (peek32 m p) \<le> next_pointer c'"
    using struct_loop_forward [OF loop] by (simp add: ctx_le_def)
  have big: "8 \<le> unat (peek32 m p)" using valid_size_header [OF _ _ valid] wf by blast
  have fits: "\<forall>e \<in> set ?act. 8 + entry_end e \<le> unat (peek32 m p)"
    using active_entry_fits [OF _ _ valid] wf by (auto simp: active_def)
  then have sub: "claimed (slots p ?act) ?c c' \<subseteq> {p..<next_pointer c'}"
    using le by (fastforce simp: claimed_def slots_def slot_def slot_addr_def entry_end_def)
  have "outcome
     (\<lambda>H M H'. \<forall>e \<in> set ?act.
        spec env m H M H' (se_elem_type e) (se_elem_descriptor e) (slot_addr p e))
     (claimed (slots p ?act) ?c c') ?c c' m' hs
     (struct_decode_loop ddisp env p sz nh (sd_entries d) (m', Some hs))"
    by (rule struct_loop_decodes [OF assms(1-6) d(3,4) _ fits _ loop])
      (use wf big le still_subset [OF assms(8)] sub in auto)
  then have "outcome (\<lambda>H M H'. decoded_struct (spec env m H M H') env m M td p) {p..<next_pointer c'}
      ?c c' m' hs (struct_decode_loop ddisp env p sz nh (sd_entries d) (m', Some hs))"
    by (rule outcome_weaken [OF _ sub])
      (use d(2) le assms(8) in \<open>auto simp: decoded_struct_def still_def claimed_def\<close>)
  with d(1,2) assms(3) show ?thesis
    by (simp add: outcome_ctx MojomStruct_DecodePointersAndHandles_def struct_desc_def)
qed

lemma array_loop_decodes:
  assumes "wf_env env" "flat_unions env" "p \<noteq> 0" "mapped m p (unat sz)" "p + unat sz < 2 ^ 64"
    and "unat nh \<le> length hs" and "wf_array_desc env d" "ad_elem_type d \<noteq> TYPE_POD"
    and "elem_size (ad_elem_type d) = k" "unat (peek32 m (p + 4)) = num" "8 + k * num \<le> unat sz"
    and "array_validate_loop disp env m d p sz nh i c = Inr (VALIDATION_ERROR_NONE, c')"
    and "p + 8 + k * num \<le> next_pointer c"
    and "still m m' (claimed {p + 8 + k * i..<p + 8 + k * num} c c')" "still m m' {p + 4..<p + 8}"
  shows "outcome
     (\<lambda>H M H'. \<forall>j. i \<le> j \<longrightarrow> j < num \<longrightarrow>
        spec env m H M H' (ad_elem_type d) (ad_elem_descriptor d) (p + 8 + k * j))
     (claimed {p + 8 + k * i..<p + 8 + k * num} c c') c c' m' hs
     (array_decode_loop ddisp env d p sz nh i (m', Some hs))"
  using assms(6,12-)
proof (induction "num - i" arbitrary: i c m' hs rule: less_induct)
  case less
  have map4: "mapped m (p + 4) 4" using assms(4,11) by (auto elim: mapped_sub)
  have num: "array_num_elements m' p = Inr (peek32 m (p + 4))"
    using less.prems(5) map4 still_mapped [OF less.prems(5)] still_peek32 [OF less.prems(5), of "p + 4"]
    by (auto simp: layout_defs load32_eq)
  from less.prems(2) show ?case
  proof (cases rule: array_validate_loop_NONE)
    case 1
    with assms(10) num show ?thesis
      by (subst array_decode_loop.simps) (auto simp: claimed_def intro!: outcome_return)
  next
    case (2 a c1)
    let ?t = "ad_elem_type d" and ?a = "p + 8 + k * i" and ?sz = "sz - of_nat (8 + k * i)"
    from 2(3) assms(7-9) have a: "a = ?a"
      by (simp add: array_index_by_type_eq wf_array_desc_def)
    from forward [OF 2(4)] array_loop_forward [OF 2(5)] have le: "ctx_le c c1" "ctx_le c1 c'" .
    have pos: "0 < k" using assms(8,9) by (cases ?t) auto
    have "k * Suc i \<le> k * num" using 2(2) assms(10) by (intro mult_le_mono2) simp
    then have room: "k * i + k \<le> k * num" by simp
    then have sz: "unat ?sz = unat sz - (8 + k * i)"
      using assms(11) by (intro unat_minus_of_nat) simp
    let ?W = "claimed (slot ?t ?a) c c1" and ?V = "claimed {p + 8 + k * Suc i..<p + 8 + k * num} c1 c'"
    have cover: "claimed {p + 8 + k * i..<p + 8 + k * num} c c' = ?W \<union> ?V"
      using le room assms(9) by (auto simp: claimed_def slot_def ctx_le_def)
    have low: "slot ?t ?a \<subseteq> {p + 8..<p + 8 + k * Suc i}" "p + 8 + k * Suc i \<le> next_pointer c"
      using room less.prems(3) assms(9) by (auto simp: slot_def)
    then have disj: "?W \<inter> ?V = {}"
      using le less.prems(3) by (fastforce simp: claimed_def ctx_le_def)
    have one: "outcome (\<lambda>H M H'. spec env m H M H' ?t (ad_elem_descriptor d) ?a) ?W c c1 m' hs
      (ddisp env ?t (ad_elem_descriptor d) (ad_nullable d) ?a ?sz nh (m', Some hs))"
    proof (rule simulates [OF assms(1,2)])
      show "slot_ok env m ?t (ad_elem_descriptor d) ?a (unat ?sz)"
        unfolding slot_ok_def sz
        using assms(3,7,9,11) room mapped_sub [OF assms(4), of ?a "unat sz - (8 + k * i)"]
        by (auto simp: wf_array_desc_def)
      show "?a + unat ?sz < 2 ^ 64" unfolding sz using assms(5,11) room by simp
      show "?a + elem_size ?t \<le> next_pointer c" using room less.prems(3) assms(9) by simp
      show "still m m' ?W" using less.prems(4) by (rule still_subset) (simp add: cover)
      show "disp env m ?t (ad_elem_descriptor d) (ad_nullable d) ?a ?sz nh c =
        Inr (VALIDATION_ERROR_NONE, c1)" using 2(4) by (simp add: a add.assoc)
    qed (use less.prems(1) assms(8) in auto)
    have two: "outcome (\<lambda>H M H'. \<forall>j. Suc i \<le> j \<longrightarrow> j < num \<longrightarrow>
        spec env m H M H' ?t (ad_elem_descriptor d) (p + 8 + k * j)) ?V c1 c' m1 hs1
      (array_decode_loop ddisp env d p sz nh (Suc i) (m1, Some hs1))"
      if "frame m' m1 ?W" "length hs1 = length hs" for m1 hs1
    proof (rule less.hyps [OF _ _ 2(5)])
      show "still m m1 ?V"
        using still_subset [OF less.prems(4), of ?V] that(1) disj cover
        by (intro still_frame [of m m' ?V m1 ?W]) auto
      show "still m m1 {p + 4..<p + 8}"
        using less.prems(3,5) that(1) low
        by (intro still_frame [of m m' _ m1 ?W]) (auto simp: claimed_def)
      show "p + 8 + k * num \<le> next_pointer c1" using less.prems(3) le(1) by (simp add: ctx_le_def)
    qed (use less.prems(1) that(2) 2(2) assms(10) in auto)
    have eq: "array_decode_loop ddisp env d p sz nh i (m', Some hs) =
      bindR (ddisp env ?t (ad_elem_descriptor d) (ad_nullable d) ?a ?sz nh (m', Some hs))
        (array_decode_loop ddisp env d p sz nh (Suc i))"
      using num 2(2,3) a pos room assms(11)
      by (subst array_decode_loop.simps) (simp add: add.assoc)
    show ?thesis
      unfolding cover eq
      by (rule outcome_weaken [OF outcome_seq [OF one le disj two] subset_refl], assumption+)
        (rule all_from_Suc, simp_all)
  qed
qed

lemma array_decodes:
  assumes "wf_env env" "flat_unions env" "p \<noteq> 0" "mapped m p (unat sz)" "p + unat sz < 2 ^ 64"
    and "unat nh \<le> length hs"
    and "MojomArray_Validate disp env m td p sz nh c = Inr (VALIDATION_ERROR_NONE, c')"
    and "still m m' {p..<next_pointer c'}"
  shows "outcome (\<lambda>H M H'. decoded_array (spec env m H M H') env m M td p) {p..<next_pointer c'}
      c c' m' hs (MojomArray_DecodePointersAndHandles ddisp env td p sz nh (m', Some hs))"
  using assms(7)
proof (rule MojomArray_Validate_NONE)
  fix d :: MojomTypeDescriptorArray
  let ?c = "c\<lparr>next_pointer := p + unat (peek32 m p)\<rparr>" and ?k = "elem_size (ad_elem_type d)"
  let ?num = "unat (peek32 m (p + 4))"
  assume d: "td \<noteq> 0" "env td = Some (DescArray d)"
    and hdr: "validate_array_header d m p sz = Inr VALIDATION_ERROR_NONE"
    and pod: "ad_elem_type d = TYPE_POD \<Longrightarrow> c' = ?c"
    and loop: "ad_elem_type d \<noteq> TYPE_POD \<Longrightarrow>
      array_validate_loop disp env m d p sz nh 0 ?c = Inr (VALIDATION_ERROR_NONE, c')"
  note wf = wf_envD(3) [OF assms(1) d(2)]
  note big = validate_array_header_NONE(2,3) [OF hdr] validate_array_header_NONE(4) [OF hdr wf]
  have le: "p + unat (peek32 m p) \<le> next_pointer c'"
    using array_forward [OF assms(7)] by (simp add: ctx_le_def)
  have eq: "MojomArray_DecodePointersAndHandles ddisp env td p sz nh (m', Some hs) =
      (if ad_elem_type d = TYPE_POD then Inr (m', Some hs)
       else array_decode_loop ddisp env d p sz nh 0 (m', Some hs))"
    using d assms(3) by (simp add: MojomArray_DecodePointersAndHandles_def array_desc_def)
  show ?thesis
  proof (cases "ad_elem_type d = TYPE_POD")
    case True
    then have "outcome (\<lambda>H M H'. decoded_array (spec env m H M H') env m M td p)
        {p..<next_pointer c'} ?c ?c m' hs (Inr (m', Some hs))"
      using d(2) assms(8) pod [OF True]
      by (intro outcome_return) (auto simp: decoded_array_def still_def Let_def)
    with True pod show ?thesis by (simp add: eq outcome_ctx)
  next
    case False
    let ?W = "claimed {p + 8 + ?k * 0..<p + 8 + ?k * ?num} ?c c'"
    have sub: "?W \<subseteq> {p..<next_pointer c'}" using big(3) [OF False] le by (auto simp: claimed_def)
    have "outcome (\<lambda>H M H'. \<forall>j. 0 \<le> j \<longrightarrow> j < ?num \<longrightarrow>
        spec env m H M H' (ad_elem_type d) (ad_elem_descriptor d) (p + 8 + ?k * j))
        ?W ?c c' m' hs (array_decode_loop ddisp env d p sz nh 0 (m', Some hs))"
      by (rule array_loop_decodes [OF assms(1-6) wf False refl refl _ loop [OF False]])
        (use big False le still_subset [OF assms(8)] sub in auto)
    then have "outcome (\<lambda>H M H'. decoded_array (spec env m H M H') env m M td p)
        {p..<next_pointer c'} ?c c' m' hs (array_decode_loop ddisp env d p sz nh 0 (m', Some hs))"
      by (rule outcome_weaken [OF _ sub])
        (use d(2) le assms(8) in \<open>auto simp: decoded_array_def still_def claimed_def Let_def\<close>)
    with False show ?thesis by (simp add: eq outcome_ctx)
  qed
qed

lemma union_loop_decodes:
  assumes "union_validate_loop disp env m nl u sz nh es c = Inr (VALIDATION_ERROR_NONE, c')"
    and "union_tag m' u = Inr (peek32 m (u + 4))" "union_tag m u = Inr (peek32 m (u + 4))"
    and "\<forall>e \<in> set es. ue_elem_type e \<noteq> TYPE_POD \<longrightarrow>
      disp env m (ue_elem_type e) (ue_elem_descriptor e) (ue_nullable e) (u + 8) (sz - 8) nh c =
        Inr (VALIDATION_ERROR_NONE, c') \<longrightarrow>
      outcome (P e) (claimed (slot (ue_elem_type e) (u + 8)) c c') c c' m' hs
        (ddisp env (ue_elem_type e) (ue_elem_descriptor e) (ue_nullable e) (u + 8) (sz - 8) nh (m', Some hs))"
  shows "case find (\<lambda>e. ue_tag e = peek32 m (u + 4)) es of
      None \<Rightarrow> c' = c \<and> union_decode_loop ddisp env u sz nh es (m', Some hs) = Inr (m', Some hs)
    | Some e \<Rightarrow>
        (if ue_elem_type e = TYPE_POD
         then c' = c \<and> union_decode_loop ddisp env u sz nh es (m', Some hs) = Inr (m', Some hs)
         else outcome (P e) (claimed (slot (ue_elem_type e) (u + 8)) c c') c c' m' hs
           (union_decode_loop ddisp env u sz nh es (m', Some hs)))"
  using assms(1,4)
proof (induction es)
  case (Cons e es)
  show ?case
  proof (cases "ue_tag e = peek32 m (u + 4)")
    case True
    with Cons.prems assms(2,3) show ?thesis
      by (cases "ue_elem_type e = TYPE_POD")
        (simp_all add: union_data_def res_simps split: if_splits, blast)
  next
    case False
    with Cons.prems(1) assms(3) have rest: "union_validate_loop disp env m nl u sz nh es c =
        Inr (VALIDATION_ERROR_NONE, c')" by simp
    have step: "union_decode_loop ddisp env u sz nh (e # es) (m', Some hs) =
        union_decode_loop ddisp env u sz nh es (m', Some hs)" using False assms(2) by simp
    show ?thesis
      by (simp only: find.simps False if_False step, rule Cons.IH [OF rest])
        (use Cons.prems(2) in simp)
  qed
qed simp

lemma union_decodes:
  assumes "wf_env env" "flat_unions env" "env td = Some (DescUnion d)" "u \<noteq> 0"
    and "mapped m u (unat sz)" "16 \<le> unat sz" "u + unat sz < 2 ^ 64" "unat nh \<le> length hs"
    and "MojomUnion_Validate disp env m td nl u sz nh c = Inr (VALIDATION_ERROR_NONE, c')"
    and "u + 16 \<le> next_pointer c" and "still m m' (claimed {u..<u + 16} c c')"
  shows "outcome (\<lambda>H M H'. decoded_union (spec env m H M H') env m M td u) (claimed {u..<u + 16} c c')
      c c' m' hs (MojomUnion_DecodePointersAndHandles ddisp env td u sz nh (m', Some hs))"
proof -
  let ?W = "claimed {u..<u + 16} c c'"
  let ?loop = "union_decode_loop ddisp env u sz nh (ud_entries d) (m', Some hs)"
  let ?P = "\<lambda>e H M H'. spec env m H M H' (ue_elem_type e) (ue_elem_descriptor e) (u + 8)"
  have loop: "union_validate_loop disp env m nl u sz nh (ud_entries d) c =
      Inr (VALIDATION_ERROR_NONE, c')"
    and eq: "MojomUnion_DecodePointersAndHandles ddisp env td u sz nh (m', Some hs) = ?loop"
    using assms(3,6,9) by (auto simp: MojomUnion_Validate_def MojomUnion_DecodePointersAndHandles_def
        union_desc_def)
  have tag: "union_tag m u = Inr (peek32 m (u + 4))" "union_tag m' u = Inr (peek32 m (u + 4))"
    using mapped_sub [OF assms(5), of "u + 4" 4] assms(6) still_mapped [OF assms(11)]
      still_peek32 [OF still_subset [OF assms(11)], of "{u..<u + 16}" "u + 4"]
    by (auto simp: layout_defs load32_eq claimed_def)
  have sz: "unat (sz - 8) = unat sz - 8"
    using unat_minus_of_nat [of 8 sz] assms(6) by simp
  have small: "slot (ue_elem_type e) (u + 8) \<subseteq> {u + 8..<u + 16}" if "e \<in> set (ud_entries d)" for e
    using wf_envD(2) [OF assms(1,3)] that
    by (cases "ue_elem_type e") (auto simp: wf_union_desc_def slot_def)
  have field: "outcome (?P e) (claimed (slot (ue_elem_type e) (u + 8)) c c') c c' m' hs
        (ddisp env (ue_elem_type e) (ue_elem_descriptor e) (ue_nullable e) (u + 8) (sz - 8) nh (m', Some hs))"
    if e: "e \<in> set (ud_entries d)" "ue_elem_type e \<noteq> TYPE_POD"
      and ok: "disp env m (ue_elem_type e) (ue_elem_descriptor e) (ue_nullable e) (u + 8) (sz - 8) nh c =
        Inr (VALIDATION_ERROR_NONE, c')" for e
  proof (rule simulates [OF assms(1,2) _ e(2) _ assms(8) ok])
    have "elem_size (ue_elem_type e) \<le> 8"
      using wf_envD(2) [OF assms(1,3)] e(1) by (cases "ue_elem_type e") (auto simp: wf_union_desc_def)
    then show "u + 8 + elem_size (ue_elem_type e) \<le> next_pointer c"
      "slot_ok env m (ue_elem_type e) (ue_elem_descriptor e) (u + 8) (unat (sz - 8))"
      using assms(3,6,10) e wf_envD(2) [OF assms(1,3)] assms(2)
        mapped_sub [OF assms(5), of "u + 8" "unat sz - 8"]
      by (auto simp: slot_ok_def sz wf_union_desc_def flat_unions_def)
    show "u + 8 + unat (sz - 8) < 2 ^ 64" using assms(6,7) by (simp add: sz)
    show "still m m' (claimed (slot (ue_elem_type e) (u + 8)) c c')"
      using assms(11) by (rule still_subset) (use small [OF e(1)] in \<open>fastforce simp: claimed_def\<close>)
  qed
  have res: "case find (\<lambda>e. ue_tag e = peek32 m (u + 4)) (ud_entries d) of
      None \<Rightarrow> c' = c \<and> ?loop = Inr (m', Some hs)
    | Some e \<Rightarrow>
        (if ue_elem_type e = TYPE_POD then c' = c \<and> ?loop = Inr (m', Some hs)
         else outcome (?P e) (claimed (slot (ue_elem_type e) (u + 8)) c c') c c' m' hs ?loop)"
    by (rule union_loop_decodes [OF loop tag(2,1)]) (intro ballI impI, rule field)
  show ?thesis
  proof (cases "find (\<lambda>e. ue_tag e = peek32 m (u + 4)) (ud_entries d)")
    case None
    with res assms(3,11) show ?thesis unfolding eq
      by (auto simp: decoded_union_def still_def claimed_def intro!: outcome_return)
  next
    case (Some e)
    then have "e \<in> set (ud_entries d)" by (auto simp: find_Some_iff)
    note small = small [OF this]
    show ?thesis
    proof (cases "ue_elem_type e = TYPE_POD")
      case True
      with Some res assms(3,11) show ?thesis unfolding eq
        by (auto simp: decoded_union_def still_def claimed_def intro!: outcome_return)
    next
      case False
      with Some res have "outcome (?P e) (claimed (slot (ue_elem_type e) (u + 8)) c c') c c' m' hs ?loop"
        by simp
      then show ?thesis unfolding eq
        by (rule outcome_weaken)
          (use Some small assms(3,10,11) in \<open>fastforce simp: decoded_union_def still_def claimed_def\<close>)+
    qed
  qed
qed

end

section \<open>The decoder meets its contract\<close>

lemma size_minus_offset_eq:
  "unat off \<le> unat sz \<Longrightarrow> sub_ptrdiff sz (a + unat off) a = size_minus_offset sz off"
  by (simp only: sub_ptrdiff_add word_unat_eq_iff unat_size_minus_offset unat_minus_of_nat)

lemma accepted_array_size:
  assumes "MojomArray_Validate disp env m td p sz nh ctx = Inr (VALIDATION_ERROR_NONE, ctx')"
  shows "8 \<le> unat sz"
  using assms by (rule MojomArray_Validate_NONE) (meson validate_array_header_NONE(2,3) le_trans)

lemma frame_poke:
  assumes "mapped m a (length bs)" "{a..<a + length bs} \<subseteq> W"
  shows "frame m (poke m a bs) W"
proof -
  have "poke m a bs x = m x" if "x \<notin> W" for x
    using assms(2) that by (intro poke_outside) (meson atLeastLessThan_iff not_less subsetD)
  with assms(1) show ?thesis by (simp add: frame_def dom_poke)
qed

lemma outcome_poke:
  assumes "mapped m a (length bs)" "{a..<a + length bs} \<subseteq> W"
    and "\<And>M H H'. (\<forall>x \<in> W. M x = poke m a bs x) \<Longrightarrow> P H M H'"
  shows "outcome P W c c m hs (Inr (poke m a bs, Some hs))"
  using assms frame_poke [OF assms(1,2)] by (auto simp: outcome_def hkeep_def)

lemma peek64_cong: "\<forall>x \<in> {a..<a + 8}. m x = m' x \<Longrightarrow> peek64 m a = peek64 m' a"
  by (intro agree_peek64) (simp add: agree_def)

lemma peek32_cong: "\<forall>x \<in> {a..<a + 4}. m x = m' x \<Longrightarrow> peek32 m a = peek32 m' a"
  by (intro agree_peek32) (simp add: agree_def)

lemma decode_pointer_eq:
  assumes "mapped m a 8"
  shows "decode_pointer m a =
    Inr (poke m a (bytes_of_word 8 (if peek64 m a = 0 then 0 else of_nat (target m a) :: u64)))"
  using assms by (simp add: decode_pointer_def layout_defs load64_eq store64_eq target_def
      del: of_nat_add)

lemma decode_null_pointer:
  assumes "mapped m a 8" "peek64 m a = 0" "a \<noteq> 0"
    and "t = TYPE_STRUCT_PTR \<or> t = TYPE_MAP_PTR \<or> t = TYPE_ARRAY_PTR"
  shows "MojomType_DispatchDecodePointersAndHandles (Suc n) env t r True a sz nh (m, hs) =
    Inr (poke m a (bytes_of_word 8 (0 :: u64)), hs)"
  using assms decode_pointer_eq [OF assms(1)]
  by (auto simp: Let_def pointer_ptr_def load64_eq mapped_poke simp del: bytes_of_word.simps)

lemma decode_nonnull_pointer:
  assumes "mapped m a 8" "peek64 m a \<noteq> 0" "a \<noteq> 0" "target m a < a + unat sz" "a + unat sz < 2 ^ 64"
    and "t = TYPE_STRUCT_PTR \<or> t = TYPE_MAP_PTR \<or> t = TYPE_ARRAY_PTR"
  shows "MojomType_DispatchDecodePointersAndHandles (Suc n) env t r nl a sz nh (m, hs) =
    (if t = TYPE_ARRAY_PTR then MojomArray_DecodePointersAndHandles
     else MojomStruct_DecodePointersAndHandles)
      (MojomType_DispatchDecodePointersAndHandles n) env r (target m a)
      (size_minus_offset sz (peek64 m a)) nh
      (poke m a (bytes_of_word 8 (of_nat (target m a) :: u64)), hs)"
proof -
  have "unat (of_nat (target m a) :: u64) = target m a"
    using assms(4,5) by (simp add: unat_of_nat)
  moreover have "unat (peek64 m a) \<le> unat sz" "target m a \<noteq> 0"
    using assms(3,4) by (simp_all add: target_def)
  ultimately show ?thesis
    using assms decode_pointer_eq [OF assms(1)]
    by (auto simp: Let_def pointer_ptr_def load64_eq mapped_poke target_def
        size_minus_offset_eq [symmetric, of _ _ a] simp del: bytes_of_word.simps of_nat_add sub_ptrdiff_add)
qed

lemma pointer_simulates:
  assumes IH: "decode_dispatcher (MojomType_DispatchValidate n) n
      (MojomType_DispatchDecodePointersAndHandles n) (decoded n)"
    and wf: "wf_env env" "flat_unions env" and slot: "slot_ok env m t r a (unat sz)"
    and t: "t = TYPE_STRUCT_PTR \<or> t = TYPE_MAP_PTR \<or> t = TYPE_ARRAY_PTR"
    and sz: "a + unat sz < 2 ^ 64" and nh: "unat nh \<le> length hs"
    and ok: "MojomType_DispatchValidate (Suc n) env m t r nl a sz nh c = Inr (VALIDATION_ERROR_NONE, c')"
    and low: "a + elem_size t \<le> next_pointer c" and m': "still m m' (claimed (slot t a) c c')"
  shows "outcome (\<lambda>H M H'. decoded (Suc n) env m H M H' t r a) (claimed (slot t a) c c') c c' m' hs
    (MojomType_DispatchDecodePointersAndHandles (Suc n) env t r nl a sz nh (m', Some hs))"
proof -
  from t have eight: "elem_size t = 8" by auto
  then have slot8: "slot t a = {a..<a + 8}" by (simp add: slot_def)
  have a8: "peek64 m' a = peek64 m a"
    using m' by (rule still_peek64) (auto simp: slot8 claimed_def)
  note map_eq = still_mapped [OF m']
  from ok t show ?thesis
  proof (cases rule: DispatchValidate_pointer_NONE)
    case 1
    have "outcome (\<lambda>H M H'. decoded (Suc n) env m H M H' t r a) (claimed (slot t a) c c) c c m' hs
        (Inr (poke m' a (bytes_of_word 8 (0 :: u64)), Some hs))"
    proof (rule outcome_poke)
      fix M H H' assume "\<forall>x \<in> claimed (slot t a) c c. M x = poke m' a (bytes_of_word 8 (0 :: u64)) x"
      then have "peek64 M a = 0"
        by (simp add: claimed_def slot8 peek64_cong [of a M "poke m' a (bytes_of_word 8 (0 :: u64))"])
      with 1(3) t show "decoded (Suc n) env m H M H' t r a" by (auto simp: Let_def)
    qed (use 1(2) map_eq slot8 in \<open>auto simp: claimed_def\<close>)
    with 1 t a8 map_eq show ?thesis
      by (simp add: decode_null_pointer del: MojomType_DispatchDecodePointersAndHandles.simps decoded.simps)
  next
    case 2
    let ?p = "target m a" and ?c = "c\<lparr>next_pointer := target m a\<rparr>"
    let ?m = "poke m' a (bytes_of_word 8 (of_nat ?p :: u64))"
    let ?sz = "size_minus_offset sz (peek64 m a)"
    let ?val = "if t = TYPE_ARRAY_PTR then MojomArray_Validate else MojomStruct_Validate"
    let ?dec = "if t = TYPE_ARRAY_PTR then MojomArray_DecodePointersAndHandles
      else MojomStruct_DecodePointersAndHandles"
    let ?spec = "if t = TYPE_ARRAY_PTR then decoded_array else decoded_struct"
    have acc: "?val (MojomType_DispatchValidate n) env m r ?p ?sz nh ?c = Inr (VALIDATION_ERROR_NONE, c')"
      using 2(7) by (simp add: target_def)
    have szo: "unat ?sz = unat sz - unat (peek64 m a)" using 2(5) by (rule unat_size_minus_offset)
    have "8 \<le> unat ?sz"
      using acc by (auto split: if_splits dest: accepted_array_size elim: MojomStruct_Validate_NONE)
    with szo have in_buf: "?p < a + unat sz" by (simp add: target_def)
    have p: "?p \<noteq> 0" "mapped m ?p (unat ?sz)" "?p + unat ?sz < 2 ^ 64"
      using 2(1,5) slot sz mapped_sub [of m a "unat sz" ?p "unat ?sz"]
      by (auto simp: szo target_def slot_ok_def)
    have le: "ctx_le c ?c" "ctx_le ?c c'" "?p \<le> next_pointer c'"
      using 2(4) validate_dispatcher.struct_forward [OF DispatchValidate_dispatcher, of n env m r ?p ?sz nh ?c c']
        validate_dispatcher.array_forward [OF DispatchValidate_dispatcher, of n env m r ?p ?sz nh ?c c'] acc
      by (auto simp: ctx_le_def target_def split: if_splits)
    have cover: "slot t a \<union> {?p..<next_pointer c'} \<subseteq> claimed (slot t a) c c'"
      using 2(4) by (auto simp: claimed_def target_def)
    have disj: "slot t a \<inter> {?p..<next_pointer c'} = {}"
      using 2(4) low eight by (auto simp: slot8 target_def)
    have first: "outcome (\<lambda>H M H'. unat (peek64 M a) = ?p) (slot t a) c ?c m' hs (Inr (?m, Some hs))"
      unfolding outcome_ctx
    proof (rule outcome_poke)
      show "unat (peek64 M a) = ?p" if "\<forall>x \<in> slot t a. M x = ?m x" for M
        using that in_buf sz by (simp add: slot8 peek64_cong [of a M ?m] unat_of_nat)
    qed (use 2(2) map_eq slot8 in auto)
    have inner: "outcome (\<lambda>H M H'. ?spec (decoded n env m H M H') env m M r ?p) {?p..<next_pointer c'}
        ?c c' m1 hs1 (?dec (MojomType_DispatchDecodePointersAndHandles n) env r ?p ?sz nh (m1, Some hs1))"
      if "frame m' m1 (slot t a)" "length hs1 = length hs" for m1 hs1
    proof -
      have "still m m1 {?p..<next_pointer c'}"
        by (rule still_frame [OF still_subset [OF m'] that(1)]) (use cover disj in auto)
      with acc that(2) nh show ?thesis
        using decode_dispatcher.array_decodes [OF IH wf p, of nh hs1 r ?c c' m1]
          decode_dispatcher.struct_decodes [OF IH wf p, of nh hs1 r ?c c' m1]
        by (simp split: if_splits)
    qed
    have "MojomType_DispatchDecodePointersAndHandles (Suc n) env t r nl a sz nh (m', Some hs) =
        bindR (Inr (?m, Some hs)) (?dec (MojomType_DispatchDecodePointersAndHandles n) env r ?p ?sz nh)"
      using decode_nonnull_pointer [of m' a sz t n env r nl nh "Some hs"] 2 a8 map_eq t in_buf sz
      by (simp add: target_def del: MojomType_DispatchDecodePointersAndHandles.simps)
    moreover have "outcome (\<lambda>H M H'. decoded (Suc n) env m H M H' t r a) (claimed (slot t a) c c') c c' m' hs
        (bindR (Inr (?m, Some hs)) (?dec (MojomType_DispatchDecodePointersAndHandles n) env r ?p ?sz nh))"
      by (rule outcome_weaken [OF outcome_seq [OF first le(1,2) disj inner] cover], assumption+)
        (use 2(3) t in \<open>auto simp: Let_def\<close>)
    ultimately show ?thesis by simp
  qed
qed

lemma handle_simulates:
  assumes t: "t = TYPE_HANDLE \<or> t = TYPE_INTERFACE" and nh: "unat nh \<le> length hs"
    and ok: "MojomType_DispatchValidate (Suc n) env m t r nl a sz nh c = Inr (VALIDATION_ERROR_NONE, c')"
    and m': "still m m' (claimed (slot t a) c c')"
  shows "outcome (\<lambda>H M H'. decoded (Suc n) env m H M H' t r a) (claimed (slot t a) c c') c c' m' hs
    (MojomType_DispatchDecodePointersAndHandles (Suc n) env t r nl a sz nh (m', Some hs))"
proof -
  note ok = DispatchValidate_handle_NONE [OF ok t]
  note vh = validate_handle_NONE [OF ok(3)]
  have sub: "{a..<a + 4} \<subseteq> claimed (slot t a) c c'" using t by (auto simp: claimed_def slot_def)
  have a4: "load32 m' a = Inr (peek32 m a)"
    using still_peek32 [OF m' sub] still_mapped [OF m'] ok(2) by (simp add: load32_eq)
  have st: "store32 m' a w = Inr (poke m' a (bytes_of_word 4 w))" for w
    using still_mapped [OF m'] ok(2) by (simp add: store32_eq)
  have eq: "MojomType_DispatchDecodePointersAndHandles (Suc n) env t r nl a sz nh (m', Some hs) =
      decode_handle a nh (m', Some hs)"
    using t ok(1) by (auto simp: Let_def)
  have peek: "peek32 M a = w" if "\<forall>x \<in> claimed (slot t a) c c'. M x = poke m' a (bytes_of_word 4 w) x"
    for M and w :: u32
    using that sub by (subst peek32_cong [of a M "poke m' a (bytes_of_word 4 w)"]) auto
  have dec: "decoded (Suc n) env m H M H' t r a"
    if "if peek32 m a = kEncodedHandleInvalid then peek32 M a = MOJO_HANDLE_INVALID
        else peek32 M a = H ! unat (peek32 m a) \<and> H' ! unat (peek32 m a) = MOJO_HANDLE_INVALID"
    for H M H' using that t by (auto simp: Let_def)
  show ?thesis
  proof (cases "peek32 m a = kEncodedHandleInvalid")
    case True
    with vh(1) have "c' = c" by simp
    moreover have "outcome (\<lambda>H M H'. decoded (Suc n) env m H M H' t r a) (claimed (slot t a) c c') c c m' hs
        (Inr (poke m' a (bytes_of_word 4 MOJO_HANDLE_INVALID), Some hs))"
      using True peek ok(2) still_mapped [OF m'] sub
      by (intro outcome_poke dec) (simp_all del: decoded.simps)
    ultimately show ?thesis
      unfolding eq using True ok(1) a4 st by (simp add: decode_handle_def del: decoded.simps)
  next
    case False
    let ?i = "peek32 m a" let ?h = "hs ! unat (peek32 m a)"
    from vh(2) [OF False] have i: "?i < nh" "next_handle_index c \<le> ?i"
      "next_handle_index c' = ?i + 1" "unat (?i + 1) = unat ?i + 1" by simp_all
    then have bnd: "unat ?i < length hs" "unat (next_handle_index c) \<le> unat ?i"
      using nh by (simp_all add: word_less_nat_alt word_le_nat_alt)
    let ?m = "poke m' a (bytes_of_word 4 ?h)" and ?hs = "hs[unat ?i := MOJO_HANDLE_INVALID]"
    have "decode_handle a nh (m', Some hs) = Inr (?m, Some ?hs)"
      using False ok(1) a4 st i(1) bnd(1) by (simp add: decode_handle_def)
    moreover have "frame m' ?m (claimed (slot t a) c c')"
      using sub ok(2) still_mapped [OF m'] by (intro frame_poke) auto
    moreover have "hkeep hs ?hs (next_handle_index c) (next_handle_index c')"
      using i bnd by (auto simp: hkeep_def nth_list_update)
    moreover have "decoded (Suc n) env m H M H' t r a"
      if "\<forall>x \<in> claimed (slot t a) c c'. M x = ?m x" "hsame H hs (next_handle_index c) (next_handle_index c')"
        "hsame H' ?hs (next_handle_index c) (next_handle_index c')" for M H H'
      using that peek i bnd False by (intro dec) (simp add: hsame_def)
    ultimately show ?thesis unfolding eq outcome_def by (simp del: decoded.simps)
  qed
qed

lemma union_simulates:
  assumes IH: "decode_dispatcher (MojomType_DispatchValidate n) n
      (MojomType_DispatchDecodePointersAndHandles n) (decoded n)"
    and wf: "wf_env env" "flat_unions env" and slot: "slot_ok env m TYPE_UNION r a (unat sz)"
    and sz: "a + unat sz < 2 ^ 64" and nh: "unat nh \<le> length hs"
    and ok: "MojomType_DispatchValidate (Suc n) env m TYPE_UNION r nl a sz nh c =
      Inr (VALIDATION_ERROR_NONE, c')"
    and low: "a + 16 \<le> next_pointer c" and m': "still m m' (claimed {a..<a + 16} c c')"
  shows "outcome (\<lambda>H M H'. decoded (Suc n) env m H M H' TYPE_UNION r a) (claimed {a..<a + 16} c c')
    c c' m' hs
    (MojomType_DispatchDecodePointersAndHandles (Suc n) env TYPE_UNION r nl a sz nh (m', Some hs))"
proof -
  from slot obtain d where d: "env r = Some (DescUnion d)" "16 \<le> unat sz" "mapped m a (unat sz)" "a \<noteq> 0"
    by (auto simp: slot_ok_def wf_ref_simps)
  have a4: "union_size m' a = Inr (peek32 m a)" if "mapped m a 4"
    using that still_mapped [OF m'] still_peek32 [OF still_subset [OF m'], of "{a..<a + 16}" a]
    by (auto simp: union_size_def load32_eq claimed_def)
  from ok show ?thesis
  proof (cases rule: DispatchValidate_union_NONE)
    case 1
    with a4 have "MojomType_DispatchDecodePointersAndHandles (Suc n) env TYPE_UNION r nl a sz nh
        (m', Some hs) = Inr (m', Some hs)"
      by (simp add: Let_def union_present_def)
    with 1 m' show ?thesis
      by (auto simp: Let_def claimed_def still_def intro!: outcome_return
          simp del: MojomType_DispatchDecodePointersAndHandles.simps)
  next
    case 2
    with a4 have "MojomType_DispatchDecodePointersAndHandles (Suc n) env TYPE_UNION r nl a sz nh
        (m', Some hs) = MojomUnion_DecodePointersAndHandles
          (MojomType_DispatchDecodePointersAndHandles n) env r a sz nh (m', Some hs)"
      by (simp add: Let_def union_present_def)
    moreover from decode_dispatcher.union_decodes [OF IH wf d(1,4,3,2) sz nh 2(4) low m'] 2(3)
    have "outcome (\<lambda>H M H'. decoded (Suc n) env m H M H' TYPE_UNION r a) (claimed {a..<a + 16} c c')
        c c' m' hs (MojomUnion_DecodePointersAndHandles
          (MojomType_DispatchDecodePointersAndHandles n) env r a sz nh (m', Some hs))"
      by (simp add: Let_def)
    ultimately show ?thesis by (simp del: MojomType_DispatchDecodePointersAndHandles.simps decoded.simps)
  qed
qed

lemma decode_dispatcher_step:
  assumes IH: "decode_dispatcher (MojomType_DispatchValidate n) n
      (MojomType_DispatchDecodePointersAndHandles n) (decoded n)"
  shows "decode_dispatcher (MojomType_DispatchValidate (Suc n)) (Suc n)
      (MojomType_DispatchDecodePointersAndHandles (Suc n)) (decoded (Suc n))"
proof (intro decode_dispatcher.intro decode_dispatcher_axioms.intro)
  show "validate_dispatcher (MojomType_DispatchValidate (Suc n)) (Suc n)"
    by (rule DispatchValidate_dispatcher)
next
  fix env m t r a nh nl c c' m' and sz :: u32 and hs :: "MojoHandle list"
  assume wf: "wf_env env" "flat_unions env" and slot: "slot_ok env m t r a (unat sz)"
    and t: "t \<noteq> TYPE_POD" and sz: "a + unat sz < 2 ^ 64" and nh: "unat nh \<le> length hs"
    and ok: "MojomType_DispatchValidate (Suc n) env m t r nl a sz nh c =
      Inr (VALIDATION_ERROR_NONE, c')"
    and low: "a + elem_size t \<le> next_pointer c" and m': "still m m' (claimed (slot t a) c c')"
  consider (ptr) "t = TYPE_STRUCT_PTR \<or> t = TYPE_MAP_PTR \<or> t = TYPE_ARRAY_PTR"
    | (handle) "t = TYPE_HANDLE \<or> t = TYPE_INTERFACE" | (union) "t = TYPE_UNION"
    using t slot by (cases t) (auto simp: slot_ok_def)
  then show "outcome (\<lambda>H M H'. decoded (Suc n) env m H M H' t r a) (claimed (slot t a) c c') c c' m' hs
    (MojomType_DispatchDecodePointersAndHandles (Suc n) env t r nl a sz nh (m', Some hs))"
  proof cases
    case ptr
    from pointer_simulates [OF IH wf slot this sz nh ok low m'] show ?thesis .
  next
    case handle
    from handle_simulates [OF this nh ok m'] show ?thesis .
  next
    case union
    have "slot TYPE_UNION a = {a..<a + 16}" by (simp add: slot_def)
    with union_simulates [OF IH wf slot [unfolded union] sz nh ok [unfolded union]] low m'
    show ?thesis unfolding union
      by (simp del: decoded.simps MojomType_DispatchDecodePointersAndHandles.simps)
  qed
qed

lemma DispatchDecode_dispatcher:
  "decode_dispatcher (MojomType_DispatchValidate n) n
     (MojomType_DispatchDecodePointersAndHandles n) (decoded n)"
proof (induction n)
  case 0
  show ?case
    by (intro decode_dispatcher.intro decode_dispatcher_axioms.intro DispatchValidate_dispatcher) simp
next
  case (Suc n)
  then show ?case by (rule decode_dispatcher_step)
qed

interpretation dd: decode_dispatcher "MojomType_DispatchValidate n" n
    "MojomType_DispatchDecodePointersAndHandles n" "decoded n" for n
  by (rule DispatchDecode_dispatcher)

section \<open>Properties\<close>



end
