(* ===== verification/Mojom_Map.thy ===== *)
theory Mojom_Map
  imports Mojom_Validation
begin

text \<open>
  Maps: an accepted map has as many keys as values, and the two arrays do not overlap.
\<close>

text \<open>
  Claim C5. When a map field is accepted and not null, the array of keys and the array of values that its
  two pointers lead to have the same number of elements, and the values begin after the keys end.
\<close>

theorem MojomMap_accepted:
  assumes "MojomType_DispatchValidate n env m TYPE_MAP_PTR r nl a sz nh ctx =
      Inr (VALIDATION_ERROR_NONE, ctx')"
    and "env r = Some (DescStruct d)" and "is_map_desc d" and "peek64 m a \<noteq> 0"
    and "keys = target m (target m a + 8)" and "vals = target m (target m a + 16)"
    and "peek64 m (target m a + 8) \<noteq> 0" and "peek64 m (target m a + 16) \<noteq> 0"
  shows "peek32 m (keys + 4) = peek32 m (vals + 4) \<and> keys + unat (peek32 m keys) \<le> vals"
proof -
  let ?p = "target m a"
  from assms(1) obtain k where n: "n = Suc k" by (cases n) auto
  from assms(1,4) n obtain s c c1 where
    sv: "MojomStruct_Validate (MojomType_DispatchValidate k) env m r ?p s nh c =
      Inr (VALIDATION_ERROR_NONE, c1)"
    and mv: "MojomMap_Validate m ?p = Inr VALIDATION_ERROR_NONE"
    by (auto simp: Let_def res_simps pointer_offset_def load64_eq target_def split: if_splits)
  from assms(3) obtain e f where ef: "sd_entries d = [e, f]"
    "se_elem_type e = TYPE_ARRAY_PTR" "se_offset e = 0" "se_min_version e = 0"
    "se_elem_type f = TYPE_ARRAY_PTR" "se_offset f = 8" "se_min_version f = 0"
    by (auto simp: is_map_desc_def split: list.splits)
  then have addrs: "slot_addr ?p e = ?p + 8" "slot_addr ?p f = ?p + 16"
    by (simp_all add: slot_addr_def)
  have "\<not> peek32 m (?p + 4) < se_min_version e" "\<not> peek32 m (?p + 4) < se_min_version f"
    using ef by simp_all
  with sv assms(2) ef(1) have "\<exists>c c' s b b' s'.
      MojomType_DispatchValidate k env m TYPE_ARRAY_PTR (se_elem_descriptor e) (se_nullable e)
        (?p + 8) s nh c = Inr (VALIDATION_ERROR_NONE, c') \<and> ctx_le c' b \<and>
      MojomType_DispatchValidate k env m TYPE_ARRAY_PTR (se_elem_descriptor f) (se_nullable f)
        (?p + 16) s' nh b = Inr (VALIDATION_ERROR_NONE, b')"
    using accepted_two_fields [of k env m r ?p s nh c c1 d "[]" e "[]" f "[]"] ef addrs
    by (simp del: MojomType_DispatchValidate.simps) metis
  then obtain c c' s b b' s' where
    e: "MojomType_DispatchValidate k env m TYPE_ARRAY_PTR (se_elem_descriptor e) (se_nullable e)
        (?p + 8) s nh c = Inr (VALIDATION_ERROR_NONE, c')" and le: "ctx_le c' b"
    and f: "MojomType_DispatchValidate k env m TYPE_ARRAY_PTR (se_elem_descriptor f) (se_nullable f)
        (?p + 16) s' nh b = Inr (VALIDATION_ERROR_NONE, b')" by blast
  have off: "unat (8 + peek64 m (?p + 8)) = 8 + unat (peek64 m (?p + 8))"
    "unat (16 + peek64 m (?p + 16)) = 16 + unat (peek64 m (?p + 16))"
    using vd.array_mapped [OF e] vd.array_mapped [OF f] unat_u32_bound [of s] unat_u32_bound [of s']
    by (auto simp: unat_plus_if_size word_size)
  have "peek32 m (keys + 4) = peek32 m (vals + 4)"
    using mv off assms(5,6)
    by (auto simp: MojomMap_Validate_def res_simps layout_defs load64_eq load32_eq Let_def target_def
        ac_simps split: if_splits)
  moreover have "keys + unat (peek32 m keys) \<le> vals"
    using pointer_field_claims(2) [OF e] pointer_field_claims(1) [OF f] le assms(5-8)
    by (auto simp: ctx_le_def)
  ultimately show ?thesis ..
qed

text \<open>A map from bytes to bytes with two entries, and the field that points to it.\<close>

definition byte_map :: MojomTypeDescriptorStruct where
  "byte_map = \<lparr>sd_versions = [\<lparr>sv_version = 0, sv_num_bytes = 24\<rparr>], sd_entries =
     [\<lparr>se_elem_type = TYPE_ARRAY_PTR, se_elem_descriptor = 1, se_offset = 0, se_min_version = 0,
       se_nullable = False\<rparr>,
      \<lparr>se_elem_type = TYPE_ARRAY_PTR, se_elem_descriptor = 1, se_offset = 8, se_min_version = 0,
       se_nullable = False\<rparr>]\<rparr>"

definition byte_map_env :: tenv where
  "byte_map_env = (\<lambda>r. if r = 1 then Some (DescArray g_mojom_string_type_description)
     else if r = 2 then Some (DescStruct byte_map) else None)"

definition byte_map_field :: "u8 list" where
  "byte_map_field =
     [8, 0, 0, 0, 0, 0, 0, 0,   24, 0, 0, 0, 0, 0, 0, 0,   16, 0, 0, 0, 0, 0, 0, 0,
      24, 0, 0, 0, 0, 0, 0, 0,   10, 0, 0, 0, 2, 0, 0, 0,   97, 98, 0, 0, 0, 0, 0, 0,
      10, 0, 0, 0, 2, 0, 0, 0,   99, 100, 0, 0, 0, 0, 0, 0]"

theorem MojomMap_accepted_witness:
  "peek32 (mem_of 64 byte_map_field) 100 = peek32 (mem_of 64 byte_map_field) 116 \<and>
   96 + unat (peek32 (mem_of 64 byte_map_field) 96) \<le> 112"
proof -
  let ?m = "mem_of 64 byte_map_field"
  have ok: "MojomType_DispatchValidate 5 byte_map_env ?m TYPE_MAP_PTR 2 False 64 64 0 initial_context =
      Inr (VALIDATION_ERROR_NONE, \<lparr>next_handle_index = 0, next_pointer = 122\<rparr>)"
    by code_simp
  have "96 = target ?m (target ?m 64 + 8)" "112 = target ?m (target ?m 64 + 16)"
    "peek64 ?m 64 \<noteq> 0" "peek64 ?m (target ?m 64 + 8) \<noteq> 0" "peek64 ?m (target ?m 64 + 16) \<noteq> 0"
    by code_simp+
  with MojomMap_accepted [OF ok, of byte_map 96 112] show ?thesis
    by (simp add: byte_map_env_def byte_map_def is_map_desc_def)
qed

end
