(* ===== verification/Mojom_Bounds.thy ===== *)
theory Mojom_Bounds
  imports Mojom_WellFormed
begin

text \<open>
  The nesting bound of the dispatchers is a device of the model: an operation that returns with
  some bound returns the same with every larger one. Shown once for each of the five
  operations, by monotonicity in the dispatcher they call.
\<close>

section \<open>Monotonicity of the operations\<close>

lemma struct_validate_mono:
  assumes "\<And>env m t r nl a sz nh c.
      le_res (d env m t r nl a sz nh c) (d' env m t r nl a sz nh c)"
  shows "le_res (MojomStruct_Validate d env m td p sz nh c) (MojomStruct_Validate d' env m td p sz nh c)"
proof -
  have loop: "le_res (struct_validate_loop d env m p sz nh es c) (struct_validate_loop d' env m p sz nh es c)"
    for es c
    by (induction es arbitrary: c) (auto simp: Let_def intro!: mono_intros assms)
  show ?thesis by (auto simp: MojomStruct_Validate_def intro!: mono_intros loop)
qed

lemma array_validate_mono:
  assumes "\<And>env m t r nl a sz nh c.
      le_res (d env m t r nl a sz nh c) (d' env m t r nl a sz nh c)"
  shows "le_res (MojomArray_Validate d env m td p sz nh c) (MojomArray_Validate d' env m td p sz nh c)"
proof -
  have loop: "le_res (array_validate_loop d env m ad p sz nh i c) (array_validate_loop d' env m ad p sz nh i c)"
    for ad i c
  proof (induction "4294967296 - i" arbitrary: i c rule: less_induct)
    case less
    then show ?case
      by (subst (1 2) array_validate_loop.simps) (auto intro!: mono_intros assms less u32_count_up)
  qed
  show ?thesis by (auto simp: MojomArray_Validate_def Let_def intro!: mono_intros loop)
qed

lemma union_validate_mono:
  assumes "\<And>env m t r nl a sz nh c.
      le_res (d env m t r nl a sz nh c) (d' env m t r nl a sz nh c)"
  shows "le_res (MojomUnion_Validate d env m td nl u sz nh c) (MojomUnion_Validate d' env m td nl u sz nh c)"
proof -
  have loop: "le_res (union_validate_loop d env m nl u sz nh es c) (union_validate_loop d' env m nl u sz nh es c)"
    for es
    by (induction es) (auto intro!: mono_intros assms)
  show ?thesis by (auto simp: MojomUnion_Validate_def intro!: mono_intros loop)
qed

lemma DispatchValidate_mono:
  "n \<le> k \<Longrightarrow> le_res (MojomType_DispatchValidate n env m t r nl a sz nh c)
     (MojomType_DispatchValidate k env m t r nl a sz nh c)"
proof (induction n arbitrary: k env m t r nl a sz nh c)
  case 0
  show ?case by (simp add: le_res_def)
next
  case (Suc n)
  then obtain j where k: "k = Suc j" "n \<le> j" by (cases k) auto
  note mono = struct_validate_mono [OF Suc.IH [OF k(2)]] array_validate_mono [OF Suc.IH [OF k(2)]]
    union_validate_mono [OF Suc.IH [OF k(2)]]
  show ?case
    unfolding k(1)
    by (cases t) (auto simp: Let_def intro!: mono_intros mono)
qed

lemma struct_size_mono:
  assumes "\<And>env m t r nl a. le_res (d env m t r nl a) (d' env m t r nl a)"
  shows "le_res (MojomStruct_ComputeSerializedSize d env m td p)
    (MojomStruct_ComputeSerializedSize d' env m td p)"
proof -
  have loop: "le_res (struct_size_loop d env m p es acc) (struct_size_loop d' env m p es acc)" for es acc
    by (induction es arbitrary: acc) (auto intro!: mono_intros assms)
  show ?thesis by (auto simp: MojomStruct_ComputeSerializedSize_def intro!: mono_intros loop)
qed

lemma array_size_mono:
  assumes "\<And>env m t r nl a. le_res (d env m t r nl a) (d' env m t r nl a)"
  shows "le_res (MojomArray_ComputeSerializedSize d env m td p)
    (MojomArray_ComputeSerializedSize d' env m td p)"
proof -
  have loop: "le_res (array_size_loop d env m ad p i acc) (array_size_loop d' env m ad p i acc)" for ad i acc
  proof (induction "4294967296 - i" arbitrary: i acc rule: less_induct)
    case less
    then show ?case
      by (subst (1 2) array_size_loop.simps) (auto intro!: mono_intros assms less u32_count_up)
  qed
  show ?thesis by (auto simp: MojomArray_ComputeSerializedSize_def intro!: mono_intros loop)
qed

lemma union_size_mono:
  assumes "\<And>env m t r nl a. le_res (d env m t r nl a) (d' env m t r nl a)"
  shows "le_res (MojomUnion_ComputeSerializedSize d env m td u)
    (MojomUnion_ComputeSerializedSize d' env m td u)"
proof -
  have loop: "le_res (union_size_loop d env m u es) (union_size_loop d' env m u es)" for es
    by (induction es) (auto intro!: mono_intros assms)
  show ?thesis by (auto simp: MojomUnion_ComputeSerializedSize_def intro!: mono_intros loop)
qed

lemma DispatchComputeSerializedSize_mono:
  "n \<le> k \<Longrightarrow> le_res (MojomType_DispatchComputeSerializedSize n env m t r nl a)
     (MojomType_DispatchComputeSerializedSize k env m t r nl a)"
proof (induction n arbitrary: k env m t r nl a)
  case 0
  show ?case by (simp add: le_res_def)
next
  case (Suc n)
  then obtain j where k: "k = Suc j" "n \<le> j" by (cases k) auto
  note mono = struct_size_mono [OF Suc.IH [OF k(2)]] array_size_mono [OF Suc.IH [OF k(2)]]
    union_size_mono [OF Suc.IH [OF k(2)]]
  show ?case
    unfolding k(1) by (cases t) (auto simp: Let_def intro!: mono_intros mono)
qed

lemma struct_encode_mono:
  assumes "\<And>env t r nl a sz st. le_res (d env t r nl a sz st) (d' env t r nl a sz st)"
  shows "le_res (MojomStruct_EncodePointersAndHandles d env td p sz st)
    (MojomStruct_EncodePointersAndHandles d' env td p sz st)"
proof -
  have loop: "le_res (struct_encode_loop d env p sz es st) (struct_encode_loop d' env p sz es st)" for es st
    by (induction es arbitrary: st) (auto simp: Let_def intro!: mono_intros assms)
  show ?thesis by (auto simp: MojomStruct_EncodePointersAndHandles_def intro!: mono_intros loop)
qed

lemma array_encode_mono:
  assumes "\<And>env t r nl a sz st. le_res (d env t r nl a sz st) (d' env t r nl a sz st)"
  shows "le_res (MojomArray_EncodePointersAndHandles d env td p sz st)
    (MojomArray_EncodePointersAndHandles d' env td p sz st)"
proof -
  have loop: "le_res (array_encode_loop d env ad p sz i st) (array_encode_loop d' env ad p sz i st)" for ad i st
  proof (induction "4294967296 - i" arbitrary: i st rule: less_induct)
    case less
    then show ?case
      by (subst (1 2) array_encode_loop.simps) (auto intro!: mono_intros assms less u32_count_up)
  qed
  show ?thesis by (auto simp: MojomArray_EncodePointersAndHandles_def intro!: mono_intros loop)
qed

lemma union_encode_mono:
  assumes "\<And>env t r nl a sz st. le_res (d env t r nl a sz st) (d' env t r nl a sz st)"
  shows "le_res (MojomUnion_EncodePointersAndHandles d env td u sz st)
    (MojomUnion_EncodePointersAndHandles d' env td u sz st)"
proof -
  have loop: "le_res (union_encode_loop d env u sz es st) (union_encode_loop d' env u sz es st)" for es
    by (induction es) (auto intro!: mono_intros assms)
  show ?thesis by (auto simp: MojomUnion_EncodePointersAndHandles_def intro!: mono_intros loop)
qed

lemma DispatchEncode_mono:
  "n \<le> k \<Longrightarrow> le_res (MojomType_DispatchEncodePointersAndHandles n env t r nl a sz st)
     (MojomType_DispatchEncodePointersAndHandles k env t r nl a sz st)"
proof (induction n arbitrary: k env t r nl a sz st)
  case 0
  show ?case by (simp add: le_res_def)
next
  case (Suc n)
  then obtain j where k: "k = Suc j" "n \<le> j" by (cases k) auto
  note mono = struct_encode_mono [OF Suc.IH [OF k(2)]] array_encode_mono [OF Suc.IH [OF k(2)]]
    union_encode_mono [OF Suc.IH [OF k(2)]]
  show ?case
    unfolding k(1) by (cases t) (auto simp: Let_def intro!: mono_intros mono)
qed

lemma struct_decode_mono:
  assumes "\<And>env t r nl a sz nh st. le_res (d env t r nl a sz nh st) (d' env t r nl a sz nh st)"
  shows "le_res (MojomStruct_DecodePointersAndHandles d env td p sz nh st)
    (MojomStruct_DecodePointersAndHandles d' env td p sz nh st)"
proof -
  have loop: "le_res (struct_decode_loop d env p sz nh es st) (struct_decode_loop d' env p sz nh es st)"
    for es st
    by (induction es arbitrary: st) (auto simp: Let_def intro!: mono_intros assms)
  show ?thesis by (auto simp: MojomStruct_DecodePointersAndHandles_def intro!: mono_intros loop)
qed

lemma array_decode_mono:
  assumes "\<And>env t r nl a sz nh st. le_res (d env t r nl a sz nh st) (d' env t r nl a sz nh st)"
  shows "le_res (MojomArray_DecodePointersAndHandles d env td p sz nh st)
    (MojomArray_DecodePointersAndHandles d' env td p sz nh st)"
proof -
  have loop: "le_res (array_decode_loop d env ad p sz nh i st) (array_decode_loop d' env ad p sz nh i st)"
    for ad i st
  proof (induction "4294967296 - i" arbitrary: i st rule: less_induct)
    case less
    then show ?case
      by (subst (1 2) array_decode_loop.simps) (auto intro!: mono_intros assms less u32_count_up)
  qed
  show ?thesis by (auto simp: MojomArray_DecodePointersAndHandles_def intro!: mono_intros loop)
qed

lemma union_decode_mono:
  assumes "\<And>env t r nl a sz nh st. le_res (d env t r nl a sz nh st) (d' env t r nl a sz nh st)"
  shows "le_res (MojomUnion_DecodePointersAndHandles d env td u sz nh st)
    (MojomUnion_DecodePointersAndHandles d' env td u sz nh st)"
proof -
  have loop: "le_res (union_decode_loop d env u sz nh es st) (union_decode_loop d' env u sz nh es st)" for es
    by (induction es) (auto intro!: mono_intros assms)
  show ?thesis by (auto simp: MojomUnion_DecodePointersAndHandles_def intro!: mono_intros loop)
qed

lemma DispatchDecode_mono:
  "n \<le> k \<Longrightarrow> le_res (MojomType_DispatchDecodePointersAndHandles n env t r nl a sz nh st)
     (MojomType_DispatchDecodePointersAndHandles k env t r nl a sz nh st)"
proof (induction n arbitrary: k env t r nl a sz nh st)
  case 0
  show ?case by (simp add: le_res_def)
next
  case (Suc n)
  then obtain j where k: "k = Suc j" "n \<le> j" by (cases k) auto
  note mono = struct_decode_mono [OF Suc.IH [OF k(2)]] array_decode_mono [OF Suc.IH [OF k(2)]]
    union_decode_mono [OF Suc.IH [OF k(2)]]
  show ?case
    unfolding k(1) by (cases t) (auto simp: Let_def intro!: mono_intros mono)
qed

lemma struct_copy_mono:
  assumes "\<And>env t r a b st. le_res (d env t r a b st) (d' env t r a b st)"
  shows "le_res (MojomStruct_DeepCopy d env td p q st) (MojomStruct_DeepCopy d' env td p q st)"
proof -
  have loop: "le_res (struct_copy_loop d env p q es st) (struct_copy_loop d' env p q es st)" for es st
    by (induction es arbitrary: st) (auto simp: Let_def intro!: mono_intros assms)
  show ?thesis by (auto simp: MojomStruct_DeepCopy_def intro!: mono_intros loop)
qed

lemma array_copy_mono:
  assumes "\<And>env t r a b st. le_res (d env t r a b st) (d' env t r a b st)"
  shows "le_res (MojomArray_DeepCopy d env td p q st) (MojomArray_DeepCopy d' env td p q st)"
proof -
  have loop: "le_res (array_copy_loop d env ad p q i st) (array_copy_loop d' env ad p q i st)" for ad i st
  proof (induction "4294967296 - i" arbitrary: i st rule: less_induct)
    case less
    then show ?case
      by (subst (1 2) array_copy_loop.simps) (auto intro!: mono_intros assms less u32_count_up)
  qed
  show ?thesis by (auto simp: MojomArray_DeepCopy_def intro!: mono_intros loop)
qed

lemma union_copy_mono:
  assumes "\<And>env t r a b st. le_res (d env t r a b st) (d' env t r a b st)"
  shows "le_res (MojomUnion_DeepCopy d env td u v st) (MojomUnion_DeepCopy d' env td u v st)"
proof -
  have loop: "le_res (union_copy_loop d env ud u v es st) (union_copy_loop d' env ud u v es st)" for ud es st
    by (induction es) (auto intro!: mono_intros assms)
  show ?thesis by (auto simp: MojomUnion_DeepCopy_def intro!: mono_intros loop)
qed

lemma DispatchDeepCopy_mono:
  "n \<le> k \<Longrightarrow> le_res (MojomType_DispatchDeepCopy n env t r a b st)
     (MojomType_DispatchDeepCopy k env t r a b st)"
proof (induction n arbitrary: k env t r a b st)
  case 0
  show ?case by (simp add: le_res_def)
next
  case (Suc n)
  then obtain j where k: "k = Suc j" "n \<le> j" by (cases k) auto
  note mono = struct_copy_mono [OF Suc.IH [OF k(2)]] array_copy_mono [OF Suc.IH [OF k(2)]]
    union_copy_mono [OF Suc.IH [OF k(2)]]
  show ?case
    unfolding k(1) by (cases t) (auto simp: Let_def intro!: mono_intros mono)
qed

section \<open>Properties\<close>



end
