(* ===== verification/Mojom_ArrayNew.thy ===== *)
theory Mojom_ArrayNew
  imports Mojom_Array
begin

text \<open>Allocation of arrays: \<^verbatim>\<open>MojomArray_New\<close> computes the size in 64 bits, so no request wraps
  around, and the header it writes describes the block it got.\<close>

lemma unat_array_bytes:
  "unat (8 + ucast (n :: u32) * ucast (k :: u32) :: u64) = 8 + unat n * unat k"
proof -
  have "unat n * unat k \<le> 4294967295 * 4294967295"
    using unat_u32_bound [of n] unat_u32_bound [of k] by (intro mult_le_mono) auto
  then show ?thesis
    by (simp add: unat_word_ariths(2) unat_plus_if_size word_size)
qed

lemma round8_fits_u32: "round8 n \<le> unat (w :: u32) \<Longrightarrow> n + 7 < 4294967296"
  using unat_u32_bound [of w] unfolding round8_def by presburger

text \<open>
  Claim C10. \<^verbatim>\<open>MojomArray_New\<close> never fails its assertion. When the header and the elements, rounded up to
  eight bytes, fit in the rest of the buffer, it returns the first unused byte, the array there
  has the requested number of elements and the rounded size as its \<^verbatim>\<open>num_bytes\<close>, the buffer's fill
  mark is at the end of the array, and no byte but the header is written; otherwise, also when the
  size exceeds 32 bits, it returns \<^verbatim>\<open>NULL\<close> and changes nothing.
\<close>

theorem MojomArray_New_correct:
  assumes "buf b \<noteq> 0" and "mapped m (buf b) (unat (buf_size b))"
    and "size_all = 8 + unat num * unat esz" and "arr = buf b + unat (num_bytes_used b)"
  shows "if unat (num_bytes_used b) + round8 size_all \<le> unat (buf_size b)
    then \<exists>m' b'. MojomArray_New num esz (m, b) = Inr (arr, (m', b')) \<and>
      unat (peek32 m' arr) = round8 size_all \<and> peek32 m' (arr + 4) = num \<and>
      buf b' + unat (num_bytes_used b') = arr + round8 size_all \<and>
      buf b' = buf b \<and> buf_size b' = buf_size b \<and>
      (\<forall>x. x < arr \<or> arr + 8 \<le> x \<longrightarrow> m' x = m x)
    else MojomArray_New num esz (m, b) = Inr (0, (m, b))"
proof -
  let ?nb = "8 + ucast num * ucast esz :: u64"
  have nb: "unat ?nb = size_all" using unat_array_bytes assms(3) by simp
  have big: "?nb > ucast (- 1 :: u32) \<longleftrightarrow> 4294967295 < size_all"
    by (simp add: word_less_nat_alt nb unsigned_minus_1_eq_mask mask_eq_exp_minus_1)
  show ?thesis
  proof (cases "unat (num_bytes_used b) + round8 size_all \<le> unat (buf_size b)")
    case True
    then have "size_all + 7 < 4294967296" by (intro round8_fits_u32 [of _ "buf_size b"]) linarith
    then have small: "unat (ucast ?nb :: u32) = size_all" "\<not> 4294967295 < size_all"
      "unat (MOJOM_INTERNAL_ROUND_TO_8 ?nb) = round8 size_all"
      "unat (MOJOM_INTERNAL_ROUND_TO_8 (ucast ?nb :: u32)) = round8 size_all"
      using nb by (simp_all add: unat_ucast_u64_u32 unat_ROUND_TO_8)
    let ?b = "b\<lparr>num_bytes_used := num_bytes_used b + of_nat (round8 size_all)\<rparr>"
    let ?m = "poke m (arr + 4) (bytes_of_word 4 num)"
    let ?m' = "poke ?m arr (bytes_of_word 4 (MOJOM_INTERNAL_ROUND_TO_8 (ucast ?nb :: u32)))"
    have alloc: "MojomBuffer_Allocate b (ucast ?nb) = (?b, arr)"
      using True small(1) assms(4) by (simp add: MojomBuffer_Allocate_cases)
    have used: "unat (num_bytes_used b + of_nat (round8 size_all)) = unat (num_bytes_used b) + round8 size_all"
      using True unat_num_bytes_used_Allocate [of b "ucast ?nb :: u32", unfolded small(1)] by blast
    have "8 \<le> round8 size_all" using round8_bounds(1) [of size_all] assms(3) by linarith
    with True have map: "mapped m arr 4" "mapped m (arr + 4) 4"
      using assms(2,4) by (auto elim!: mapped_sub)
    have new: "MojomArray_New num esz (m, b) = Inr (arr, (?m', ?b))"
      using assms(1,4) big small alloc used map
      by (simp add: MojomArray_New_def Let_def store32_eq mapped_poke)
    have "peek32 ?m' (arr + 4) = peek32 ?m (arr + 4)"
      by (rule agree_peek32) (rule agree_poke, simp)
    then have "unat (peek32 ?m' arr) = round8 size_all" "peek32 ?m' (arr + 4) = num"
      using small(4) by simp_all
    moreover have "buf ?b + unat (num_bytes_used ?b) = arr + round8 size_all"
      using used assms(4) by simp
    moreover have "?m' x = m x" if "x < arr \<or> arr + 8 \<le> x" for x
      using that by (auto simp: poke_outside)
    ultimately show ?thesis using True new by (auto simp del: bytes_of_word.simps)
  next
    case False
    show ?thesis
    proof (cases "4294967295 < size_all")
      case True
      with False big show ?thesis by (simp add: MojomArray_New_def Let_def)
    next
      case small: False
      then have "MojomBuffer_Allocate b (ucast ?nb) = (b, 0)"
        using False nb by (simp add: MojomBuffer_Allocate_cases unat_ucast_u64_u32)
      with False small big show ?thesis by (simp add: MojomArray_New_def Let_def)
    qed
  qed
qed

theorem MojomArray_New_correct_witness:
  "\<exists>m' b'. MojomArray_New 3 4 (mem_of 64 (replicate 40 0), \<lparr>buf = 64, buf_size = 40, num_bytes_used = 8\<rparr>) =
      Inr (72, (m', b')) \<and>
    unat (peek32 m' 72) = 24 \<and> peek32 m' 76 = 3 \<and> buf b' + unat (num_bytes_used b') = 96"
  using MojomArray_New_correct [of "\<lparr>buf = 64, buf_size = 40, num_bytes_used = 8\<rparr>"
      "mem_of 64 (replicate 40 0)" 20 3 4 72]
  by (auto simp: mapped_mem_of round8_def)

end
