(* ===== verification/Mojom_Message.thy ===== *)
theory Mojom_Message
  imports Mojom_Types
begin

text \<open>
  \<^verbatim>\<open>message.h\<close> and \<^verbatim>\<open>message.c\<close>: validation of the header that frames every message on a message
  pipe, and of the flags that tell a one-way request, a request that expects a response and a
  response apart.
\<close>

definition MOJOM_MESSAGE_FLAGS_EXPECTS_RESPONSE :: u32 where
  "MOJOM_MESSAGE_FLAGS_EXPECTS_RESPONSE = push_bit 0 1"

definition MOJOM_MESSAGE_FLAGS_IS_RESPONSE :: u32 where
  "MOJOM_MESSAGE_FLAGS_IS_RESPONSE = push_bit 1 1"

text \<open>\<^verbatim>\<open>struct MojomMessage\<close>: the struct header, then \<^verbatim>\<open>ordinal\<close> at 8 and \<^verbatim>\<open>flags\<close> at 12.\<close>

definition message_flags :: "mem \<Rightarrow> addr \<Rightarrow> u32 res" where
  "message_flags m msg = load32 m (msg + 12)"

definition MojomMessage_ValidateHeader :: "mem \<Rightarrow> addr \<Rightarrow> u32 \<Rightarrow> MojomValidationResult res" where
  "MojomMessage_ValidateHeader m in_buf in_buf_size =
     (if unat in_buf_size < sizeof_MojomStructHeader then Inr VALIDATION_ILLEGAL_MEMORY_RANGE
      else bindR (struct_num_bytes m in_buf) (\<lambda>num_bytes.
      if in_buf_size < num_bytes then Inr VALIDATION_ILLEGAL_MEMORY_RANGE
      else
      let flags_exclusive = bindR (message_flags m in_buf) (\<lambda>flags.
            if flags AND MOJOM_MESSAGE_FLAGS_EXPECTS_RESPONSE \<noteq> 0 \<and>
               flags AND MOJOM_MESSAGE_FLAGS_IS_RESPONSE \<noteq> 0
            then Inr VALIDATION_MESSAGE_HEADER_INVALID_FLAGS
            else Inr VALIDATION_ERROR_NONE) in
      bindR (struct_version m in_buf) (\<lambda>version.
      if version = 0
      then if unat num_bytes \<noteq> sizeof_MojomMessage then Inr VALIDATION_UNEXPECTED_STRUCT_HEADER
           else bindR (message_flags m in_buf) (\<lambda>flags.
             if flags AND MOJOM_MESSAGE_FLAGS_EXPECTS_RESPONSE \<noteq> 0 \<or>
                flags AND MOJOM_MESSAGE_FLAGS_IS_RESPONSE \<noteq> 0
             then Inr VALIDATION_MESSAGE_HEADER_MISSING_REQUEST_ID
             else flags_exclusive)
      else if version = 1
      then if unat num_bytes \<noteq> sizeof_MojomMessageWithRequestId
           then Inr VALIDATION_UNEXPECTED_STRUCT_HEADER
           else flags_exclusive
      else if unat num_bytes < sizeof_MojomMessageWithRequestId
           then Inr VALIDATION_UNEXPECTED_STRUCT_HEADER
           else flags_exclusive)))"

definition MojomMessage_ValidateRequestExpectingResponse ::
  "mem \<Rightarrow> addr \<Rightarrow> MojomValidationResult res"
where
  "MojomMessage_ValidateRequestExpectingResponse m in_buf =
     bindR (message_flags m in_buf) (\<lambda>flags.
     Inr (if flags AND MOJOM_MESSAGE_FLAGS_EXPECTS_RESPONSE \<noteq> 0 then VALIDATION_ERROR_NONE
          else VALIDATION_MESSAGE_HEADER_INVALID_FLAGS))"

definition MojomMessage_ValidateRequestWithoutResponse ::
  "mem \<Rightarrow> addr \<Rightarrow> MojomValidationResult res"
where
  "MojomMessage_ValidateRequestWithoutResponse m in_buf =
     bindR (message_flags m in_buf) (\<lambda>flags.
     Inr (if \<not> (flags AND MOJOM_MESSAGE_FLAGS_EXPECTS_RESPONSE \<noteq> 0) \<and>
             \<not> (flags AND MOJOM_MESSAGE_FLAGS_IS_RESPONSE \<noteq> 0)
          then VALIDATION_ERROR_NONE
          else VALIDATION_MESSAGE_HEADER_INVALID_FLAGS))"

definition MojomMessage_ValidateResponse :: "mem \<Rightarrow> addr \<Rightarrow> MojomValidationResult res" where
  "MojomMessage_ValidateResponse m in_buf =
     bindR (message_flags m in_buf) (\<lambda>flags.
     Inr (if flags AND MOJOM_MESSAGE_FLAGS_IS_RESPONSE \<noteq> 0 then VALIDATION_ERROR_NONE
          else VALIDATION_MESSAGE_HEADER_INVALID_FLAGS))"

section \<open>Properties\<close>

text \<open>The header a message must have, as a predicate on its five relevant fields.\<close>

definition expects_response :: "mem \<Rightarrow> addr \<Rightarrow> bool" where
  "expects_response m p \<longleftrightarrow> bit (peek32 m (p + 12)) 0"

definition is_response :: "mem \<Rightarrow> addr \<Rightarrow> bool" where
  "is_response m p \<longleftrightarrow> bit (peek32 m (p + 12)) 1"

definition header_ok :: "mem \<Rightarrow> addr \<Rightarrow> nat \<Rightarrow> bool" where
  "header_ok m p len \<longleftrightarrow>
     (let n = unat (peek32 m p); v = peek32 m (p + 4) in
      8 \<le> len \<and> n \<le> len \<and>
      (v = 0 \<longrightarrow> n = 16 \<and> \<not> expects_response m p \<and> \<not> is_response m p) \<and>
      (v = 1 \<longrightarrow> n = 24) \<and> (v > 1 \<longrightarrow> 24 \<le> n) \<and>
      \<not> (expects_response m p \<and> is_response m p))"

lemma flag_bits:
  "w AND MOJOM_MESSAGE_FLAGS_EXPECTS_RESPONSE = 0 \<longleftrightarrow> \<not> bit w 0"
  "w AND MOJOM_MESSAGE_FLAGS_IS_RESPONSE = 0 \<longleftrightarrow> \<not> bit w 1"
  using and_exp_eq_0_iff_not_bit [of w 0] and_exp_eq_0_iff_not_bit [of w 1]
  by (simp_all add: MOJOM_MESSAGE_FLAGS_EXPECTS_RESPONSE_def MOJOM_MESSAGE_FLAGS_IS_RESPONSE_def
      push_bit_eq_mult)

lemmas message_defs = message_flags_def layout_defs load32_eq

lemma ValidateHeader_accepts:
  assumes "mapped m p (unat len)"
  shows "\<exists>r. MojomMessage_ValidateHeader m p len = Inr r \<and>
             (r = VALIDATION_ERROR_NONE \<longleftrightarrow> header_ok m p (unat len))"
proof (cases "8 \<le> unat len \<and> unat (peek32 m p) \<le> unat len")
  case False
  then show ?thesis
    using mapped_sub [OF assms, of p 4]
    by (auto simp: MojomMessage_ValidateHeader_def header_ok_def message_defs word_nat Let_def)
next
  case True
  then have hdr: "mapped m p 4" "mapped m (p + 4) 4"
    using assms by (auto elim!: mapped_sub)
  have flags: "mapped m (p + 12) 4" if "16 \<le> unat (peek32 m p)"
    using that True by (intro mapped_sub [OF assms]) auto
  have v: "version > 1 \<longleftrightarrow> version \<noteq> 0 \<and> version \<noteq> 1" for version :: u32
    by (auto simp: word_nat word_unat_eq_iff)
  show ?thesis
    using True hdr flags
    by (auto simp: MojomMessage_ValidateHeader_def header_ok_def message_defs v word_le_nat_alt
        word_less_nat_alt [of len] Let_def flag_bits expects_response_def is_response_def)
qed

text \<open>
  Claim C6. On a buffer of \<^verbatim>\<open>in_buf_size\<close> mapped bytes, \<^verbatim>\<open>MojomMessage_ValidateHeader\<close> never reads outside
  the buffer, whatever the bytes are, and it accepts exactly the well-formed headers: 16 bytes and
  no response flag for version 0, 24 bytes for version 1, at least 24 for later versions, all
  inside the buffer, and never both response flags.
\<close>

theorem MojomMessage_ValidateHeader_correct:
  assumes "mapped m p (unat len)"
  shows "\<exists>r. MojomMessage_ValidateHeader m p len = Inr r \<and>
             (r = VALIDATION_ERROR_NONE \<longleftrightarrow> header_ok m p (unat len))"
  using assms by (rule ValidateHeader_accepts)

text \<open>A version 1 request header (24 bytes, ordinal 7, response expected, request id 5).\<close>

definition sample_request :: mem where
  "sample_request = mem_of 64
     [24, 0, 0, 0, 1, 0, 0, 0, 7, 0, 0, 0, 1, 0, 0, 0, 5, 0, 0, 0, 0, 0, 0, 0]"

theorem MojomMessage_ValidateHeader_correct_witness:
  "MojomMessage_ValidateHeader sample_request 64 24 = Inr VALIDATION_ERROR_NONE \<and>
   header_ok sample_request 64 24"
proof -
  have "mapped sample_request 64 (unat (24 :: u32))"
    by (simp add: sample_request_def mapped_mem_of)
  from MojomMessage_ValidateHeader_correct [OF this]
  have "\<exists>r. MojomMessage_ValidateHeader sample_request 64 24 = Inr r \<and>
      (r = VALIDATION_ERROR_NONE \<longleftrightarrow> header_ok sample_request 64 24)" by simp
  moreover have "MojomMessage_ValidateHeader sample_request 64 24 = Inr VALIDATION_ERROR_NONE"
    by code_simp
  ultimately show ?thesis by auto
qed

text \<open>
  A message whose header validates is accepted by exactly one of the three kind checks:
  it is a request without response, a request expecting a response, or a response.
\<close>

lemma MojomMessage_kind_unique:
  assumes "mapped m p (unat len)"
    and "MojomMessage_ValidateHeader m p len = Inr VALIDATION_ERROR_NONE"
  shows "length (filter (\<lambda>check. check m p = Inr VALIDATION_ERROR_NONE)
           [MojomMessage_ValidateRequestWithoutResponse,
            MojomMessage_ValidateRequestExpectingResponse,
            MojomMessage_ValidateResponse]) = 1"
proof -
  from ValidateHeader_accepts [OF assms(1)] assms(2)
  have ok: "header_ok m p (unat len)" by simp
  then have "16 \<le> unat len"
    by (cases "peek32 m (p + 4) = 0"; cases "peek32 m (p + 4) = 1")
      (auto simp: header_ok_def Let_def word_nat word_unat_eq_iff)
  then have "mapped m (p + 12) 4" by (intro mapped_sub [OF assms(1)]) auto
  with ok show ?thesis
    by (auto simp: MojomMessage_ValidateRequestWithoutResponse_def
        MojomMessage_ValidateRequestExpectingResponse_def MojomMessage_ValidateResponse_def
        message_defs flag_bits header_ok_def expects_response_def is_response_def Let_def)
qed

end
