(* ===== verification/Mojo_Thunks.thy ===== *)
theory Mojo_Thunks
  imports Mojo_Prelude
begin

text \<open>
  Thunk tables: a shared library reaches the embedder's functions through a static table of
  function pointers, all null until the embedder installs its own table with a
  \<^verbatim>\<open>MojoSet...Thunks\<close> call. Every table of \<^verbatim>\<open>src/platform/native\<close> follows one protocol, stated here
  as a locale: a table is installed exactly when it claims to be at least as large as the
  library's own, and the library's size is returned either way.
\<close>

text \<open>\<^verbatim>\<open>assert(table.f); return table.f(...)\<close>: a function pointer that is \<^verbatim>\<open>NULL\<close> is \<^term>\<open>None\<close>.\<close>

definition call_thunk :: "'f option \<Rightarrow> ('f \<Rightarrow> 'a) \<Rightarrow> 'a res" where
  "call_thunk slot app = (case slot of None \<Rightarrow> Inl AssertFailed | Some f \<Rightarrow> Inr (app f))"

lemma call_thunk_simps [simp]:
  "call_thunk None app = Inl AssertFailed"
  "call_thunk (Some f) app = Inr (app f)"
  by (simp_all add: call_thunk_def)

text \<open>The table in place after a sequence of installations.\<close>

definition install_all :: "('t \<Rightarrow> 't \<Rightarrow> 't \<times> nat) \<Rightarrow> 't \<Rightarrow> 't list \<Rightarrow> 't" where
  "install_all set_thunks g ts = foldl (\<lambda>g t. fst (set_thunks g t)) g ts"

locale thunk_table =
  fixes set_thunks :: "'t \<Rightarrow> 't \<Rightarrow> 't \<times> nat"
    and table_size :: "'t \<Rightarrow> nat"
    and sizeof_table :: nat
  assumes returned_size: "snd (set_thunks g t) = sizeof_table"
    and installed: "sizeof_table \<le> table_size t \<Longrightarrow> fst (set_thunks g t) = t"
    and refused: "table_size t < sizeof_table \<Longrightarrow> fst (set_thunks g t) = g"
begin

text \<open>The embedder's check: the returned size exceeds the size of its table exactly when the table
  was not installed.\<close>

lemma embedder_check:
  "fst (set_thunks g t) = (if snd (set_thunks g t) > table_size t then g else t)"
  by (auto simp: returned_size installed refused)

lemma last_large_table:
  "install_all set_thunks g ts =
     (case filter (\<lambda>t. sizeof_table \<le> table_size t) (rev ts) of [] \<Rightarrow> g | t # _ \<Rightarrow> t)"
proof (induction ts rule: rev_induct)
  case (snoc t ts)
  then show ?case
    by (cases "sizeof_table \<le> table_size t") (simp_all add: install_all_def installed refused)
qed (simp add: install_all_def)

end

end
