(* ===== verification/Mojo_SystemThunks.thy ===== *)
theory Mojo_SystemThunks
  imports Mojo_Thunks Mojom_Types
begin

text \<open>
  \<^verbatim>\<open>system_thunks.h\<close> and \<^verbatim>\<open>system_thunks.c\<close>: the Mojo system calls of a shared library. The state of
  the embedder (handles, pipes, memory) is the type variable of the records; an embedder function
  takes its arguments and that state and returns its result and the new state. Out-parameters are
  addresses in the embedder's memory.
\<close>

type_synonym MojoResult = u32

section \<open>Tables\<close>

text \<open>The functions of the embedder, as declared in \<^verbatim>\<open>mojo/system/*.h\<close>.\<close>

record 'w MojoSystemFunctions =
  sys_GetTimeTicksNow :: "'w \<Rightarrow> u64 \<times> 'w"
  sys_Close :: "MojoHandle \<Rightarrow> 'w \<Rightarrow> MojoResult \<times> 'w"
  sys_Wait :: "MojoHandle \<Rightarrow> u32 \<Rightarrow> u64 \<Rightarrow> addr \<Rightarrow> 'w \<Rightarrow> MojoResult \<times> 'w"
  sys_WaitMany :: "addr \<Rightarrow> addr \<Rightarrow> u32 \<Rightarrow> u64 \<Rightarrow> addr \<Rightarrow> addr \<Rightarrow> 'w \<Rightarrow> MojoResult \<times> 'w"
  sys_CreateMessagePipe :: "addr \<Rightarrow> addr \<Rightarrow> addr \<Rightarrow> 'w \<Rightarrow> MojoResult \<times> 'w"
  sys_WriteMessage :: "MojoHandle \<Rightarrow> addr \<Rightarrow> u32 \<Rightarrow> addr \<Rightarrow> u32 \<Rightarrow> u32 \<Rightarrow> 'w \<Rightarrow> MojoResult \<times> 'w"
  sys_ReadMessage :: "MojoHandle \<Rightarrow> addr \<Rightarrow> addr \<Rightarrow> addr \<Rightarrow> addr \<Rightarrow> u32 \<Rightarrow> 'w \<Rightarrow> MojoResult \<times> 'w"
  sys_CreateDataPipe :: "addr \<Rightarrow> addr \<Rightarrow> addr \<Rightarrow> 'w \<Rightarrow> MojoResult \<times> 'w"
  sys_WriteData :: "MojoHandle \<Rightarrow> addr \<Rightarrow> addr \<Rightarrow> u32 \<Rightarrow> 'w \<Rightarrow> MojoResult \<times> 'w"
  sys_BeginWriteData :: "MojoHandle \<Rightarrow> addr \<Rightarrow> addr \<Rightarrow> u32 \<Rightarrow> 'w \<Rightarrow> MojoResult \<times> 'w"
  sys_EndWriteData :: "MojoHandle \<Rightarrow> u32 \<Rightarrow> 'w \<Rightarrow> MojoResult \<times> 'w"
  sys_ReadData :: "MojoHandle \<Rightarrow> addr \<Rightarrow> addr \<Rightarrow> u32 \<Rightarrow> 'w \<Rightarrow> MojoResult \<times> 'w"
  sys_BeginReadData :: "MojoHandle \<Rightarrow> addr \<Rightarrow> addr \<Rightarrow> u32 \<Rightarrow> 'w \<Rightarrow> MojoResult \<times> 'w"
  sys_EndReadData :: "MojoHandle \<Rightarrow> u32 \<Rightarrow> 'w \<Rightarrow> MojoResult \<times> 'w"
  sys_CreateSharedBuffer :: "addr \<Rightarrow> u64 \<Rightarrow> addr \<Rightarrow> 'w \<Rightarrow> MojoResult \<times> 'w"
  sys_DuplicateBufferHandle :: "MojoHandle \<Rightarrow> addr \<Rightarrow> addr \<Rightarrow> 'w \<Rightarrow> MojoResult \<times> 'w"
  sys_MapBuffer :: "MojoHandle \<Rightarrow> u64 \<Rightarrow> u64 \<Rightarrow> addr \<Rightarrow> u32 \<Rightarrow> 'w \<Rightarrow> MojoResult \<times> 'w"
  sys_UnmapBuffer :: "addr \<Rightarrow> 'w \<Rightarrow> MojoResult \<times> 'w"
  sys_GetBufferInformation :: "MojoHandle \<Rightarrow> addr \<Rightarrow> u32 \<Rightarrow> 'w \<Rightarrow> MojoResult \<times> 'w"
  sys_SetDataPipeConsumerOptions :: "MojoHandle \<Rightarrow> addr \<Rightarrow> 'w \<Rightarrow> MojoResult \<times> 'w"
  sys_GetDataPipeConsumerOptions :: "MojoHandle \<Rightarrow> addr \<Rightarrow> u32 \<Rightarrow> 'w \<Rightarrow> MojoResult \<times> 'w"
  sys_SetDataPipeProducerOptions :: "MojoHandle \<Rightarrow> addr \<Rightarrow> 'w \<Rightarrow> MojoResult \<times> 'w"
  sys_GetDataPipeProducerOptions :: "MojoHandle \<Rightarrow> addr \<Rightarrow> u32 \<Rightarrow> 'w \<Rightarrow> MojoResult \<times> 'w"
  sys_GetRights :: "MojoHandle \<Rightarrow> addr \<Rightarrow> 'w \<Rightarrow> MojoResult \<times> 'w"
  sys_DuplicateHandleWithReducedRights :: "MojoHandle \<Rightarrow> u32 \<Rightarrow> addr \<Rightarrow> 'w \<Rightarrow> MojoResult \<times> 'w"
  sys_DuplicateHandle :: "MojoHandle \<Rightarrow> addr \<Rightarrow> 'w \<Rightarrow> MojoResult \<times> 'w"
  sys_ReplaceHandleWithReducedRights :: "MojoHandle \<Rightarrow> u32 \<Rightarrow> addr \<Rightarrow> 'w \<Rightarrow> MojoResult \<times> 'w"
  sys_CreateWaitSet :: "addr \<Rightarrow> addr \<Rightarrow> 'w \<Rightarrow> MojoResult \<times> 'w"
  sys_WaitSetAdd :: "MojoHandle \<Rightarrow> MojoHandle \<Rightarrow> u32 \<Rightarrow> u64 \<Rightarrow> addr \<Rightarrow> 'w \<Rightarrow> MojoResult \<times> 'w"
  sys_WaitSetRemove :: "MojoHandle \<Rightarrow> u64 \<Rightarrow> 'w \<Rightarrow> MojoResult \<times> 'w"
  sys_WaitSetWait :: "MojoHandle \<Rightarrow> u64 \<Rightarrow> addr \<Rightarrow> addr \<Rightarrow> addr \<Rightarrow> 'w \<Rightarrow> MojoResult \<times> 'w"

text \<open>\<^verbatim>\<open>struct MojoSystemThunks\<close>: the size and a function pointer for each of them.\<close>

record 'w MojoSystemThunks =
  thunks_size :: nat
  tk_GetTimeTicksNow :: "('w \<Rightarrow> u64 \<times> 'w) option"
  tk_Close :: "(MojoHandle \<Rightarrow> 'w \<Rightarrow> MojoResult \<times> 'w) option"
  tk_Wait :: "(MojoHandle \<Rightarrow> u32 \<Rightarrow> u64 \<Rightarrow> addr \<Rightarrow> 'w \<Rightarrow> MojoResult \<times> 'w) option"
  tk_WaitMany :: "(addr \<Rightarrow> addr \<Rightarrow> u32 \<Rightarrow> u64 \<Rightarrow> addr \<Rightarrow> addr \<Rightarrow> 'w \<Rightarrow> MojoResult \<times> 'w) option"
  tk_CreateMessagePipe :: "(addr \<Rightarrow> addr \<Rightarrow> addr \<Rightarrow> 'w \<Rightarrow> MojoResult \<times> 'w) option"
  tk_WriteMessage :: "(MojoHandle \<Rightarrow> addr \<Rightarrow> u32 \<Rightarrow> addr \<Rightarrow> u32 \<Rightarrow> u32 \<Rightarrow> 'w \<Rightarrow> MojoResult \<times> 'w) option"
  tk_ReadMessage :: "(MojoHandle \<Rightarrow> addr \<Rightarrow> addr \<Rightarrow> addr \<Rightarrow> addr \<Rightarrow> u32 \<Rightarrow> 'w \<Rightarrow> MojoResult \<times> 'w) option"
  tk_CreateDataPipe :: "(addr \<Rightarrow> addr \<Rightarrow> addr \<Rightarrow> 'w \<Rightarrow> MojoResult \<times> 'w) option"
  tk_WriteData :: "(MojoHandle \<Rightarrow> addr \<Rightarrow> addr \<Rightarrow> u32 \<Rightarrow> 'w \<Rightarrow> MojoResult \<times> 'w) option"
  tk_BeginWriteData :: "(MojoHandle \<Rightarrow> addr \<Rightarrow> addr \<Rightarrow> u32 \<Rightarrow> 'w \<Rightarrow> MojoResult \<times> 'w) option"
  tk_EndWriteData :: "(MojoHandle \<Rightarrow> u32 \<Rightarrow> 'w \<Rightarrow> MojoResult \<times> 'w) option"
  tk_ReadData :: "(MojoHandle \<Rightarrow> addr \<Rightarrow> addr \<Rightarrow> u32 \<Rightarrow> 'w \<Rightarrow> MojoResult \<times> 'w) option"
  tk_BeginReadData :: "(MojoHandle \<Rightarrow> addr \<Rightarrow> addr \<Rightarrow> u32 \<Rightarrow> 'w \<Rightarrow> MojoResult \<times> 'w) option"
  tk_EndReadData :: "(MojoHandle \<Rightarrow> u32 \<Rightarrow> 'w \<Rightarrow> MojoResult \<times> 'w) option"
  tk_CreateSharedBuffer :: "(addr \<Rightarrow> u64 \<Rightarrow> addr \<Rightarrow> 'w \<Rightarrow> MojoResult \<times> 'w) option"
  tk_DuplicateBufferHandle :: "(MojoHandle \<Rightarrow> addr \<Rightarrow> addr \<Rightarrow> 'w \<Rightarrow> MojoResult \<times> 'w) option"
  tk_MapBuffer :: "(MojoHandle \<Rightarrow> u64 \<Rightarrow> u64 \<Rightarrow> addr \<Rightarrow> u32 \<Rightarrow> 'w \<Rightarrow> MojoResult \<times> 'w) option"
  tk_UnmapBuffer :: "(addr \<Rightarrow> 'w \<Rightarrow> MojoResult \<times> 'w) option"
  tk_GetBufferInformation :: "(MojoHandle \<Rightarrow> addr \<Rightarrow> u32 \<Rightarrow> 'w \<Rightarrow> MojoResult \<times> 'w) option"
  tk_SetDataPipeConsumerOptions :: "(MojoHandle \<Rightarrow> addr \<Rightarrow> 'w \<Rightarrow> MojoResult \<times> 'w) option"
  tk_GetDataPipeConsumerOptions :: "(MojoHandle \<Rightarrow> addr \<Rightarrow> u32 \<Rightarrow> 'w \<Rightarrow> MojoResult \<times> 'w) option"
  tk_SetDataPipeProducerOptions :: "(MojoHandle \<Rightarrow> addr \<Rightarrow> 'w \<Rightarrow> MojoResult \<times> 'w) option"
  tk_GetDataPipeProducerOptions :: "(MojoHandle \<Rightarrow> addr \<Rightarrow> u32 \<Rightarrow> 'w \<Rightarrow> MojoResult \<times> 'w) option"
  tk_GetRights :: "(MojoHandle \<Rightarrow> addr \<Rightarrow> 'w \<Rightarrow> MojoResult \<times> 'w) option"
  tk_DuplicateHandleWithReducedRights :: "(MojoHandle \<Rightarrow> u32 \<Rightarrow> addr \<Rightarrow> 'w \<Rightarrow> MojoResult \<times> 'w) option"
  tk_DuplicateHandle :: "(MojoHandle \<Rightarrow> addr \<Rightarrow> 'w \<Rightarrow> MojoResult \<times> 'w) option"
  tk_ReplaceHandleWithReducedRights :: "(MojoHandle \<Rightarrow> u32 \<Rightarrow> addr \<Rightarrow> 'w \<Rightarrow> MojoResult \<times> 'w) option"
  tk_CreateWaitSet :: "(addr \<Rightarrow> addr \<Rightarrow> 'w \<Rightarrow> MojoResult \<times> 'w) option"
  tk_WaitSetAdd :: "(MojoHandle \<Rightarrow> MojoHandle \<Rightarrow> u32 \<Rightarrow> u64 \<Rightarrow> addr \<Rightarrow> 'w \<Rightarrow> MojoResult \<times> 'w) option"
  tk_WaitSetRemove :: "(MojoHandle \<Rightarrow> u64 \<Rightarrow> 'w \<Rightarrow> MojoResult \<times> 'w) option"
  tk_WaitSetWait :: "(MojoHandle \<Rightarrow> u64 \<Rightarrow> addr \<Rightarrow> addr \<Rightarrow> addr \<Rightarrow> 'w \<Rightarrow> MojoResult \<times> 'w) option"

text \<open>One \<^verbatim>\<open>size_t\<close> and 31 pointers of eight bytes.\<close>

definition sizeof_MojoSystemThunks :: nat where
  "sizeof_MojoSystemThunks = 256"

text \<open>The static table before anything is installed: \<^verbatim>\<open>{0}\<close>.\<close>

definition g_thunks_initial :: "'w MojoSystemThunks" where
  "g_thunks_initial = \<lparr>thunks_size = 0, tk_GetTimeTicksNow = None,
     tk_Close = None,
     tk_Wait = None,
     tk_WaitMany = None,
     tk_CreateMessagePipe = None,
     tk_WriteMessage = None,
     tk_ReadMessage = None,
     tk_CreateDataPipe = None,
     tk_WriteData = None,
     tk_BeginWriteData = None,
     tk_EndWriteData = None,
     tk_ReadData = None,
     tk_BeginReadData = None,
     tk_EndReadData = None,
     tk_CreateSharedBuffer = None,
     tk_DuplicateBufferHandle = None,
     tk_MapBuffer = None,
     tk_UnmapBuffer = None,
     tk_GetBufferInformation = None,
     tk_SetDataPipeConsumerOptions = None,
     tk_GetDataPipeConsumerOptions = None,
     tk_SetDataPipeProducerOptions = None,
     tk_GetDataPipeProducerOptions = None,
     tk_GetRights = None,
     tk_DuplicateHandleWithReducedRights = None,
     tk_DuplicateHandle = None,
     tk_ReplaceHandleWithReducedRights = None,
     tk_CreateWaitSet = None,
     tk_WaitSetAdd = None,
     tk_WaitSetRemove = None,
     tk_WaitSetWait = None\<rparr>"

definition MojoMakeSystemThunks :: "'w MojoSystemFunctions \<Rightarrow> 'w MojoSystemThunks" where
  "MojoMakeSystemThunks embedder = \<lparr>thunks_size = sizeof_MojoSystemThunks,
     tk_GetTimeTicksNow = Some (sys_GetTimeTicksNow embedder),
     tk_Close = Some (sys_Close embedder),
     tk_Wait = Some (sys_Wait embedder),
     tk_WaitMany = Some (sys_WaitMany embedder),
     tk_CreateMessagePipe = Some (sys_CreateMessagePipe embedder),
     tk_WriteMessage = Some (sys_WriteMessage embedder),
     tk_ReadMessage = Some (sys_ReadMessage embedder),
     tk_CreateDataPipe = Some (sys_CreateDataPipe embedder),
     tk_WriteData = Some (sys_WriteData embedder),
     tk_BeginWriteData = Some (sys_BeginWriteData embedder),
     tk_EndWriteData = Some (sys_EndWriteData embedder),
     tk_ReadData = Some (sys_ReadData embedder),
     tk_BeginReadData = Some (sys_BeginReadData embedder),
     tk_EndReadData = Some (sys_EndReadData embedder),
     tk_CreateSharedBuffer = Some (sys_CreateSharedBuffer embedder),
     tk_DuplicateBufferHandle = Some (sys_DuplicateBufferHandle embedder),
     tk_MapBuffer = Some (sys_MapBuffer embedder),
     tk_UnmapBuffer = Some (sys_UnmapBuffer embedder),
     tk_GetBufferInformation = Some (sys_GetBufferInformation embedder),
     tk_SetDataPipeConsumerOptions = Some (sys_SetDataPipeConsumerOptions embedder),
     tk_GetDataPipeConsumerOptions = Some (sys_GetDataPipeConsumerOptions embedder),
     tk_SetDataPipeProducerOptions = Some (sys_SetDataPipeProducerOptions embedder),
     tk_GetDataPipeProducerOptions = Some (sys_GetDataPipeProducerOptions embedder),
     tk_GetRights = Some (sys_GetRights embedder),
     tk_DuplicateHandleWithReducedRights = Some (sys_DuplicateHandleWithReducedRights embedder),
     tk_DuplicateHandle = Some (sys_DuplicateHandle embedder),
     tk_ReplaceHandleWithReducedRights = Some (sys_ReplaceHandleWithReducedRights embedder),
     tk_CreateWaitSet = Some (sys_CreateWaitSet embedder),
     tk_WaitSetAdd = Some (sys_WaitSetAdd embedder),
     tk_WaitSetRemove = Some (sys_WaitSetRemove embedder),
     tk_WaitSetWait = Some (sys_WaitSetWait embedder)\<rparr>"

section \<open>System calls\<close>

definition MojoGetTimeTicksNow ::
  "'w MojoSystemThunks \<Rightarrow> 'w \<Rightarrow> (u64 \<times> 'w) res"
where
  "MojoGetTimeTicksNow g_thunks w = call_thunk (tk_GetTimeTicksNow g_thunks) (\<lambda>f. f w)"

definition MojoClose ::
  "'w MojoSystemThunks \<Rightarrow> MojoHandle \<Rightarrow> 'w \<Rightarrow> (MojoResult \<times> 'w) res"
where
  "MojoClose g_thunks handle w = call_thunk (tk_Close g_thunks) (\<lambda>f. f handle w)"

definition MojoGetRights ::
  "'w MojoSystemThunks \<Rightarrow> MojoHandle \<Rightarrow> addr \<Rightarrow> 'w \<Rightarrow> (MojoResult \<times> 'w) res"
where
  "MojoGetRights g_thunks handle rights w = call_thunk (tk_GetRights g_thunks) (\<lambda>f. f handle rights w)"

definition MojoReplaceHandleWithReducedRights ::
  "'w MojoSystemThunks \<Rightarrow> MojoHandle \<Rightarrow> u32 \<Rightarrow> addr \<Rightarrow> 'w \<Rightarrow> (MojoResult \<times> 'w) res"
where
  "MojoReplaceHandleWithReducedRights g_thunks handle rights_to_remove replacement_handle w = call_thunk (tk_ReplaceHandleWithReducedRights g_thunks) (\<lambda>f. f handle rights_to_remove replacement_handle w)"

definition MojoDuplicateHandleWithReducedRights ::
  "'w MojoSystemThunks \<Rightarrow> MojoHandle \<Rightarrow> u32 \<Rightarrow> addr \<Rightarrow> 'w \<Rightarrow> (MojoResult \<times> 'w) res"
where
  "MojoDuplicateHandleWithReducedRights g_thunks handle rights_to_remove new_handle w = call_thunk (tk_DuplicateHandleWithReducedRights g_thunks) (\<lambda>f. f handle rights_to_remove new_handle w)"

definition MojoDuplicateHandle ::
  "'w MojoSystemThunks \<Rightarrow> MojoHandle \<Rightarrow> addr \<Rightarrow> 'w \<Rightarrow> (MojoResult \<times> 'w) res"
where
  "MojoDuplicateHandle g_thunks handle new_handle w = call_thunk (tk_DuplicateHandle g_thunks) (\<lambda>f. f handle new_handle w)"

definition MojoWait ::
  "'w MojoSystemThunks \<Rightarrow> MojoHandle \<Rightarrow> u32 \<Rightarrow> u64 \<Rightarrow> addr \<Rightarrow> 'w \<Rightarrow> (MojoResult \<times> 'w) res"
where
  "MojoWait g_thunks handle signals deadline signals_state w = call_thunk (tk_Wait g_thunks) (\<lambda>f. f handle signals deadline signals_state w)"

definition MojoWaitMany ::
  "'w MojoSystemThunks \<Rightarrow> addr \<Rightarrow> addr \<Rightarrow> u32 \<Rightarrow> u64 \<Rightarrow> addr \<Rightarrow> addr \<Rightarrow> 'w \<Rightarrow> (MojoResult \<times> 'w) res"
where
  "MojoWaitMany g_thunks handles signals num_handles deadline result_index signals_states w = call_thunk (tk_WaitMany g_thunks) (\<lambda>f. f handles signals num_handles deadline result_index signals_states w)"

definition MojoCreateMessagePipe ::
  "'w MojoSystemThunks \<Rightarrow> addr \<Rightarrow> addr \<Rightarrow> addr \<Rightarrow> 'w \<Rightarrow> (MojoResult \<times> 'w) res"
where
  "MojoCreateMessagePipe g_thunks options message_pipe_handle0 message_pipe_handle1 w = call_thunk (tk_CreateMessagePipe g_thunks) (\<lambda>f. f options message_pipe_handle0 message_pipe_handle1 w)"

definition MojoWriteMessage ::
  "'w MojoSystemThunks \<Rightarrow> MojoHandle \<Rightarrow> addr \<Rightarrow> u32 \<Rightarrow> addr \<Rightarrow> u32 \<Rightarrow> u32 \<Rightarrow> 'w \<Rightarrow> (MojoResult \<times> 'w) res"
where
  "MojoWriteMessage g_thunks message_pipe_handle bytes num_bytes handles num_handles flags w = call_thunk (tk_WriteMessage g_thunks) (\<lambda>f. f message_pipe_handle bytes num_bytes handles num_handles flags w)"

definition MojoReadMessage ::
  "'w MojoSystemThunks \<Rightarrow> MojoHandle \<Rightarrow> addr \<Rightarrow> addr \<Rightarrow> addr \<Rightarrow> addr \<Rightarrow> u32 \<Rightarrow> 'w \<Rightarrow> (MojoResult \<times> 'w) res"
where
  "MojoReadMessage g_thunks message_pipe_handle bytes num_bytes handles num_handles flags w = call_thunk (tk_ReadMessage g_thunks) (\<lambda>f. f message_pipe_handle bytes num_bytes handles num_handles flags w)"

definition MojoCreateDataPipe ::
  "'w MojoSystemThunks \<Rightarrow> addr \<Rightarrow> addr \<Rightarrow> addr \<Rightarrow> 'w \<Rightarrow> (MojoResult \<times> 'w) res"
where
  "MojoCreateDataPipe g_thunks options data_pipe_producer_handle data_pipe_consumer_handle w = call_thunk (tk_CreateDataPipe g_thunks) (\<lambda>f. f options data_pipe_producer_handle data_pipe_consumer_handle w)"

definition MojoSetDataPipeProducerOptions ::
  "'w MojoSystemThunks \<Rightarrow> MojoHandle \<Rightarrow> addr \<Rightarrow> 'w \<Rightarrow> (MojoResult \<times> 'w) res"
where
  "MojoSetDataPipeProducerOptions g_thunks data_pipe_producer_handle options w = call_thunk (tk_SetDataPipeProducerOptions g_thunks) (\<lambda>f. f data_pipe_producer_handle options w)"

definition MojoGetDataPipeProducerOptions ::
  "'w MojoSystemThunks \<Rightarrow> MojoHandle \<Rightarrow> addr \<Rightarrow> u32 \<Rightarrow> 'w \<Rightarrow> (MojoResult \<times> 'w) res"
where
  "MojoGetDataPipeProducerOptions g_thunks data_pipe_producer_handle options options_num_bytes w = call_thunk (tk_GetDataPipeProducerOptions g_thunks) (\<lambda>f. f data_pipe_producer_handle options options_num_bytes w)"

definition MojoWriteData ::
  "'w MojoSystemThunks \<Rightarrow> MojoHandle \<Rightarrow> addr \<Rightarrow> addr \<Rightarrow> u32 \<Rightarrow> 'w \<Rightarrow> (MojoResult \<times> 'w) res"
where
  "MojoWriteData g_thunks data_pipe_producer_handle elements num_elements flags w = call_thunk (tk_WriteData g_thunks) (\<lambda>f. f data_pipe_producer_handle elements num_elements flags w)"

definition MojoBeginWriteData ::
  "'w MojoSystemThunks \<Rightarrow> MojoHandle \<Rightarrow> addr \<Rightarrow> addr \<Rightarrow> u32 \<Rightarrow> 'w \<Rightarrow> (MojoResult \<times> 'w) res"
where
  "MojoBeginWriteData g_thunks data_pipe_producer_handle buffer buffer_num_elements flags w = call_thunk (tk_BeginWriteData g_thunks) (\<lambda>f. f data_pipe_producer_handle buffer buffer_num_elements flags w)"

definition MojoEndWriteData ::
  "'w MojoSystemThunks \<Rightarrow> MojoHandle \<Rightarrow> u32 \<Rightarrow> 'w \<Rightarrow> (MojoResult \<times> 'w) res"
where
  "MojoEndWriteData g_thunks data_pipe_producer_handle num_elements_written w = call_thunk (tk_EndWriteData g_thunks) (\<lambda>f. f data_pipe_producer_handle num_elements_written w)"

definition MojoSetDataPipeConsumerOptions ::
  "'w MojoSystemThunks \<Rightarrow> MojoHandle \<Rightarrow> addr \<Rightarrow> 'w \<Rightarrow> (MojoResult \<times> 'w) res"
where
  "MojoSetDataPipeConsumerOptions g_thunks data_pipe_consumer_handle options w = call_thunk (tk_SetDataPipeConsumerOptions g_thunks) (\<lambda>f. f data_pipe_consumer_handle options w)"

definition MojoGetDataPipeConsumerOptions ::
  "'w MojoSystemThunks \<Rightarrow> MojoHandle \<Rightarrow> addr \<Rightarrow> u32 \<Rightarrow> 'w \<Rightarrow> (MojoResult \<times> 'w) res"
where
  "MojoGetDataPipeConsumerOptions g_thunks data_pipe_consumer_handle options options_num_bytes w = call_thunk (tk_GetDataPipeConsumerOptions g_thunks) (\<lambda>f. f data_pipe_consumer_handle options options_num_bytes w)"

definition MojoReadData ::
  "'w MojoSystemThunks \<Rightarrow> MojoHandle \<Rightarrow> addr \<Rightarrow> addr \<Rightarrow> u32 \<Rightarrow> 'w \<Rightarrow> (MojoResult \<times> 'w) res"
where
  "MojoReadData g_thunks data_pipe_consumer_handle elements num_elements flags w = call_thunk (tk_ReadData g_thunks) (\<lambda>f. f data_pipe_consumer_handle elements num_elements flags w)"

definition MojoBeginReadData ::
  "'w MojoSystemThunks \<Rightarrow> MojoHandle \<Rightarrow> addr \<Rightarrow> addr \<Rightarrow> u32 \<Rightarrow> 'w \<Rightarrow> (MojoResult \<times> 'w) res"
where
  "MojoBeginReadData g_thunks data_pipe_consumer_handle buffer buffer_num_elements flags w = call_thunk (tk_BeginReadData g_thunks) (\<lambda>f. f data_pipe_consumer_handle buffer buffer_num_elements flags w)"

definition MojoEndReadData ::
  "'w MojoSystemThunks \<Rightarrow> MojoHandle \<Rightarrow> u32 \<Rightarrow> 'w \<Rightarrow> (MojoResult \<times> 'w) res"
where
  "MojoEndReadData g_thunks data_pipe_consumer_handle num_elements_read w = call_thunk (tk_EndReadData g_thunks) (\<lambda>f. f data_pipe_consumer_handle num_elements_read w)"

definition MojoCreateSharedBuffer ::
  "'w MojoSystemThunks \<Rightarrow> addr \<Rightarrow> u64 \<Rightarrow> addr \<Rightarrow> 'w \<Rightarrow> (MojoResult \<times> 'w) res"
where
  "MojoCreateSharedBuffer g_thunks options num_bytes shared_buffer_handle w = call_thunk (tk_CreateSharedBuffer g_thunks) (\<lambda>f. f options num_bytes shared_buffer_handle w)"

definition MojoDuplicateBufferHandle ::
  "'w MojoSystemThunks \<Rightarrow> MojoHandle \<Rightarrow> addr \<Rightarrow> addr \<Rightarrow> 'w \<Rightarrow> (MojoResult \<times> 'w) res"
where
  "MojoDuplicateBufferHandle g_thunks buffer_handle options new_buffer_handle w = call_thunk (tk_DuplicateBufferHandle g_thunks) (\<lambda>f. f buffer_handle options new_buffer_handle w)"

definition MojoGetBufferInformation ::
  "'w MojoSystemThunks \<Rightarrow> MojoHandle \<Rightarrow> addr \<Rightarrow> u32 \<Rightarrow> 'w \<Rightarrow> (MojoResult \<times> 'w) res"
where
  "MojoGetBufferInformation g_thunks buffer_handle info info_num_bytes w = call_thunk (tk_GetBufferInformation g_thunks) (\<lambda>f. f buffer_handle info info_num_bytes w)"

definition MojoMapBuffer ::
  "'w MojoSystemThunks \<Rightarrow> MojoHandle \<Rightarrow> u64 \<Rightarrow> u64 \<Rightarrow> addr \<Rightarrow> u32 \<Rightarrow> 'w \<Rightarrow> (MojoResult \<times> 'w) res"
where
  "MojoMapBuffer g_thunks buffer_handle offset num_bytes buffer flags w = call_thunk (tk_MapBuffer g_thunks) (\<lambda>f. f buffer_handle offset num_bytes buffer flags w)"

definition MojoUnmapBuffer ::
  "'w MojoSystemThunks \<Rightarrow> addr \<Rightarrow> 'w \<Rightarrow> (MojoResult \<times> 'w) res"
where
  "MojoUnmapBuffer g_thunks buffer w = call_thunk (tk_UnmapBuffer g_thunks) (\<lambda>f. f buffer w)"

definition MojoCreateWaitSet ::
  "'w MojoSystemThunks \<Rightarrow> addr \<Rightarrow> addr \<Rightarrow> 'w \<Rightarrow> (MojoResult \<times> 'w) res"
where
  "MojoCreateWaitSet g_thunks options handle w = call_thunk (tk_CreateWaitSet g_thunks) (\<lambda>f. f options handle w)"

definition MojoWaitSetAdd ::
  "'w MojoSystemThunks \<Rightarrow> MojoHandle \<Rightarrow> MojoHandle \<Rightarrow> u32 \<Rightarrow> u64 \<Rightarrow> addr \<Rightarrow> 'w \<Rightarrow> (MojoResult \<times> 'w) res"
where
  "MojoWaitSetAdd g_thunks wait_set_handle handle signals cookie options w = call_thunk (tk_WaitSetAdd g_thunks) (\<lambda>f. f wait_set_handle handle signals cookie options w)"

definition MojoWaitSetRemove ::
  "'w MojoSystemThunks \<Rightarrow> MojoHandle \<Rightarrow> u64 \<Rightarrow> 'w \<Rightarrow> (MojoResult \<times> 'w) res"
where
  "MojoWaitSetRemove g_thunks wait_set_handle cookie w = call_thunk (tk_WaitSetRemove g_thunks) (\<lambda>f. f wait_set_handle cookie w)"

definition MojoWaitSetWait ::
  "'w MojoSystemThunks \<Rightarrow> MojoHandle \<Rightarrow> u64 \<Rightarrow> addr \<Rightarrow> addr \<Rightarrow> addr \<Rightarrow> 'w \<Rightarrow> (MojoResult \<times> 'w) res"
where
  "MojoWaitSetWait g_thunks wait_set_handle deadline num_results results max_results w = call_thunk (tk_WaitSetWait g_thunks) (\<lambda>f. f wait_set_handle deadline num_results results max_results w)"

definition MojoSetSystemThunks ::
  "'w MojoSystemThunks \<Rightarrow> 'w MojoSystemThunks \<Rightarrow> 'w MojoSystemThunks \<times> nat"
where
  "MojoSetSystemThunks g_thunks system_thunks =
     (if thunks_size system_thunks \<ge> sizeof_MojoSystemThunks then system_thunks else g_thunks,
      sizeof_MojoSystemThunks)"

lemmas system_call_defs =
  MojoGetTimeTicksNow_def MojoClose_def MojoWait_def
  MojoWaitMany_def MojoCreateMessagePipe_def MojoWriteMessage_def
  MojoReadMessage_def MojoCreateDataPipe_def MojoWriteData_def
  MojoBeginWriteData_def MojoEndWriteData_def MojoReadData_def
  MojoBeginReadData_def MojoEndReadData_def MojoCreateSharedBuffer_def
  MojoDuplicateBufferHandle_def MojoMapBuffer_def MojoUnmapBuffer_def
  MojoGetBufferInformation_def MojoSetDataPipeConsumerOptions_def MojoGetDataPipeConsumerOptions_def
  MojoSetDataPipeProducerOptions_def MojoGetDataPipeProducerOptions_def MojoGetRights_def
  MojoDuplicateHandleWithReducedRights_def MojoDuplicateHandle_def MojoReplaceHandleWithReducedRights_def
  MojoCreateWaitSet_def MojoWaitSetAdd_def MojoWaitSetRemove_def
  MojoWaitSetWait_def

interpretation system_thunks: thunk_table MojoSetSystemThunks thunks_size sizeof_MojoSystemThunks
  by unfold_locales (simp_all add: MojoSetSystemThunks_def)

section \<open>Properties\<close>


text \<open>
  Claim C13. Until a table that is large enough is installed, no system call reaches a function pointer:
  after any sequence of \<^verbatim>\<open>MojoSetSystemThunks\<close> with tables smaller than the library's own, each call
  fails its assertion.
\<close>

theorem system_calls_unbound:
  assumes "\<forall>t \<in> set ts. thunks_size t < sizeof_MojoSystemThunks"
    and "g = install_all MojoSetSystemThunks g_thunks_initial ts"
  shows "MojoGetTimeTicksNow g = (\<lambda>w. Inl AssertFailed) \<and>
     MojoClose g = (\<lambda>handle w. Inl AssertFailed) \<and>
     MojoWait g = (\<lambda>handle signals deadline signals_state w. Inl AssertFailed) \<and>
     MojoWaitMany g = (\<lambda>handles signals num_handles deadline result_index signals_states w. Inl AssertFailed) \<and>
     MojoCreateMessagePipe g = (\<lambda>options message_pipe_handle0 message_pipe_handle1 w. Inl AssertFailed) \<and>
     MojoWriteMessage g = (\<lambda>message_pipe_handle bytes num_bytes handles num_handles flags w. Inl AssertFailed) \<and>
     MojoReadMessage g = (\<lambda>message_pipe_handle bytes num_bytes handles num_handles flags w. Inl AssertFailed) \<and>
     MojoCreateDataPipe g = (\<lambda>options data_pipe_producer_handle data_pipe_consumer_handle w. Inl AssertFailed) \<and>
     MojoWriteData g = (\<lambda>data_pipe_producer_handle elements num_elements flags w. Inl AssertFailed) \<and>
     MojoBeginWriteData g = (\<lambda>data_pipe_producer_handle buffer buffer_num_elements flags w. Inl AssertFailed) \<and>
     MojoEndWriteData g = (\<lambda>data_pipe_producer_handle num_elements_written w. Inl AssertFailed) \<and>
     MojoReadData g = (\<lambda>data_pipe_consumer_handle elements num_elements flags w. Inl AssertFailed) \<and>
     MojoBeginReadData g = (\<lambda>data_pipe_consumer_handle buffer buffer_num_elements flags w. Inl AssertFailed) \<and>
     MojoEndReadData g = (\<lambda>data_pipe_consumer_handle num_elements_read w. Inl AssertFailed) \<and>
     MojoCreateSharedBuffer g = (\<lambda>options num_bytes shared_buffer_handle w. Inl AssertFailed) \<and>
     MojoDuplicateBufferHandle g = (\<lambda>buffer_handle options new_buffer_handle w. Inl AssertFailed) \<and>
     MojoMapBuffer g = (\<lambda>buffer_handle offset num_bytes buffer flags w. Inl AssertFailed) \<and>
     MojoUnmapBuffer g = (\<lambda>buffer w. Inl AssertFailed) \<and>
     MojoGetBufferInformation g = (\<lambda>buffer_handle info info_num_bytes w. Inl AssertFailed) \<and>
     MojoSetDataPipeConsumerOptions g = (\<lambda>data_pipe_consumer_handle options w. Inl AssertFailed) \<and>
     MojoGetDataPipeConsumerOptions g = (\<lambda>data_pipe_consumer_handle options options_num_bytes w. Inl AssertFailed) \<and>
     MojoSetDataPipeProducerOptions g = (\<lambda>data_pipe_producer_handle options w. Inl AssertFailed) \<and>
     MojoGetDataPipeProducerOptions g = (\<lambda>data_pipe_producer_handle options options_num_bytes w. Inl AssertFailed) \<and>
     MojoGetRights g = (\<lambda>handle rights w. Inl AssertFailed) \<and>
     MojoDuplicateHandleWithReducedRights g = (\<lambda>handle rights_to_remove new_handle w. Inl AssertFailed) \<and>
     MojoDuplicateHandle g = (\<lambda>handle new_handle w. Inl AssertFailed) \<and>
     MojoReplaceHandleWithReducedRights g = (\<lambda>handle rights_to_remove replacement_handle w. Inl AssertFailed) \<and>
     MojoCreateWaitSet g = (\<lambda>options handle w. Inl AssertFailed) \<and>
     MojoWaitSetAdd g = (\<lambda>wait_set_handle handle signals cookie options w. Inl AssertFailed) \<and>
     MojoWaitSetRemove g = (\<lambda>wait_set_handle cookie w. Inl AssertFailed) \<and>
     MojoWaitSetWait g = (\<lambda>wait_set_handle deadline num_results results max_results w. Inl AssertFailed)"
proof -
  from assms(1) have "filter (\<lambda>t. sizeof_MojoSystemThunks \<le> thunks_size t) (rev ts) = []"
    by (auto simp: filter_empty_conv)
  then have "g = g_thunks_initial"
    using system_thunks.last_large_table [of g_thunks_initial ts] assms(2) by simp
  then show ?thesis by (simp add: g_thunks_initial_def system_call_defs fun_eq_iff)
qed

theorem system_calls_unbound_witness:
  "MojoClose (install_all MojoSetSystemThunks g_thunks_initial
     [(g_thunks_initial :: unit MojoSystemThunks)\<lparr>thunks_size := 16\<rparr>]) =
   (\<lambda>handle w. Inl AssertFailed)"
  using system_calls_unbound [of "[(g_thunks_initial :: unit MojoSystemThunks)\<lparr>thunks_size := 16\<rparr>]",
      OF _ refl]
  by (simp add: sizeof_MojoSystemThunks_def)

end
