(* ===== verification/Mojo_GraphicsThunks.thy ===== *)
theory Mojo_GraphicsThunks
  imports Mojo_Thunks Mojom_Types "HOL-Library.List_Lexorder" "HOL-Library.Char_ord"
begin

text \<open>
  The thunk tables of the graphics interfaces. \<^verbatim>\<open>mgl_thunks\<close>, \<^verbatim>\<open>mgl_onscreen_thunks\<close>,
  \<^verbatim>\<open>mgl_echo_thunks\<close> and \<^verbatim>\<open>mgl_signal_sync_point_thunks\<close> bind the context functions, and
  \<^verbatim>\<open>platform_handle_private_thunks\<close> the wrapping of file descriptors. The GL tables are one macro,
  \<^verbatim>\<open>VISIT_GL_CALL\<close>, expanded over the lists of calls in \<^verbatim>\<open>gles2/call_visitor_*_autogen.h\<close>: the same
  list gives the fields of the table, the functions that forward to them and the initialiser. The
  model is the expansion as a function of the list of calls, applied to each of the lists.
\<close>

section \<open>MGL\<close>

record 'w MGLFunctions =
  mgl_MGLCreateContext :: "u32 \<Rightarrow> MojoHandle \<Rightarrow> addr \<Rightarrow> addr \<Rightarrow> addr \<Rightarrow> addr \<Rightarrow> 'w \<Rightarrow> addr \<times> 'w"
  mgl_MGLDestroyContext :: "addr \<Rightarrow> 'w \<Rightarrow> 'w"
  mgl_MGLMakeCurrent :: "addr \<Rightarrow> 'w \<Rightarrow> 'w"
  mgl_MGLGetCurrentContext :: "'w \<Rightarrow> addr \<times> 'w"
  mgl_MGLGetProcAddress :: "addr \<Rightarrow> 'w \<Rightarrow> addr \<times> 'w"

record 'w MGLThunks =
  mgl_size :: nat
  tk_MGLCreateContext ::
    "(u32 \<Rightarrow> MojoHandle \<Rightarrow> addr \<Rightarrow> addr \<Rightarrow> addr \<Rightarrow> addr \<Rightarrow> 'w \<Rightarrow> addr \<times> 'w) option"
  tk_MGLDestroyContext :: "(addr \<Rightarrow> 'w \<Rightarrow> 'w) option"
  tk_MGLMakeCurrent :: "(addr \<Rightarrow> 'w \<Rightarrow> 'w) option"
  tk_MGLGetCurrentContext :: "('w \<Rightarrow> addr \<times> 'w) option"
  tk_MGLGetProcAddress :: "(addr \<Rightarrow> 'w \<Rightarrow> addr \<times> 'w) option"

definition sizeof_MGLThunks :: nat where "sizeof_MGLThunks = 48"

definition MojoMakeMGLThunks :: "'w MGLFunctions \<Rightarrow> 'w MGLThunks" where
  "MojoMakeMGLThunks embedder = \<lparr>mgl_size = sizeof_MGLThunks,
     tk_MGLCreateContext = Some (mgl_MGLCreateContext embedder),
     tk_MGLDestroyContext = Some (mgl_MGLDestroyContext embedder),
     tk_MGLMakeCurrent = Some (mgl_MGLMakeCurrent embedder),
     tk_MGLGetCurrentContext = Some (mgl_MGLGetCurrentContext embedder),
     tk_MGLGetProcAddress = Some (mgl_MGLGetProcAddress embedder)\<rparr>"

definition MGLCreateContext ::
  "'w MGLThunks \<Rightarrow> u32 \<Rightarrow> MojoHandle \<Rightarrow> addr \<Rightarrow> addr \<Rightarrow> addr \<Rightarrow> addr \<Rightarrow> 'w \<Rightarrow> (addr \<times> 'w) res"
where
  "MGLCreateContext g_thunks version command_buffer_handle share_group lost_callback
       lost_callback_closure async_waiter w =
     call_thunk (tk_MGLCreateContext g_thunks) (\<lambda>f. f version command_buffer_handle share_group
       lost_callback lost_callback_closure async_waiter w)"

definition MGLDestroyContext :: "'w MGLThunks \<Rightarrow> addr \<Rightarrow> 'w \<Rightarrow> 'w res" where
  "MGLDestroyContext g_thunks ctx w = call_thunk (tk_MGLDestroyContext g_thunks) (\<lambda>f. f ctx w)"

definition MGLMakeCurrent :: "'w MGLThunks \<Rightarrow> addr \<Rightarrow> 'w \<Rightarrow> 'w res" where
  "MGLMakeCurrent g_thunks ctx w = call_thunk (tk_MGLMakeCurrent g_thunks) (\<lambda>f. f ctx w)"

definition MGLGetCurrentContext :: "'w MGLThunks \<Rightarrow> 'w \<Rightarrow> (addr \<times> 'w) res" where
  "MGLGetCurrentContext g_thunks w = call_thunk (tk_MGLGetCurrentContext g_thunks) (\<lambda>f. f w)"

definition MGLGetProcAddress :: "'w MGLThunks \<Rightarrow> addr \<Rightarrow> 'w \<Rightarrow> (addr \<times> 'w) res" where
  "MGLGetProcAddress g_thunks name w = call_thunk (tk_MGLGetProcAddress g_thunks) (\<lambda>f. f name w)"

definition MojoSetMGLThunks :: "'w MGLThunks \<Rightarrow> 'w MGLThunks \<Rightarrow> 'w MGLThunks \<times> nat" where
  "MojoSetMGLThunks g_thunks mgl_thunks =
     (if mgl_size mgl_thunks \<ge> sizeof_MGLThunks then mgl_thunks else g_thunks, sizeof_MGLThunks)"

interpretation mgl_thunks: thunk_table MojoSetMGLThunks mgl_size sizeof_MGLThunks
  by unfold_locales (simp_all add: MojoSetMGLThunks_def)

section \<open>Onscreen surfaces, echo and sync points\<close>

record 'w MGLOnscreenThunks =
  onscreen_size :: nat
  tk_MGLResizeSurface :: "(u32 \<Rightarrow> u32 \<Rightarrow> 'w \<Rightarrow> 'w) option"
  tk_MGLSwapBuffers :: "('w \<Rightarrow> 'w) option"

definition sizeof_MGLOnscreenThunks :: nat where "sizeof_MGLOnscreenThunks = 24"

definition MojoMakeMGLOnscreenThunks ::
  "(u32 \<Rightarrow> u32 \<Rightarrow> 'w \<Rightarrow> 'w) \<Rightarrow> ('w \<Rightarrow> 'w) \<Rightarrow> 'w MGLOnscreenThunks"
where
  "MojoMakeMGLOnscreenThunks resize_surface swap_buffers =
     \<lparr>onscreen_size = sizeof_MGLOnscreenThunks, tk_MGLResizeSurface = Some resize_surface,
      tk_MGLSwapBuffers = Some swap_buffers\<rparr>"

definition MGLResizeSurface :: "'w MGLOnscreenThunks \<Rightarrow> u32 \<Rightarrow> u32 \<Rightarrow> 'w \<Rightarrow> 'w res" where
  "MGLResizeSurface g_onscreen_thunks width height w =
     call_thunk (tk_MGLResizeSurface g_onscreen_thunks) (\<lambda>f. f width height w)"

definition MGLSwapBuffers :: "'w MGLOnscreenThunks \<Rightarrow> 'w \<Rightarrow> 'w res" where
  "MGLSwapBuffers g_onscreen_thunks w = call_thunk (tk_MGLSwapBuffers g_onscreen_thunks) (\<lambda>f. f w)"

definition MojoSetMGLOnscreenThunks ::
  "'w MGLOnscreenThunks \<Rightarrow> 'w MGLOnscreenThunks \<Rightarrow> 'w MGLOnscreenThunks \<times> nat"
where
  "MojoSetMGLOnscreenThunks g_onscreen_thunks mgl_onscreen_thunks =
     (if onscreen_size mgl_onscreen_thunks \<ge> sizeof_MGLOnscreenThunks then mgl_onscreen_thunks
      else g_onscreen_thunks, sizeof_MGLOnscreenThunks)"

interpretation onscreen_thunks: thunk_table MojoSetMGLOnscreenThunks onscreen_size sizeof_MGLOnscreenThunks
  by unfold_locales (simp_all add: MojoSetMGLOnscreenThunks_def)

record 'w MGLEchoThunks =
  echo_size :: nat
  tk_MGLEcho :: "(addr \<Rightarrow> addr \<Rightarrow> 'w \<Rightarrow> 'w) option"

definition sizeof_MGLEchoThunks :: nat where "sizeof_MGLEchoThunks = 16"

definition MojoMakeMGLEchoThunks :: "(addr \<Rightarrow> addr \<Rightarrow> 'w \<Rightarrow> 'w) \<Rightarrow> 'w MGLEchoThunks" where
  "MojoMakeMGLEchoThunks echo = \<lparr>echo_size = sizeof_MGLEchoThunks, tk_MGLEcho = Some echo\<rparr>"

definition MGLEcho :: "'w MGLEchoThunks \<Rightarrow> addr \<Rightarrow> addr \<Rightarrow> 'w \<Rightarrow> 'w res" where
  "MGLEcho g_echo_thunks callback closure w =
     call_thunk (tk_MGLEcho g_echo_thunks) (\<lambda>f. f callback closure w)"

definition MojoSetMGLEchoThunks ::
  "'w MGLEchoThunks \<Rightarrow> 'w MGLEchoThunks \<Rightarrow> 'w MGLEchoThunks \<times> nat"
where
  "MojoSetMGLEchoThunks g_echo_thunks mgl_echo_thunks =
     (if echo_size mgl_echo_thunks \<ge> sizeof_MGLEchoThunks then mgl_echo_thunks else g_echo_thunks,
      sizeof_MGLEchoThunks)"

interpretation echo_thunks: thunk_table MojoSetMGLEchoThunks echo_size sizeof_MGLEchoThunks
  by unfold_locales (simp_all add: MojoSetMGLEchoThunks_def)

record 'w MGLSignalSyncPointThunks =
  sync_point_size :: nat
  tk_MGLSignalSyncPoint :: "(u32 \<Rightarrow> addr \<Rightarrow> addr \<Rightarrow> 'w \<Rightarrow> 'w) option"

definition sizeof_MGLSignalSyncPointThunks :: nat where "sizeof_MGLSignalSyncPointThunks = 16"

definition MojoMakeMGLSignalSyncPointThunks ::
  "(u32 \<Rightarrow> addr \<Rightarrow> addr \<Rightarrow> 'w \<Rightarrow> 'w) \<Rightarrow> 'w MGLSignalSyncPointThunks"
where
  "MojoMakeMGLSignalSyncPointThunks signal =
     \<lparr>sync_point_size = sizeof_MGLSignalSyncPointThunks, tk_MGLSignalSyncPoint = Some signal\<rparr>"

definition MGLSignalSyncPoint ::
  "'w MGLSignalSyncPointThunks \<Rightarrow> u32 \<Rightarrow> addr \<Rightarrow> addr \<Rightarrow> 'w \<Rightarrow> 'w res"
where
  "MGLSignalSyncPoint g_signal_sync_point_thunks sync_point callback closure w =
     call_thunk (tk_MGLSignalSyncPoint g_signal_sync_point_thunks)
       (\<lambda>f. f sync_point callback closure w)"

definition MojoSetMGLSignalSyncPointThunks ::
  "'w MGLSignalSyncPointThunks \<Rightarrow> 'w MGLSignalSyncPointThunks \<Rightarrow> 'w MGLSignalSyncPointThunks \<times> nat"
where
  "MojoSetMGLSignalSyncPointThunks g_signal_sync_point_thunks mgl_signal_sync_point_thunks =
     (if sync_point_size mgl_signal_sync_point_thunks \<ge> sizeof_MGLSignalSyncPointThunks
      then mgl_signal_sync_point_thunks else g_signal_sync_point_thunks,
      sizeof_MGLSignalSyncPointThunks)"

interpretation sync_point_thunks: thunk_table MojoSetMGLSignalSyncPointThunks sync_point_size
    sizeof_MGLSignalSyncPointThunks
  by unfold_locales (simp_all add: MojoSetMGLSignalSyncPointThunks_def)

section \<open>Platform handles\<close>

text \<open>A \<^verbatim>\<open>MojoPlatformHandle\<close> is a C \<^verbatim>\<open>int\<close>, kept as its 32 bits.\<close>

record 'w MojoPlatformHandlePrivateThunks =
  platform_handle_size :: nat
  tk_CreatePlatformHandleWrapper :: "(u32 \<Rightarrow> addr \<Rightarrow> 'w \<Rightarrow> u32 \<times> 'w) option"
  tk_ExtractPlatformHandle :: "(MojoHandle \<Rightarrow> addr \<Rightarrow> 'w \<Rightarrow> u32 \<times> 'w) option"

definition sizeof_MojoPlatformHandlePrivateThunks :: nat where
  "sizeof_MojoPlatformHandlePrivateThunks = 24"

definition MojoMakePlatformHandlePrivateThunks ::
  "(u32 \<Rightarrow> addr \<Rightarrow> 'w \<Rightarrow> u32 \<times> 'w) \<Rightarrow> (MojoHandle \<Rightarrow> addr \<Rightarrow> 'w \<Rightarrow> u32 \<times> 'w) \<Rightarrow>
   'w MojoPlatformHandlePrivateThunks"
where
  "MojoMakePlatformHandlePrivateThunks create extract =
     \<lparr>platform_handle_size = sizeof_MojoPlatformHandlePrivateThunks,
      tk_CreatePlatformHandleWrapper = Some create, tk_ExtractPlatformHandle = Some extract\<rparr>"

definition MojoCreatePlatformHandleWrapper ::
  "'w MojoPlatformHandlePrivateThunks \<Rightarrow> u32 \<Rightarrow> addr \<Rightarrow> 'w \<Rightarrow> (u32 \<times> 'w) res"
where
  "MojoCreatePlatformHandleWrapper g_thunks platform_handle wrapper_handle w =
     call_thunk (tk_CreatePlatformHandleWrapper g_thunks) (\<lambda>f. f platform_handle wrapper_handle w)"

definition MojoExtractPlatformHandle ::
  "'w MojoPlatformHandlePrivateThunks \<Rightarrow> MojoHandle \<Rightarrow> addr \<Rightarrow> 'w \<Rightarrow> (u32 \<times> 'w) res"
where
  "MojoExtractPlatformHandle g_thunks wrapper_handle platform_handle w =
     call_thunk (tk_ExtractPlatformHandle g_thunks) (\<lambda>f. f wrapper_handle platform_handle w)"

definition MojoSetPlatformHandlePrivateThunks ::
  "'w MojoPlatformHandlePrivateThunks \<Rightarrow> 'w MojoPlatformHandlePrivateThunks \<Rightarrow>
   'w MojoPlatformHandlePrivateThunks \<times> nat"
where
  "MojoSetPlatformHandlePrivateThunks g_thunks thunks =
     (if platform_handle_size thunks \<ge> sizeof_MojoPlatformHandlePrivateThunks then thunks else g_thunks,
      sizeof_MojoPlatformHandlePrivateThunks)"

interpretation platform_handle_thunks: thunk_table MojoSetPlatformHandlePrivateThunks
    platform_handle_size sizeof_MojoPlatformHandlePrivateThunks
  by unfold_locales (simp_all add: MojoSetPlatformHandlePrivateThunks_def)

section \<open>GL calls\<close>

text \<open>A GL function takes scalar and pointer arguments, and returns a scalar, a pointer or nothing
  (0); all are words of at most 64 bits.\<close>

type_synonym 'w gl_function = "u64 list \<Rightarrow> 'w \<Rightarrow> u64 \<times> 'w"

record 'w GLThunks =
  gl_size :: nat
  gl_functions :: "string \<Rightarrow> 'w gl_function option"

definition sizeof_GLThunks :: "string list \<Rightarrow> nat" where
  "sizeof_GLThunks calls = 8 * (1 + length calls)"

definition MojoMakeGLThunks :: "string list \<Rightarrow> (string \<Rightarrow> 'w gl_function) \<Rightarrow> 'w GLThunks" where
  "MojoMakeGLThunks calls gl =
     \<lparr>gl_size = sizeof_GLThunks calls,
      gl_functions = (\<lambda>f. if f \<in> set calls then Some (gl f) else None)\<rparr>"

definition gl_call :: "'w GLThunks \<Rightarrow> string \<Rightarrow> u64 list \<Rightarrow> 'w \<Rightarrow> (u64 \<times> 'w) res" where
  "gl_call g_thunks f args w = call_thunk (gl_functions g_thunks f) (\<lambda>fn. fn args w)"

definition MojoSetGLThunks :: "string list \<Rightarrow> 'w GLThunks \<Rightarrow> 'w GLThunks \<Rightarrow> 'w GLThunks \<times> nat" where
  "MojoSetGLThunks calls g_thunks thunks =
     (if gl_size thunks \<ge> sizeof_GLThunks calls then thunks else g_thunks, sizeof_GLThunks calls)"

interpretation gl_thunks: thunk_table "MojoSetGLThunks calls" gl_size "sizeof_GLThunks calls" for calls
  by unfold_locales (simp_all add: MojoSetGLThunks_def)

subsection \<open>The lists of calls\<close>

definition gles2_calls :: "string list" where
  "gles2_calls =
     [''ActiveTexture'', ''AttachShader'', ''BindAttribLocation'', ''BindBuffer'',
      ''BindFramebuffer'', ''BindRenderbuffer'', ''BindTexture'', ''BlendColor'', ''BlendEquation'',
      ''BlendEquationSeparate'', ''BlendFunc'', ''BlendFuncSeparate'', ''BufferData'',
      ''BufferSubData'', ''CheckFramebufferStatus'', ''Clear'', ''ClearColor'', ''ClearDepthf'',
      ''ClearStencil'', ''ColorMask'', ''CompileShader'', ''CompressedTexImage2D'',
      ''CompressedTexSubImage2D'', ''CopyTexImage2D'', ''CopyTexSubImage2D'', ''CreateProgram'',
      ''CreateShader'', ''CullFace'', ''DeleteBuffers'', ''DeleteFramebuffers'', ''DeleteProgram'',
      ''DeleteRenderbuffers'', ''DeleteShader'', ''DeleteTextures'', ''DepthFunc'', ''DepthMask'',
      ''DepthRangef'', ''DetachShader'', ''Disable'', ''DisableVertexAttribArray'', ''DrawArrays'',
      ''DrawElements'', ''Enable'', ''EnableVertexAttribArray'', ''Finish'', ''Flush'',
      ''FramebufferRenderbuffer'', ''FramebufferTexture2D'', ''FrontFace'', ''GenBuffers'',
      ''GenerateMipmap'', ''GenFramebuffers'', ''GenRenderbuffers'', ''GenTextures'',
      ''GetActiveAttrib'', ''GetActiveUniform'', ''GetAttachedShaders'', ''GetAttribLocation'',
      ''GetBooleanv'', ''GetBufferParameteriv'', ''GetError'', ''GetFloatv'',
      ''GetFramebufferAttachmentParameteriv'', ''GetIntegerv'', ''GetProgramiv'',
      ''GetProgramInfoLog'', ''GetRenderbufferParameteriv'', ''GetShaderiv'', ''GetShaderInfoLog'',
      ''GetShaderPrecisionFormat'', ''GetShaderSource'', ''GetString'', ''GetTexParameterfv'',
      ''GetTexParameteriv'', ''GetUniformfv'', ''GetUniformiv'', ''GetUniformLocation'',
      ''GetVertexAttribfv'', ''GetVertexAttribiv'', ''GetVertexAttribPointerv'', ''Hint'',
      ''IsBuffer'', ''IsEnabled'', ''IsFramebuffer'', ''IsProgram'', ''IsRenderbuffer'',
      ''IsShader'', ''IsTexture'', ''LineWidth'', ''LinkProgram'', ''PixelStorei'',
      ''PolygonOffset'', ''ReadPixels'', ''ReleaseShaderCompiler'', ''RenderbufferStorage'',
      ''SampleCoverage'', ''Scissor'', ''ShaderBinary'', ''ShaderSource'', ''StencilFunc'',
      ''StencilFuncSeparate'', ''StencilMask'', ''StencilMaskSeparate'', ''StencilOp'',
      ''StencilOpSeparate'', ''TexImage2D'', ''TexParameterf'', ''TexParameterfv'',
      ''TexParameteri'', ''TexParameteriv'', ''TexSubImage2D'', ''Uniform1f'', ''Uniform1fv'',
      ''Uniform1i'', ''Uniform1iv'', ''Uniform2f'', ''Uniform2fv'', ''Uniform2i'', ''Uniform2iv'',
      ''Uniform3f'', ''Uniform3fv'', ''Uniform3i'', ''Uniform3iv'', ''Uniform4f'', ''Uniform4fv'',
      ''Uniform4i'', ''Uniform4iv'', ''UniformMatrix2fv'', ''UniformMatrix3fv'',
      ''UniformMatrix4fv'', ''UseProgram'', ''ValidateProgram'', ''VertexAttrib1f'',
      ''VertexAttrib1fv'', ''VertexAttrib2f'', ''VertexAttrib2fv'', ''VertexAttrib3f'',
      ''VertexAttrib3fv'', ''VertexAttrib4f'', ''VertexAttrib4fv'', ''VertexAttribPointer'',
      ''Viewport'']"

definition chromium_bind_uniform_location_calls :: "string list" where
  "chromium_bind_uniform_location_calls =
     [''BindUniformLocationCHROMIUM'']"

definition chromium_map_sub_calls :: "string list" where
  "chromium_map_sub_calls =
     [''MapBufferSubDataCHROMIUM'', ''UnmapBufferSubDataCHROMIUM'', ''MapTexSubImage2DCHROMIUM'',
      ''UnmapTexSubImage2DCHROMIUM'']"

definition chromium_miscellaneous_calls :: "string list" where
  "chromium_miscellaneous_calls =
     [''ShallowFlushCHROMIUM'']"

definition chromium_resize_calls :: "string list" where
  "chromium_resize_calls =
     [''ResizeCHROMIUM'']"

definition chromium_sync_point_calls :: "string list" where
  "chromium_sync_point_calls =
     [''InsertSyncPointCHROMIUM'', ''WaitSyncPointCHROMIUM'']"

definition chromium_texture_mailbox_calls :: "string list" where
  "chromium_texture_mailbox_calls =
     [''GenMailboxCHROMIUM'', ''ProduceTextureCHROMIUM'', ''ProduceTextureDirectCHROMIUM'',
      ''ConsumeTextureCHROMIUM'', ''CreateAndConsumeTextureCHROMIUM'']"

definition ext_debug_marker_calls :: "string list" where
  "ext_debug_marker_calls =
     [''InsertEventMarkerEXT'', ''PushGroupMarkerEXT'', ''PopGroupMarkerEXT'']"

definition ext_discard_framebuffer_calls :: "string list" where
  "ext_discard_framebuffer_calls =
     [''DiscardFramebufferEXT'']"

definition ext_multisampled_render_to_texture_calls :: "string list" where
  "ext_multisampled_render_to_texture_calls =
     [''RenderbufferStorageMultisampleEXT'', ''FramebufferTexture2DMultisampleEXT'']"

definition ext_occlusion_query_calls :: "string list" where
  "ext_occlusion_query_calls =
     [''GenQueriesEXT'', ''DeleteQueriesEXT'', ''IsQueryEXT'', ''BeginQueryEXT'', ''EndQueryEXT'',
      ''GetQueryivEXT'', ''GetQueryObjectuivEXT'']"

definition ext_texture_storage_calls :: "string list" where
  "ext_texture_storage_calls =
     [''TexStorage2DEXT'']"

definition khr_blend_equation_advanced_calls :: "string list" where
  "khr_blend_equation_advanced_calls =
     [''BlendBarrierKHR'']"

definition oes_vertex_array_object_calls :: "string list" where
  "oes_vertex_array_object_calls =
     [''GenVertexArraysOES'', ''DeleteVertexArraysOES'', ''IsVertexArrayOES'',
      ''BindVertexArrayOES'']"

definition all_calls :: "string list list" where
  "all_calls =
     [gles2_calls, chromium_bind_uniform_location_calls, chromium_map_sub_calls,
     chromium_miscellaneous_calls, chromium_resize_calls, chromium_sync_point_calls,
     chromium_texture_mailbox_calls, ext_debug_marker_calls, ext_discard_framebuffer_calls,
     ext_multisampled_render_to_texture_calls, ext_occlusion_query_calls,
     ext_texture_storage_calls, khr_blend_equation_advanced_calls,
     oes_vertex_array_object_calls]"

lemmas call_lists =
  gles2_calls_def chromium_bind_uniform_location_calls_def chromium_map_sub_calls_def
  chromium_miscellaneous_calls_def chromium_resize_calls_def chromium_sync_point_calls_def
  chromium_texture_mailbox_calls_def ext_debug_marker_calls_def ext_discard_framebuffer_calls_def
  ext_multisampled_render_to_texture_calls_def ext_occlusion_query_calls_def
  ext_texture_storage_calls_def khr_blend_equation_advanced_calls_def
  oes_vertex_array_object_calls_def

subsection \<open>The tables\<close>

definition MojoSetGLES2ImplThunks :: "'w GLThunks \<Rightarrow> 'w GLThunks \<Rightarrow> 'w GLThunks \<times> nat" where
  "MojoSetGLES2ImplThunks = MojoSetGLThunks gles2_calls"

definition MojoSetGLES2ImplCHROMIUMBindUniformLocationThunks ::
  "'w GLThunks \<Rightarrow> 'w GLThunks \<Rightarrow> 'w GLThunks \<times> nat"
where
  "MojoSetGLES2ImplCHROMIUMBindUniformLocationThunks = MojoSetGLThunks chromium_bind_uniform_location_calls"

definition MojoSetGLES2ImplCHROMIUMMapSubThunks ::
  "'w GLThunks \<Rightarrow> 'w GLThunks \<Rightarrow> 'w GLThunks \<times> nat"
where
  "MojoSetGLES2ImplCHROMIUMMapSubThunks = MojoSetGLThunks chromium_map_sub_calls"

definition MojoSetGLES2ImplCHROMIUMMiscellaneousThunks ::
  "'w GLThunks \<Rightarrow> 'w GLThunks \<Rightarrow> 'w GLThunks \<times> nat"
where
  "MojoSetGLES2ImplCHROMIUMMiscellaneousThunks = MojoSetGLThunks chromium_miscellaneous_calls"

definition MojoSetGLES2ImplCHROMIUMResizeThunks ::
  "'w GLThunks \<Rightarrow> 'w GLThunks \<Rightarrow> 'w GLThunks \<times> nat"
where
  "MojoSetGLES2ImplCHROMIUMResizeThunks = MojoSetGLThunks chromium_resize_calls"

definition MojoSetGLES2ImplCHROMIUMSyncPointThunks ::
  "'w GLThunks \<Rightarrow> 'w GLThunks \<Rightarrow> 'w GLThunks \<times> nat"
where
  "MojoSetGLES2ImplCHROMIUMSyncPointThunks = MojoSetGLThunks chromium_sync_point_calls"

definition MojoSetGLES2ImplCHROMIUMTextureMailboxThunks ::
  "'w GLThunks \<Rightarrow> 'w GLThunks \<Rightarrow> 'w GLThunks \<times> nat"
where
  "MojoSetGLES2ImplCHROMIUMTextureMailboxThunks = MojoSetGLThunks chromium_texture_mailbox_calls"

definition MojoSetGLES2ImplEXTDebugMarkerThunks ::
  "'w GLThunks \<Rightarrow> 'w GLThunks \<Rightarrow> 'w GLThunks \<times> nat"
where
  "MojoSetGLES2ImplEXTDebugMarkerThunks = MojoSetGLThunks ext_debug_marker_calls"

definition MojoSetGLES2ImplEXTDiscardFramebufferThunks ::
  "'w GLThunks \<Rightarrow> 'w GLThunks \<Rightarrow> 'w GLThunks \<times> nat"
where
  "MojoSetGLES2ImplEXTDiscardFramebufferThunks = MojoSetGLThunks ext_discard_framebuffer_calls"

definition MojoSetGLES2ImplEXTMultisampledRenderToTextureThunks ::
  "'w GLThunks \<Rightarrow> 'w GLThunks \<Rightarrow> 'w GLThunks \<times> nat"
where
  "MojoSetGLES2ImplEXTMultisampledRenderToTextureThunks = MojoSetGLThunks ext_multisampled_render_to_texture_calls"

definition MojoSetGLES2ImplEXTOcclusionQueryThunks ::
  "'w GLThunks \<Rightarrow> 'w GLThunks \<Rightarrow> 'w GLThunks \<times> nat"
where
  "MojoSetGLES2ImplEXTOcclusionQueryThunks = MojoSetGLThunks ext_occlusion_query_calls"

definition MojoSetGLES2ImplEXTTextureStorageThunks ::
  "'w GLThunks \<Rightarrow> 'w GLThunks \<Rightarrow> 'w GLThunks \<times> nat"
where
  "MojoSetGLES2ImplEXTTextureStorageThunks = MojoSetGLThunks ext_texture_storage_calls"

definition MojoSetGLES2ImplKHRBlendEquationAdvancedThunks ::
  "'w GLThunks \<Rightarrow> 'w GLThunks \<Rightarrow> 'w GLThunks \<times> nat"
where
  "MojoSetGLES2ImplKHRBlendEquationAdvancedThunks = MojoSetGLThunks khr_blend_equation_advanced_calls"

definition MojoSetGLES2ImplOESVertexArrayObjectThunks ::
  "'w GLThunks \<Rightarrow> 'w GLThunks \<Rightarrow> 'w GLThunks \<times> nat"
where
  "MojoSetGLES2ImplOESVertexArrayObjectThunks = MojoSetGLThunks oes_vertex_array_object_calls"

definition MojoMakeGLES2ImplThunks :: "(string \<Rightarrow> 'w gl_function) \<Rightarrow> 'w GLThunks" where
  "MojoMakeGLES2ImplThunks = MojoMakeGLThunks gles2_calls"

definition MojoMakeGLES2ImplCHROMIUMBindUniformLocationThunks :: "(string \<Rightarrow> 'w gl_function) \<Rightarrow> 'w GLThunks" where
  "MojoMakeGLES2ImplCHROMIUMBindUniformLocationThunks = MojoMakeGLThunks chromium_bind_uniform_location_calls"

definition MojoMakeGLES2ImplCHROMIUMMapSubThunks :: "(string \<Rightarrow> 'w gl_function) \<Rightarrow> 'w GLThunks" where
  "MojoMakeGLES2ImplCHROMIUMMapSubThunks = MojoMakeGLThunks chromium_map_sub_calls"

definition MojoMakeGLES2ImplCHROMIUMMiscellaneousThunks :: "(string \<Rightarrow> 'w gl_function) \<Rightarrow> 'w GLThunks" where
  "MojoMakeGLES2ImplCHROMIUMMiscellaneousThunks = MojoMakeGLThunks chromium_miscellaneous_calls"

definition MojoMakeGLES2ImplCHROMIUMResizeThunks :: "(string \<Rightarrow> 'w gl_function) \<Rightarrow> 'w GLThunks" where
  "MojoMakeGLES2ImplCHROMIUMResizeThunks = MojoMakeGLThunks chromium_resize_calls"

definition MojoMakeGLES2ImplCHROMIUMSyncPointThunks :: "(string \<Rightarrow> 'w gl_function) \<Rightarrow> 'w GLThunks" where
  "MojoMakeGLES2ImplCHROMIUMSyncPointThunks = MojoMakeGLThunks chromium_sync_point_calls"

definition MojoMakeGLES2ImplCHROMIUMTextureMailboxThunks :: "(string \<Rightarrow> 'w gl_function) \<Rightarrow> 'w GLThunks" where
  "MojoMakeGLES2ImplCHROMIUMTextureMailboxThunks = MojoMakeGLThunks chromium_texture_mailbox_calls"

definition MojoMakeGLES2ImplEXTDebugMarkerThunks :: "(string \<Rightarrow> 'w gl_function) \<Rightarrow> 'w GLThunks" where
  "MojoMakeGLES2ImplEXTDebugMarkerThunks = MojoMakeGLThunks ext_debug_marker_calls"

definition MojoMakeGLES2ImplEXTDiscardFramebufferThunks :: "(string \<Rightarrow> 'w gl_function) \<Rightarrow> 'w GLThunks" where
  "MojoMakeGLES2ImplEXTDiscardFramebufferThunks = MojoMakeGLThunks ext_discard_framebuffer_calls"

definition MojoMakeGLES2ImplEXTMultisampledRenderToTextureThunks :: "(string \<Rightarrow> 'w gl_function) \<Rightarrow> 'w GLThunks" where
  "MojoMakeGLES2ImplEXTMultisampledRenderToTextureThunks = MojoMakeGLThunks ext_multisampled_render_to_texture_calls"

definition MojoMakeGLES2ImplEXTOcclusionQueryThunks :: "(string \<Rightarrow> 'w gl_function) \<Rightarrow> 'w GLThunks" where
  "MojoMakeGLES2ImplEXTOcclusionQueryThunks = MojoMakeGLThunks ext_occlusion_query_calls"

definition MojoMakeGLES2ImplEXTTextureStorageThunks :: "(string \<Rightarrow> 'w gl_function) \<Rightarrow> 'w GLThunks" where
  "MojoMakeGLES2ImplEXTTextureStorageThunks = MojoMakeGLThunks ext_texture_storage_calls"

definition MojoMakeGLES2ImplKHRBlendEquationAdvancedThunks :: "(string \<Rightarrow> 'w gl_function) \<Rightarrow> 'w GLThunks" where
  "MojoMakeGLES2ImplKHRBlendEquationAdvancedThunks = MojoMakeGLThunks khr_blend_equation_advanced_calls"

definition MojoMakeGLES2ImplOESVertexArrayObjectThunks :: "(string \<Rightarrow> 'w gl_function) \<Rightarrow> 'w GLThunks" where
  "MojoMakeGLES2ImplOESVertexArrayObjectThunks = MojoMakeGLThunks oes_vertex_array_object_calls"

subsection \<open>No call twice\<close>

lemma distinct_if_sorts: "successively (<) (sort xs) \<Longrightarrow> distinct (xs :: 'a::linorder list)"
  by (metis distinct_sort sorted_sort strict_sorted_iff successively_conv_sorted_wrt transp_on_less)

text \<open>The calls of the extensions end in the capitals of \<^verbatim>\<open>CHROMIUM\<close>, \<^verbatim>\<open>EXT\<close>, \<^verbatim>\<open>KHR\<close> or \<^verbatim>\<open>OES\<close>,
  those of the core do not.\<close>

definition extension_name :: "string \<Rightarrow> bool" where
  "extension_name f \<longleftrightarrow> last f \<in> set ''MTRS''"

lemma gles2_calls_distinct: "distinct gles2_calls"
  by (rule distinct_if_sorts) code_simp

lemma extension_calls_distinct: "distinct (concat (tl all_calls))"
  by code_simp

lemma core_and_extensions:
  "list_all (\<lambda>f. \<not> extension_name f) gles2_calls"
  "list_all extension_name (concat (tl all_calls))"
  by code_simp+

section \<open>Properties\<close>



end
