(* ===== verification/Cpp_Bounds.thy ===== *)
theory Cpp_Bounds
  imports Mojom_Buffer
begin

text \<open>
  The C++ bindings library (\<^verbatim>\<open>cpp/bindings/lib\<close>): alignment, encoded pointers and handles
  (\<^verbatim>\<open>bindings_serialization.h\<close>), the linear allocator \<^verbatim>\<open>FixedBuffer\<close>, the \<^verbatim>\<open>BoundsChecker\<close> that every
  validator claims memory and handles from, and the helpers of \<^verbatim>\<open>validation_util.h\<close>.

  Addresses stay natural numbers as in the C model; where the code computes with \<^verbatim>\<open>uintptr_t\<close> or
  \<^verbatim>\<open>size_t\<close> the model computes with 64-bit words. \<^verbatim>\<open>MOJO_DCHECK\<close> is an assertion in a debug build
  and nothing in a release build: the definitions take the build as the argument \<open>dbg\<close>.
\<close>

definition MOJO_DCHECK :: "bool \<Rightarrow> bool \<Rightarrow> 'a res \<Rightarrow> 'a res" where
  "MOJO_DCHECK dbg condition k = (if dbg then assertC condition k else k)"

declare MOJO_DCHECK_def [code_unfold]

lemma MOJO_DCHECK_True [simp]: "MOJO_DCHECK dbg True k = k"
  by (simp add: MOJO_DCHECK_def)

lemma MOJO_DCHECK_eq_Inr [res_simps]:
  "MOJO_DCHECK dbg c k = Inr y \<longleftrightarrow> (dbg \<longrightarrow> c) \<and> k = Inr y"
  by (auto simp: MOJO_DCHECK_def assertC_def)

datatype ValidationError =
    NONE
  | MISALIGNED_OBJECT
  | ILLEGAL_MEMORY_RANGE
  | UNEXPECTED_STRUCT_HEADER
  | UNEXPECTED_ARRAY_HEADER
  | ILLEGAL_HANDLE
  | UNEXPECTED_INVALID_HANDLE
  | ILLEGAL_POINTER
  | UNEXPECTED_NULL_POINTER
  | MESSAGE_HEADER_INVALID_FLAGS
  | MESSAGE_HEADER_MISSING_REQUEST_ID
  | MESSAGE_HEADER_UNKNOWN_METHOD
  | DIFFERENT_SIZED_ARRAYS_IN_MAP
  | UNEXPECTED_NULL_UNION

text \<open>Sizes of the packed layouts of \<^verbatim>\<open>bindings_internal.h\<close>; their fields are read with the accessors
  of the C layouts they share with the wire format.\<close>

definition sizeof_StructHeader :: nat where "sizeof_StructHeader = 8"
definition sizeof_ArrayHeader :: nat where "sizeof_ArrayHeader = 8"
definition sizeof_StructPointer :: nat where "sizeof_StructPointer = 8"
definition sizeof_ArrayPointer :: nat where "sizeof_ArrayPointer = 8"
definition sizeof_Interface_Data :: nat where "sizeof_Interface_Data = 8"

lemmas cpp_sizeofs [simp] = sizeof_StructHeader_def sizeof_ArrayHeader_def sizeof_StructPointer_def
  sizeof_ArrayPointer_def sizeof_Interface_Data_def

section \<open>Alignment, pointers and handles\<close>

definition AlignImpl :: "u64 \<Rightarrow> u64" where
  "AlignImpl t = t + (8 - t mod 8) mod 8"

definition Align :: "u64 \<Rightarrow> u64" where
  "Align n = AlignImpl n"

definition IsAligned :: "addr \<Rightarrow> bool" where
  "IsAligned ptr \<longleftrightarrow> (of_nat ptr :: u64) mod 8 = 0"

definition EncodePointer :: "bool \<Rightarrow> mem \<Rightarrow> addr \<Rightarrow> addr \<Rightarrow> mem res" where
  "EncodePointer dbg m ptr offset =
     (if ptr = 0 then store64 m offset 0
      else MOJO_DCHECK dbg (ptr > offset) (store64 m offset (word_of_int (int ptr - int offset))))"

definition DecodePointerRaw :: "mem \<Rightarrow> addr \<Rightarrow> addr res" where
  "DecodePointerRaw m offset =
     bindR (load64 m offset) (\<lambda>off. Inr (if off = 0 then 0 else offset + unat off))"

text \<open>\<^verbatim>\<open>*ptr = DecodePointerRaw(offset)\<close>; both are members of one union, at the address \<^verbatim>\<open>offset\<close>.\<close>

definition DecodePointer :: "mem \<Rightarrow> addr \<Rightarrow> mem res" where
  "DecodePointer m offset = bindR (DecodePointerRaw m offset) (\<lambda>p. store64 m offset (of_nat p))"

text \<open>The vector of handles is a list; \<^verbatim>\<open>FetchAndReset\<close> leaves an invalid handle behind, and
  \<^verbatim>\<open>at\<close> with an index out of range aborts.\<close>

type_synonym cpp_state = "mem \<times> MojoHandle list"

definition EncodeHandle :: "addr \<Rightarrow> cpp_state \<Rightarrow> cpp_state res" where
  "EncodeHandle handle st =
     bindR (load32 (fst st) handle) (\<lambda>value.
     if value \<noteq> MOJO_HANDLE_INVALID
     then let handles = snd st @ [value] in
          bindR (store32 (fst st) handle (of_nat (length handles - 1))) (\<lambda>m. Inr (m, handles))
     else bindR (store32 (fst st) handle kEncodedHandleInvalid) (\<lambda>m. Inr (m, snd st)))"

definition DecodeHandle :: "bool \<Rightarrow> addr \<Rightarrow> cpp_state \<Rightarrow> cpp_state res" where
  "DecodeHandle dbg handle st =
     bindR (load32 (fst st) handle) (\<lambda>value.
     if value = kEncodedHandleInvalid
     then bindR (store32 (fst st) handle MOJO_HANDLE_INVALID) (\<lambda>m. Inr (m, snd st))
     else MOJO_DCHECK dbg (unat value < length (snd st)) (
          assertC (unat value < length (snd st)) (
          bindR (store32 (fst st) handle (snd st ! unat value)) (\<lambda>m.
          Inr (m, (snd st)[unat value := MOJO_HANDLE_INVALID])))))"

section \<open>FixedBuffer\<close>

record FixedBuffer =
  fb_ptr :: addr
  fb_cursor :: u64
  fb_size :: u64

definition FixedBuffer_Initialize :: "addr \<Rightarrow> u64 \<Rightarrow> FixedBuffer" where
  "FixedBuffer_Initialize memory n = \<lparr>fb_ptr = memory, fb_cursor = 0, fb_size = n\<rparr>"

definition FixedBuffer_Allocate :: "bool \<Rightarrow> FixedBuffer \<Rightarrow> u64 \<Rightarrow> (FixedBuffer \<times> addr) res" where
  "FixedBuffer_Allocate dbg b delta =
     (let delta' = Align delta in
      if delta' = 0 \<or> delta' > fb_size b - fb_cursor b
      then MOJO_DCHECK dbg False (Inr (b, 0))
      else Inr (b\<lparr>fb_cursor := fb_cursor b + delta'\<rparr>, fb_ptr b + unat (fb_cursor b)))"

section \<open>BoundsChecker\<close>

record BoundsChecker =
  data_begin :: u64
  data_end :: u64
  handle_begin :: u32
  handle_end :: u32

definition BoundsChecker_new :: "bool \<Rightarrow> addr \<Rightarrow> u32 \<Rightarrow> u64 \<Rightarrow> BoundsChecker res" where
  "BoundsChecker_new dbg data data_num_bytes num_handles =
     (let begin' = of_nat data;
          end' = begin' + ucast data_num_bytes;
          handle_end' = (ucast num_handles :: u32) in
      MOJO_DCHECK dbg (\<not> end' < begin') (
      MOJO_DCHECK dbg (\<not> ucast handle_end' < num_handles) (
      Inr \<lparr>data_begin = begin',
           data_end = (if end' < begin' then begin' else end'),
           handle_begin = 0,
           handle_end = (if ucast handle_end' < num_handles then 0 else handle_end')\<rparr>)))"

definition InternalIsValidRange :: "BoundsChecker \<Rightarrow> u64 \<Rightarrow> u64 \<Rightarrow> bool" where
  "InternalIsValidRange bc begin' end' \<longleftrightarrow>
     end' > begin' \<and> begin' \<ge> data_begin bc \<and> end' \<le> data_end bc"

definition IsValidRange :: "BoundsChecker \<Rightarrow> addr \<Rightarrow> u32 \<Rightarrow> bool" where
  "IsValidRange bc position num_bytes =
     (let begin' = of_nat position; end' = begin' + ucast num_bytes in
      InternalIsValidRange bc begin' end')"

definition ClaimMemory :: "BoundsChecker \<Rightarrow> addr \<Rightarrow> u32 \<Rightarrow> bool \<times> BoundsChecker" where
  "ClaimMemory bc position num_bytes =
     (let begin' = of_nat position; end' = begin' + ucast num_bytes in
      if \<not> InternalIsValidRange bc begin' end' then (False, bc)
      else (True, bc\<lparr>data_begin := end'\<rparr>))"

definition ClaimHandle :: "BoundsChecker \<Rightarrow> MojoHandle \<Rightarrow> bool \<times> BoundsChecker" where
  "ClaimHandle bc index =
     (if index = kEncodedHandleInvalid then (True, bc)
      else if index < handle_begin bc \<or> index \<ge> handle_end bc then (False, bc)
      else (True, bc\<lparr>handle_begin := index + 1\<rparr>))"

section \<open>Validation helpers\<close>

definition ValidateEncodedPointer :: "mem \<Rightarrow> addr \<Rightarrow> bool res" where
  "ValidateEncodedPointer m offset =
     bindR (load64 m offset) (\<lambda>off.
     Inr (off \<le> ucast (- 1 :: u32) \<and>
          (of_nat offset :: u64) + ucast (ucast off :: u32) \<ge> of_nat offset))"

type_synonym cpp_validation = "(ValidationError \<times> BoundsChecker) res"

definition ValidateStructHeaderAndClaimMemory :: "mem \<Rightarrow> addr \<Rightarrow> BoundsChecker \<Rightarrow> cpp_validation" where
  "ValidateStructHeaderAndClaimMemory m data bc =
     (if \<not> IsAligned data then Inr (MISALIGNED_OBJECT, bc)
      else if \<not> IsValidRange bc data (of_nat sizeof_StructHeader)
      then Inr (ILLEGAL_MEMORY_RANGE, bc)
      else bindR (struct_num_bytes m data) (\<lambda>num_bytes.
      if unat num_bytes < sizeof_StructHeader then Inr (UNEXPECTED_STRUCT_HEADER, bc)
      else case ClaimMemory bc data num_bytes of
        (claimed, bc') \<Rightarrow> Inr (if claimed then NONE else ILLEGAL_MEMORY_RANGE, bc')))"

section \<open>Words and naturals\<close>

lemma unat_mod_8: "unat (w mod 8 :: u64) = unat w mod 8"
  by (simp add: unat_mod)

lemma IsAligned_iff [simp]: "IsAligned a \<longleftrightarrow> 8 dvd a"
proof -
  have "(a mod 18446744073709551616) mod 8 = a mod 8"
    by (rule mod_mod_cancel) simp
  then show ?thesis
    by (simp add: IsAligned_def unat_mod_8 unat_of_nat dvd_eq_mod_eq_0 flip: unat_eq_0)
qed

lemma round8_eq: "n + (8 - n mod 8) mod 8 = round8 n"
proof (cases "n mod 8 = 0")
  case True
  then obtain q where "n = 8 * q" by auto
  then show ?thesis by (simp add: round8_def)
next
  case False
  have "n = 8 * (n div 8) + n mod 8" by simp
  moreover have "n mod 8 < 8" by simp
  moreover define q r where "q = n div 8" and "r = n mod 8"
  ultimately have n: "n = 8 * q + r" "r < 8" "0 < r" "n mod 8 = r" using False by simp_all
  then have "(n + 7) div 8 = q + 1"
    by (intro div_nat_eqI) simp_all
  with n show ?thesis by (simp add: round8_def)
qed

lemma unat_Align: "unat (Align n) = round8 (unat n) mod 18446744073709551616"
proof -
  let ?n = "unat n"
  have small: "?n mod 8 < 8" "?n mod 8 \<le> 8" by simp_all
  then have "unat ((8 :: u64) - n mod 8) = 8 - ?n mod 8"
    by (simp add: unat_minus_le unat_mod_8)
  then have "unat (Align n) = (?n + (8 - ?n mod 8) mod 8) mod 18446744073709551616"
    by (simp add: Align_def AlignImpl_def unat_word_ariths(1) unat_mod_8 unat_mod)
  then show ?thesis by (simp only: round8_eq)
qed

lemma IsValidRange_iff:
  assumes "p < 18446744073709551616"
  shows "InternalIsValidRange bc (of_nat p) (of_nat p + ucast (n :: u32)) \<longleftrightarrow>
    0 < unat n \<and> unat (data_begin bc) \<le> p \<and> p + unat n \<le> unat (data_end bc)"
proof -
  have p: "unat (of_nat p :: u64) = p" using assms by (simp add: unat_of_nat)
  have "unat (of_nat p + ucast n :: u64) =
      (if p + unat n < 18446744073709551616 then p + unat n else p + unat n - 18446744073709551616)"
    by (simp add: unat_plus_if_size word_size p)
  then show ?thesis
    using p assms unat_u64_bound [of "data_end bc"] unat_u32_bound [of n]
    by (auto simp: InternalIsValidRange_def word_less_nat_alt word_le_nat_alt)
qed

section \<open>FixedBuffer as a linear allocator\<close>

text \<open>What \<^verbatim>\<open>Allocate\<close> returns in a release build, where it always returns.\<close>

definition FixedBuffer_allocate_release :: "FixedBuffer \<Rightarrow> u64 \<Rightarrow> FixedBuffer \<times> addr" where
  "FixedBuffer_allocate_release b n =
     (case FixedBuffer_Allocate False b n of Inr r \<Rightarrow> r | Inl _ \<Rightarrow> (b, 0))"

definition fixed_buffer_fits :: "FixedBuffer \<Rightarrow> u64 \<Rightarrow> bool" where
  "fixed_buffer_fits b n \<longleftrightarrow>
     Align n \<noteq> 0 \<and> unat (fb_cursor b) + unat (Align n) \<le> unat (fb_size b)"

lemma FixedBuffer_Allocate_cases:
  assumes "unat (fb_cursor b) \<le> unat (fb_size b)"
  shows "FixedBuffer_Allocate dbg b n =
    (if fixed_buffer_fits b n
     then Inr (b\<lparr>fb_cursor := fb_cursor b + Align n\<rparr>, fb_ptr b + unat (fb_cursor b))
     else if dbg then Inl AssertFailed else Inr (b, 0))"
proof -
  have "unat (fb_size b - fb_cursor b) = unat (fb_size b) - unat (fb_cursor b)"
    using assms by (simp add: unat_minus_le)
  then have "Align n > fb_size b - fb_cursor b \<longleftrightarrow>
      \<not> unat (fb_cursor b) + unat (Align n) \<le> unat (fb_size b)"
    using assms by (auto simp: word_less_nat_alt)
  then show ?thesis
    by (simp add: FixedBuffer_Allocate_def fixed_buffer_fits_def Let_def MOJO_DCHECK_def)
qed

lemma unat_cursor_Allocate:
  "fixed_buffer_fits b n \<Longrightarrow> unat (fb_cursor b + Align n) = unat (fb_cursor b) + unat (Align n)"
  using unat_u64_bound [of "fb_size b"]
  by (simp add: fixed_buffer_fits_def unat_plus_if_size word_size)

lemma dvd_unat_Align: "8 dvd unat (Align n)"
proof -
  have "8 dvd round8 (unat n)" by (rule round8_bounds)
  moreover have "(8 :: nat) dvd 18446744073709551616" by simp
  ultimately show ?thesis unfolding unat_Align by (simp only: dvd_mod)
qed

interpretation fixed_buffer: linear_allocator
  FixedBuffer_allocate_release "\<lambda>b. unat (fb_cursor b) \<le> unat (fb_size b)"
  fb_ptr "\<lambda>b. unat (fb_cursor b)" "\<lambda>b. unat (fb_size b)" "\<lambda>n. unat (Align n)" fixed_buffer_fits
proof unfold_locales
  fix b :: FixedBuffer and n
  show "fb_ptr (fst (FixedBuffer_allocate_release b n)) = fb_ptr b"
    "unat (fb_size (fst (FixedBuffer_allocate_release b n))) = unat (fb_size b)"
    by (simp_all add: FixedBuffer_allocate_release_def FixedBuffer_Allocate_def Let_def MOJO_DCHECK_def)
  show "8 dvd unat (Align n)" by (rule dvd_unat_Align)
  assume inv: "unat (fb_cursor b) \<le> unat (fb_size b)"
  show "unat (fb_cursor b) \<le> unat (fb_size b)" by fact
  show "unat (fb_cursor (fst (FixedBuffer_allocate_release b n))) \<le>
      unat (fb_size (fst (FixedBuffer_allocate_release b n)))"
    using inv unat_cursor_Allocate [of b n]
    by (simp add: FixedBuffer_allocate_release_def FixedBuffer_Allocate_cases fixed_buffer_fits_def)
  show "\<not> fixed_buffer_fits b n \<Longrightarrow> FixedBuffer_allocate_release b n = (b, 0)"
    using inv by (simp add: FixedBuffer_allocate_release_def FixedBuffer_Allocate_cases)
  show "fixed_buffer_fits b n \<Longrightarrow>
      snd (FixedBuffer_allocate_release b n) = fb_ptr b + unat (fb_cursor b)"
    "fixed_buffer_fits b n \<Longrightarrow> unat (fb_cursor (fst (FixedBuffer_allocate_release b n))) =
      unat (fb_cursor b) + unat (Align n)"
    using inv
    by (simp_all add: FixedBuffer_allocate_release_def FixedBuffer_Allocate_cases
        unat_cursor_Allocate)
qed

section \<open>Claims\<close>

lemma ClaimMemory_cases:
  assumes "p < 18446744073709551616"
  shows "ClaimMemory bc p n =
    (if 0 < unat n \<and> unat (data_begin bc) \<le> p \<and> p + unat n \<le> unat (data_end bc)
     then (True, bc\<lparr>data_begin := of_nat (p + unat n)\<rparr>) else (False, bc))"
  using IsValidRange_iff [OF assms, of bc n] by (auto simp: ClaimMemory_def Let_def)

lemma ClaimHandle_cases:
  "ClaimHandle bc h =
    (if h = kEncodedHandleInvalid then (True, bc)
     else if handle_begin bc \<le> h \<and> h < handle_end bc then (True, bc\<lparr>handle_begin := h + 1\<rparr>)
     else (False, bc))"
  by (auto simp: ClaimHandle_def)

lemma unat_Suc_handle: "h < (n :: u32) \<Longrightarrow> unat (h + 1) = unat h + 1"
  using unat_u32_bound [of n] by (simp add: unat_plus_if_size word_size word_less_nat_alt)

lemma unat_of_nat_le_u64: "n \<le> unat (e :: u64) \<Longrightarrow> unat (of_nat n :: u64) = n"
  using unat_u64_bound [of e] by (simp add: unat_of_nat)

text \<open>The claims that succeed in a sequence of claims, memory ranges or handles.\<close>

fun claimed_ranges :: "BoundsChecker \<Rightarrow> (addr \<times> u32) list \<Rightarrow> (addr \<times> nat) list" where
  "claimed_ranges bc [] = []"
| "claimed_ranges bc ((p, n) # cs) =
     (case ClaimMemory bc p n of (ok, bc') \<Rightarrow>
        (if ok then [(p, unat n)] else []) @ claimed_ranges bc' cs)"

fun claimed_handles :: "BoundsChecker \<Rightarrow> MojoHandle list \<Rightarrow> MojoHandle list" where
  "claimed_handles bc [] = []"
| "claimed_handles bc (h # hs) =
     (case ClaimHandle bc h of (ok, bc') \<Rightarrow>
        (if ok \<and> h \<noteq> kEncodedHandleInvalid then [h] else []) @ claimed_handles bc' hs)"

lemma claimed_ranges_sorted:
  "(\<forall>(p, n) \<in> set cs. p < 18446744073709551616) \<Longrightarrow>
   (\<forall>(p, n) \<in> set (claimed_ranges bc cs).
      unat (data_begin bc) \<le> p \<and> 0 < n \<and> p + n \<le> unat (data_end bc)) \<and>
   sorted_wrt (\<lambda>(p, n) (q, k). p + n \<le> q) (claimed_ranges bc cs)"
proof (induction bc cs rule: claimed_ranges.induct)
  case (2 bc p n cs)
  then have p: "p < 18446744073709551616" by simp
  show ?case
  proof (cases "fst (ClaimMemory bc p n)")
    case True
    then have c: "ClaimMemory bc p n = (True, bc\<lparr>data_begin := of_nat (p + unat n)\<rparr>)"
      and r: "0 < unat n" "unat (data_begin bc) \<le> p" "p + unat n \<le> unat (data_end bc)"
      using ClaimMemory_cases [OF p, of bc n] by (auto split: if_splits)
    have "unat (of_nat (p + unat n) :: u64) = p + unat n"
      using r(3) by (rule unat_of_nat_le_u64)
    with 2(1) [OF c [symmetric]] 2(2) c r show ?thesis
      by (fastforce simp del: of_nat_add)
  next
    case False
    then have c: "ClaimMemory bc p n = (False, bc)"
      using ClaimMemory_cases [OF p, of bc n] by (auto split: if_splits)
    with 2(1) [OF c [symmetric]] 2(2) show ?thesis by simp
  qed
qed simp

lemma claimed_handles_sorted:
  "(\<forall>h \<in> set (claimed_handles bc hs). handle_begin bc \<le> h \<and> h < handle_end bc) \<and>
   sorted_wrt (<) (claimed_handles bc hs)"
proof (induction bc hs rule: claimed_handles.induct)
  case (2 bc h hs)
  show ?case
  proof (cases "h \<noteq> kEncodedHandleInvalid \<and> handle_begin bc \<le> h \<and> h < handle_end bc")
    case True
    then have c: "ClaimHandle bc h = (True, bc\<lparr>handle_begin := h + 1\<rparr>)"
      by (simp add: ClaimHandle_cases)
    have "h + 1 \<le> x \<Longrightarrow> h < x \<and> handle_begin bc \<le> x" for x
      using True unat_Suc_handle [of h "handle_end bc"]
      by (simp add: word_le_nat_alt word_less_nat_alt)
    with 2 [OF c [symmetric]] c True show ?thesis by auto
  next
    case False
    then have c: "ClaimHandle bc h = (h = kEncodedHandleInvalid, bc)"
      by (simp add: ClaimHandle_cases) blast
    with 2 [OF c [symmetric]] show ?thesis by simp
  qed
qed simp

section \<open>Properties\<close>

text \<open>
  Claim C19. A \<^verbatim>\<open>BoundsChecker\<close> made for a message of \<open>n\<close> bytes and \<open>num_handles\<close> handles grants, over any
  sequence of claims, only non-empty memory ranges inside the message, each beginning at or after
  the end of the one granted before, and only handle indices below \<open>num_handles\<close>, each greater than
  the one granted before: nothing is ever granted twice.
\<close>

theorem BoundsChecker_grants_once:
  assumes "BoundsChecker_new dbg data n num_handles = Inr bc"
    and "data + unat n < 18446744073709551616" and "unat num_handles < 4294967296"
    and "\<forall>(p, k) \<in> set cs. p < 18446744073709551616"
  shows "(\<forall>(p, k) \<in> set (claimed_ranges bc cs). data \<le> p \<and> 0 < k \<and> p + k \<le> data + unat n) \<and>
         sorted_wrt (\<lambda>(p, k) (q, l). p + k \<le> q) (claimed_ranges bc cs) \<and>
         (\<forall>h \<in> set (claimed_handles bc hs). unat h < unat num_handles) \<and>
         sorted_wrt (<) (claimed_handles bc hs)"
proof -
  have "unat (of_nat data + ucast n :: u64) = data + unat n"
    using assms(2) by (simp add: unat_plus_if_size word_size unat_of_nat)
  moreover have "unat (ucast num_handles :: u32) = unat num_handles"
    using assms(3) by (simp add: unsigned_ucast_eq take_bit_eq_mod)
  ultimately have "unat (data_begin bc) = data" "unat (data_end bc) = data + unat n"
    "unat (handle_end bc) = unat num_handles"
    using assms(1,2)
    by (auto simp: BoundsChecker_new_def Let_def res_simps unat_of_nat word_less_nat_alt)
  with claimed_ranges_sorted [OF assms(4), of bc] claimed_handles_sorted [of bc hs] show ?thesis
    by (simp add: word_less_nat_alt)
qed

theorem BoundsChecker_grants_once_witness:
  "\<exists>bc. BoundsChecker_new True 64 32 2 = Inr bc \<and>
     claimed_ranges bc [(64, 16), (72, 8), (80, 8), (88, 100)] = [(64, 16), (80, 8)] \<and>
     claimed_handles bc [0, 0, - 1, 1, 2] = [0, 1] \<and>
     sorted_wrt (\<lambda>(p, k) (q, l). p + k \<le> q)
       (claimed_ranges bc [(64, 16), (72, 8), (80, 8), (88, 100)])"
proof (intro exI conjI)
  let ?bc = "\<lparr>data_begin = 64, data_end = 96, handle_begin = 0, handle_end = 2\<rparr>"
  show new: "BoundsChecker_new True 64 32 2 = Inr ?bc" by code_simp
  show "claimed_ranges ?bc [(64, 16), (72, 8), (80, 8), (88, 100)] = [(64, 16), (80, 8)]"
    by code_simp
  show "claimed_handles ?bc [0, 0, - 1, 1, 2] = [0, 1]" by code_simp
  show "sorted_wrt (\<lambda>(p, k) (q, l). p + k \<le> q)
       (claimed_ranges ?bc [(64, 16), (72, 8), (80, 8), (88, 100)])"
    using BoundsChecker_grants_once [OF new, of "[(64, 16), (72, 8), (80, 8), (88, 100)]" "[]"]
    by (simp del: claimed_ranges.simps)
qed

text \<open>
  Claim C20. On a \<^verbatim>\<open>FixedBuffer\<close> that was just initialised, any sequence of requests is given regions that
  lie inside its memory, start at multiples of eight from its beginning and are pairwise disjoint;
  a request that does not fit, is empty, or wraps around when it is rounded up gets \<^verbatim>\<open>nullptr\<close> in a
  release build, and in a debug build the call does not return.
\<close>

theorem FixedBuffer_Allocate_regions:
  assumes "memory \<noteq> 0" and "b = FixedBuffer_Initialize memory n"
    and "rs = alloc_regions FixedBuffer_allocate_release (\<lambda>n. unat (Align n)) b ns"
  shows "(\<forall>(p, k) \<in> set rs. memory \<le> p \<and> p + k \<le> memory + unat n \<and> 8 dvd (p - memory)) \<and>
         (\<forall>i j. i < j \<longrightarrow> j < length rs \<longrightarrow> fst (rs ! i) + snd (rs ! i) \<le> fst (rs ! j)) \<and>
         (\<forall>k. FixedBuffer_Allocate True b k =
           (if 0 < unat k \<and> round8 (unat k) \<le> unat n
            then Inr (FixedBuffer_allocate_release b k) else Inl AssertFailed))"
proof -
  have fits: "fixed_buffer_fits b k \<longleftrightarrow> 0 < unat k \<and> round8 (unat k) \<le> unat n" for k
  proof -
    have "round8 (unat k) \<le> 18446744073709551616"
      using unat_u64_bound [of k] div_le_mono [of "unat k + 7" 18446744073709551622 8]
      by (simp add: round8_def)
    then have "round8 (unat k) mod 18446744073709551616 =
        (if round8 (unat k) = 18446744073709551616 then 0 else round8 (unat k))"
      by (auto simp: le_less)
    moreover have "round8 (unat k) = 0 \<longleftrightarrow> unat k = 0"
      using round8_bounds(1,2) [of "unat k"] by (auto simp: round8_def)
    moreover have "Align k = 0 \<longleftrightarrow> unat (Align k) = 0" by (simp add: unat_eq_0)
    ultimately show ?thesis
      using unat_u64_bound [of n] assms(2)
      by (auto simp: fixed_buffer_fits_def FixedBuffer_Initialize_def unat_Align split: if_splits)
  qed
  have inv: "unat (fb_cursor b) \<le> unat (fb_size b)" "fb_ptr b = memory" "fb_cursor b = 0"
    "fb_size b = n"
    using assms(2) by (simp_all add: FixedBuffer_Initialize_def)
  then have "\<forall>k. FixedBuffer_Allocate True b k =
      (if 0 < unat k \<and> round8 (unat k) \<le> unat n
       then Inr (FixedBuffer_allocate_release b k) else Inl AssertFailed)"
    by (simp add: FixedBuffer_allocate_release_def FixedBuffer_Allocate_cases fits)
  then show ?thesis
    using fixed_buffer.alloc_regions_disjoint [of b rs ns] assms(1,3) inv by simp
qed

theorem FixedBuffer_Allocate_regions_witness:
  "let b = FixedBuffer_Initialize 64 32;
       rs = alloc_regions FixedBuffer_allocate_release (\<lambda>n. unat (Align n)) b [3, 0, 100, - 3, 9]
   in rs = [(64, 8), (72, 16)] \<and>
      (\<forall>(p, k) \<in> set rs. 64 \<le> p \<and> p + k \<le> 64 + 32 \<and> 8 dvd (p - 64)) \<and>
      FixedBuffer_Allocate True b (- 3) = Inl AssertFailed"
proof -
  let ?b = "FixedBuffer_Initialize 64 32"
  have rs: "alloc_regions FixedBuffer_allocate_release (\<lambda>n. unat (Align n)) ?b [3, 0, 100, - 3, 9] =
      [(64, 8), (72, 16)]"
    by code_simp
  have "round8 (unat (- 3 :: u64)) > 32" by (simp add: round8_def)
  with rs FixedBuffer_Allocate_regions [of 64 ?b 32 _ "[3, 0, 100, - 3, 9]", OF _ refl refl]
  show ?thesis by (simp add: Let_def del: alloc_regions.simps)
qed

end
