(* ===== verification/Cpp_ArrayData.thy ===== *)
theory Cpp_ArrayData
  imports Cpp_Bounds
begin

text \<open>
  Arrays and maps of the C++ bindings (\<^verbatim>\<open>array_internal.h\<close>, \<^verbatim>\<open>map_data_internal.h\<close>): creation, element
  access, encoding, decoding and validation of \<^verbatim>\<open>Array_Data<T>\<close> and \<^verbatim>\<open>Map_Data<K, V>\<close>.

  The template argument \<^verbatim>\<open>T\<close> is a datatype with one constructor per specialisation the templates
  distinguish, and the mutually recursive template instances are recursion on it. The classes the
  bindings generator emits for mojom structs and unions are not part of the library: their methods
  are the record \<open>generated_classes\<close>, indexed by the class.
\<close>

section \<open>Template arguments and traits\<close>

datatype array_type =
    Primitive nat
  | Bool
  | HandleType
  | InterfaceType
  | StructPtr nat
  | MapPtr array_type array_type
  | ArrayPtr array_type
  | UnionType nat

text \<open>\<^verbatim>\<open>sizeof(ArrayDataTraits<T>::StorageType)\<close>; a \<^verbatim>\<open>bool\<close> array stores bytes of eight elements.\<close>

fun sizeof_StorageType :: "array_type \<Rightarrow> nat" where
  "sizeof_StorageType (Primitive n) = n"
| "sizeof_StorageType Bool = 1"
| "sizeof_StorageType HandleType = sizeof_MojoHandle"
| "sizeof_StorageType InterfaceType = sizeof_Interface_Data"
| "sizeof_StorageType (StructPtr _) = sizeof_StructPointer"
| "sizeof_StorageType (MapPtr _ _) = sizeof_StructPointer"
| "sizeof_StorageType (ArrayPtr _) = sizeof_ArrayPointer"
| "sizeof_StorageType (UnionType _) = sizeof_MojomUnionLayout"

definition kMaxUint32 :: u32 where "kMaxUint32 = 0xFFFFFFFF"

definition kMaxNumElements :: "array_type \<Rightarrow> u32" where
  "kMaxNumElements T =
     (if T = Bool then kMaxUint32
      else ucast (((ucast kMaxUint32 :: u64) - of_nat sizeof_ArrayHeader) div
                  of_nat (sizeof_StorageType T)))"

definition GetStorageSize :: "bool \<Rightarrow> array_type \<Rightarrow> u32 \<Rightarrow> u32 res" where
  "GetStorageSize dbg T num_elements =
     (if T = Bool
      then Inr (ucast ((of_nat sizeof_ArrayHeader :: u64) + ucast ((num_elements + 7) div 8)))
      else MOJO_DCHECK dbg (num_elements \<le> kMaxNumElements T) (
        Inr (ucast ((of_nat sizeof_ArrayHeader :: u64) +
                    of_nat (sizeof_StorageType T) * ucast num_elements))))"

text \<open>\<^verbatim>\<open>storage()\<close> and the address of an element of it.\<close>

definition array_storage :: "addr \<Rightarrow> addr" where
  "array_storage data = data + sizeof_ArrayHeader"

definition ToRef :: "array_type \<Rightarrow> addr \<Rightarrow> nat \<Rightarrow> addr" where
  "ToRef T storage offset = storage + sizeof_StorageType T * offset"

definition Array_Data_at :: "bool \<Rightarrow> array_type \<Rightarrow> mem \<Rightarrow> addr \<Rightarrow> nat \<Rightarrow> addr res" where
  "Array_Data_at dbg T m data offset =
     bindR (array_num_elements m data) (\<lambda>num_elements.
     MOJO_DCHECK dbg (offset < unat num_elements) (Inr (ToRef T (array_storage data) offset)))"

subsection \<open>Arrays of bool\<close>

definition load8 :: "mem \<Rightarrow> addr \<Rightarrow> u8 res" where
  "load8 m a = bindR (load_bytes m a 1) (\<lambda>bs. Inr (hd bs))"

text \<open>A \<^verbatim>\<open>BitRef\<close> is the byte it lies in and its mask.\<close>

type_synonym BitRef = "addr \<times> u8"

definition Bool_ToRef :: "addr \<Rightarrow> nat \<Rightarrow> BitRef" where
  "Bool_ToRef storage offset = (storage + offset div 8, push_bit (offset mod 8) 1)"

definition BitRef_get :: "mem \<Rightarrow> BitRef \<Rightarrow> bool res" where
  "BitRef_get m r = bindR (load8 m (fst r)) (\<lambda>b. Inr (b AND snd r \<noteq> 0))"

definition BitRef_set :: "mem \<Rightarrow> BitRef \<Rightarrow> bool \<Rightarrow> mem res" where
  "BitRef_set m r v =
     bindR (load8 m (fst r)) (\<lambda>b.
     store_bytes m (fst r) [if v then b OR snd r else b AND NOT (snd r)])"

definition Bool_at :: "bool \<Rightarrow> mem \<Rightarrow> addr \<Rightarrow> nat \<Rightarrow> BitRef res" where
  "Bool_at dbg m data offset =
     bindR (array_num_elements m data) (\<lambda>num_elements.
     MOJO_DCHECK dbg (offset < unat num_elements) (Inr (Bool_ToRef (array_storage data) offset)))"

definition Bool_at_const :: "bool \<Rightarrow> mem \<Rightarrow> addr \<Rightarrow> nat \<Rightarrow> bool res" where
  "Bool_at_const dbg m data offset =
     bindR (array_num_elements m data) (\<lambda>num_elements.
     MOJO_DCHECK dbg (offset < unat num_elements) (
     bindR (load8 m (array_storage data + offset div 8)) (\<lambda>b.
     Inr (b AND push_bit (offset mod 8) 1 \<noteq> 0))))"

section \<open>Creation\<close>

text \<open>
  The constructor writes the two header fields through the pointer \<^verbatim>\<open>Allocate\<close> returned, also when
  that is null: a bad access, since nothing is mapped at address 0.
\<close>

definition Array_Data_New ::
  "bool \<Rightarrow> array_type \<Rightarrow> u64 \<Rightarrow> mem \<times> FixedBuffer \<Rightarrow> (addr \<times> mem \<times> FixedBuffer) res"
where
  "Array_Data_New dbg T num_elements st =
     (if num_elements > ucast (kMaxNumElements T) then Inr (0, st)
      else bindR (GetStorageSize dbg T (ucast num_elements)) (\<lambda>num_bytes.
      bindR (FixedBuffer_Allocate dbg (snd st) (ucast num_bytes)) (\<lambda>(b, data).
      bindR (store32 (fst st) data num_bytes) (\<lambda>m.
      bindR (store32 m (data + 4) (ucast num_elements)) (\<lambda>m'.
      Inr (data, m', b))))))"

definition Map_Data_New :: "bool \<Rightarrow> mem \<times> FixedBuffer \<Rightarrow> (addr \<times> mem \<times> FixedBuffer) res" where
  "Map_Data_New dbg st =
     bindR (FixedBuffer_Allocate dbg (snd st) 24) (\<lambda>(b, data).
     bindR (store32 (fst st) data 24) (\<lambda>m.
     bindR (store32 m (data + 4) 0) (\<lambda>m'.
     Inr (data, m', b))))"

section \<open>Generated classes and validation parameters\<close>

record generated_classes =
  Struct_Validate :: "nat \<Rightarrow> mem \<Rightarrow> addr \<Rightarrow> BoundsChecker \<Rightarrow> cpp_validation"
  Union_Validate :: "nat \<Rightarrow> mem \<Rightarrow> addr \<Rightarrow> BoundsChecker \<Rightarrow> bool \<Rightarrow> cpp_validation"
  Union_is_null :: "nat \<Rightarrow> mem \<Rightarrow> addr \<Rightarrow> bool res"
  Struct_Encode :: "nat \<Rightarrow> addr \<Rightarrow> cpp_state \<Rightarrow> cpp_state res"
  Struct_Decode :: "nat \<Rightarrow> addr \<Rightarrow> cpp_state \<Rightarrow> cpp_state res"
  Union_Encode :: "nat \<Rightarrow> addr \<Rightarrow> cpp_state \<Rightarrow> cpp_state res"
  Union_Decode :: "nat \<Rightarrow> addr \<Rightarrow> cpp_state \<Rightarrow> cpp_state res"

datatype ArrayValidateParams =
  ArrayValidateParams (expected_num_elements: u32) (element_is_nullable: bool)
    (element_validate_params: "ArrayValidateParams option")

definition GetMapKeyValidateParamsDefault :: ArrayValidateParams where
  "GetMapKeyValidateParamsDefault = ArrayValidateParams 0 False None"

definition GetMapKeyValidateParamsForStrings :: ArrayValidateParams where
  "GetMapKeyValidateParamsForStrings =
     ArrayValidateParams 0 False (Some (ArrayValidateParams 0 False None))"

text \<open>A map key is a primitive type or a string, so the element type \<open>Primitive 1\<close> under a pointer is
  that of strings, \<^verbatim>\<open>Array_Data<char>\<close>.\<close>

definition MapKeyValidateParamsFactory_Get :: "array_type \<Rightarrow> ArrayValidateParams" where
  "MapKeyValidateParamsFactory_Get Key =
     (if Key = ArrayPtr (Primitive 1) then GetMapKeyValidateParamsForStrings
      else GetMapKeyValidateParamsDefault)"

section \<open>Encoding and decoding\<close>

text \<open>The element loops of encoding and decoding: \<^verbatim>\<open>header->num_elements\<close> is read in every round.\<close>

function elements_loop ::
  "addr \<Rightarrow> (nat \<Rightarrow> cpp_state \<Rightarrow> cpp_state res) \<Rightarrow> nat \<Rightarrow> cpp_state \<Rightarrow> cpp_state res"
where
  "elements_loop header f i st =
     bindR (array_num_elements (fst st) header) (\<lambda>num_elements.
     if i < unat num_elements then bindR (f i st) (elements_loop header f (Suc i)) else Inr st)"
  by pat_completeness auto
termination
  by (relation "measure (\<lambda>(_, _, i, _). 4294967296 - i)") (auto intro: u32_count_up)

declare elements_loop.simps [simp del]

text \<open>\<^verbatim>\<open>Encode(obj, handles)\<close> and \<^verbatim>\<open>Decode(obj, handles)\<close> on a pointer slot, with the method of the
  class pointed to.\<close>

definition Encode_slot ::
  "bool \<Rightarrow> (addr \<Rightarrow> cpp_state \<Rightarrow> cpp_state res) \<Rightarrow> addr \<Rightarrow> cpp_state \<Rightarrow> cpp_state res"
where
  "Encode_slot dbg encode obj st =
     bindR (pointer_ptr (fst st) obj) (\<lambda>ptr.
     bindR (if ptr \<noteq> 0 then encode ptr st else Inr st) (\<lambda>st'.
     bindR (pointer_ptr (fst st') obj) (\<lambda>ptr'.
     bindR (EncodePointer dbg (fst st') ptr' obj) (\<lambda>m. Inr (m, snd st')))))"

definition Decode_slot ::
  "(addr \<Rightarrow> cpp_state \<Rightarrow> cpp_state res) \<Rightarrow> addr \<Rightarrow> cpp_state \<Rightarrow> cpp_state res"
where
  "Decode_slot decode obj st =
     bindR (DecodePointer (fst st) obj) (\<lambda>m.
     bindR (pointer_ptr m obj) (\<lambda>ptr.
     if ptr \<noteq> 0 then decode ptr (m, snd st) else Inr (m, snd st)))"

definition Map_Data_Encode ::
  "bool \<Rightarrow> (addr \<Rightarrow> cpp_state \<Rightarrow> cpp_state res) \<Rightarrow> (addr \<Rightarrow> cpp_state \<Rightarrow> cpp_state res) \<Rightarrow>
   addr \<Rightarrow> cpp_state \<Rightarrow> cpp_state res"
where
  "Map_Data_Encode dbg encode_keys encode_values data st =
     bindR (Encode_slot dbg encode_keys (data + 8) st) (Encode_slot dbg encode_values (data + 16))"

definition Map_Data_Decode ::
  "(addr \<Rightarrow> cpp_state \<Rightarrow> cpp_state res) \<Rightarrow> (addr \<Rightarrow> cpp_state \<Rightarrow> cpp_state res) \<Rightarrow>
   addr \<Rightarrow> cpp_state \<Rightarrow> cpp_state res"
where
  "Map_Data_Decode decode_keys decode_values data st =
     bindR (Decode_slot decode_keys (data + 8) st) (Decode_slot decode_values (data + 16))"

text \<open>
  The element loops of the serialisation helpers: those of handles, of pointers and of unions. The
  helper of primitive types, which is also that of \<^verbatim>\<open>Interface_Data\<close>, does nothing.
\<close>

definition EncodeElements_handle :: "addr \<Rightarrow> cpp_state \<Rightarrow> cpp_state res" where
  "EncodeElements_handle data =
     elements_loop data (\<lambda>i. EncodeHandle (ToRef HandleType (array_storage data) i)) 0"

definition DecodeElements_handle :: "bool \<Rightarrow> addr \<Rightarrow> cpp_state \<Rightarrow> cpp_state res" where
  "DecodeElements_handle dbg data =
     elements_loop data (\<lambda>i. DecodeHandle dbg (ToRef HandleType (array_storage data) i)) 0"

definition EncodeElements_pointer ::
  "bool \<Rightarrow> array_type \<Rightarrow> (addr \<Rightarrow> cpp_state \<Rightarrow> cpp_state res) \<Rightarrow> addr \<Rightarrow> cpp_state \<Rightarrow> cpp_state res"
where
  "EncodeElements_pointer dbg T encode data =
     elements_loop data (\<lambda>i. Encode_slot dbg encode (ToRef T (array_storage data) i)) 0"

definition DecodeElements_pointer ::
  "array_type \<Rightarrow> (addr \<Rightarrow> cpp_state \<Rightarrow> cpp_state res) \<Rightarrow> addr \<Rightarrow> cpp_state \<Rightarrow> cpp_state res"
where
  "DecodeElements_pointer T decode data =
     elements_loop data (\<lambda>i. Decode_slot decode (ToRef T (array_storage data) i)) 0"

definition EncodeElements_union ::
  "generated_classes \<Rightarrow> nat \<Rightarrow> addr \<Rightarrow> cpp_state \<Rightarrow> cpp_state res"
where
  "EncodeElements_union gen c data =
     elements_loop data (\<lambda>i. Union_Encode gen c (ToRef (UnionType c) (array_storage data) i)) 0"

definition DecodeElements_union ::
  "generated_classes \<Rightarrow> nat \<Rightarrow> addr \<Rightarrow> cpp_state \<Rightarrow> cpp_state res"
where
  "DecodeElements_union gen c data =
     elements_loop data (\<lambda>i. Union_Decode gen c (ToRef (UnionType c) (array_storage data) i)) 0"

lemmas elements_defs [simp] = EncodeElements_handle_def DecodeElements_handle_def
  EncodeElements_pointer_def DecodeElements_pointer_def
  EncodeElements_union_def DecodeElements_union_def

text \<open>\<^verbatim>\<open>Array_Data<T>\<close> calls the methods of the helper that its type argument selects.\<close>

primrec Array_Data_Encode ::
  "array_type \<Rightarrow> bool \<Rightarrow> generated_classes \<Rightarrow> addr \<Rightarrow> cpp_state \<Rightarrow> cpp_state res"
where
  "Array_Data_Encode (Primitive n) dbg gen data st = Inr st"
| "Array_Data_Encode Bool dbg gen data st = Inr st"
| "Array_Data_Encode InterfaceType dbg gen data st = Inr st"
| "Array_Data_Encode HandleType dbg gen data st = EncodeElements_handle data st"
| "Array_Data_Encode (StructPtr c) dbg gen data st =
     EncodeElements_pointer dbg (StructPtr c) (Struct_Encode gen c) data st"
| "Array_Data_Encode (MapPtr K V) dbg gen data st =
     EncodeElements_pointer dbg (MapPtr K V)
       (Map_Data_Encode dbg (Array_Data_Encode K dbg gen) (Array_Data_Encode V dbg gen)) data st"
| "Array_Data_Encode (ArrayPtr T) dbg gen data st =
     EncodeElements_pointer dbg (ArrayPtr T) (Array_Data_Encode T dbg gen) data st"
| "Array_Data_Encode (UnionType c) dbg gen data st = EncodeElements_union gen c data st"

primrec Array_Data_Decode ::
  "array_type \<Rightarrow> bool \<Rightarrow> generated_classes \<Rightarrow> addr \<Rightarrow> cpp_state \<Rightarrow> cpp_state res"
where
  "Array_Data_Decode (Primitive n) dbg gen data st = Inr st"
| "Array_Data_Decode Bool dbg gen data st = Inr st"
| "Array_Data_Decode InterfaceType dbg gen data st = Inr st"
| "Array_Data_Decode HandleType dbg gen data st = DecodeElements_handle dbg data st"
| "Array_Data_Decode (StructPtr c) dbg gen data st =
     DecodeElements_pointer (StructPtr c) (Struct_Decode gen c) data st"
| "Array_Data_Decode (MapPtr K V) dbg gen data st =
     DecodeElements_pointer (MapPtr K V)
       (Map_Data_Decode (Array_Data_Decode K dbg gen) (Array_Data_Decode V dbg gen)) data st"
| "Array_Data_Decode (ArrayPtr T) dbg gen data st =
     DecodeElements_pointer (ArrayPtr T) (Array_Data_Decode T dbg gen) data st"
| "Array_Data_Decode (UnionType c) dbg gen data st = DecodeElements_union gen c data st"

section \<open>Validation\<close>

text \<open>The element loop of validation; it ends at the first error.\<close>

function validate_loop ::
  "mem \<Rightarrow> addr \<Rightarrow> (nat \<Rightarrow> BoundsChecker \<Rightarrow> cpp_validation) \<Rightarrow> nat \<Rightarrow> BoundsChecker \<Rightarrow> cpp_validation"
where
  "validate_loop m header f i bc =
     bindR (array_num_elements m header) (\<lambda>num_elements.
     if i < unat num_elements
     then bindR (f i bc) (\<lambda>rb.
          if fst rb \<noteq> NONE then Inr rb else validate_loop m header f (Suc i) (snd rb))
     else Inr (NONE, bc))"
  by pat_completeness auto
termination
  by (relation "measure (\<lambda>(_, _, _, i, _). 4294967296 - i)") (auto intro: u32_count_up)

declare validate_loop.simps [simp del]

type_synonym array_validator =
  "mem \<Rightarrow> addr \<Rightarrow> ArrayValidateParams option \<Rightarrow> BoundsChecker \<Rightarrow> cpp_validation"

text \<open>\<^verbatim>\<open>Array_Data<T>::Validate\<close>, with the \<^verbatim>\<open>ValidateElements\<close> of its helper.\<close>

definition Array_Data_Validate_with ::
  "bool \<Rightarrow> array_type \<Rightarrow> (ArrayValidateParams \<Rightarrow> BoundsChecker \<Rightarrow> cpp_validation) \<Rightarrow> array_validator"
where
  "Array_Data_Validate_with dbg T ValidateElements m data params bc =
     (if data = 0 then Inr (NONE, bc)
      else if \<not> IsAligned data then Inr (MISALIGNED_OBJECT, bc)
      else if \<not> IsValidRange bc data (of_nat sizeof_ArrayHeader) then Inr (ILLEGAL_MEMORY_RANGE, bc)
      else
      bindR (array_num_elements m data) (\<lambda>num_elements.
      bindR (array_num_bytes m data) (\<lambda>num_bytes.
      bindR (if num_elements > kMaxNumElements T then Inr True
             else bindR (GetStorageSize dbg T num_elements) (\<lambda>n. Inr (num_bytes < n))) (\<lambda>bad.
      if bad then Inr (UNEXPECTED_ARRAY_HEADER, bc)
      else
      case params of
        None \<Rightarrow> Inl BadAccess
      | Some p \<Rightarrow>
          if expected_num_elements p \<noteq> 0 \<and> num_elements \<noteq> expected_num_elements p
          then Inr (UNEXPECTED_ARRAY_HEADER, bc)
          else case ClaimMemory bc data num_bytes of
            (claimed, bc') \<Rightarrow>
              if \<not> claimed then Inr (ILLEGAL_MEMORY_RANGE, bc')
              else ValidateElements p bc'))))"

text \<open>The \<^verbatim>\<open>ValidateElements\<close> of the four helpers.\<close>

definition ValidateElements_primitive ::
  "bool \<Rightarrow> ArrayValidateParams \<Rightarrow> BoundsChecker \<Rightarrow> cpp_validation"
where
  "ValidateElements_primitive dbg p bc =
     MOJO_DCHECK dbg (\<not> element_is_nullable p) (
     MOJO_DCHECK dbg (element_validate_params p = None) (Inr (NONE, bc)))"

definition ValidateElements_handle ::
  "bool \<Rightarrow> mem \<Rightarrow> addr \<Rightarrow> ArrayValidateParams \<Rightarrow> BoundsChecker \<Rightarrow> cpp_validation"
where
  "ValidateElements_handle dbg m data p bc =
     MOJO_DCHECK dbg (element_validate_params p = None) (
     validate_loop m data (\<lambda>i bc.
       bindR (load32 m (ToRef HandleType (array_storage data) i)) (\<lambda>value.
       if \<not> element_is_nullable p \<and> value = kEncodedHandleInvalid
       then Inr (UNEXPECTED_INVALID_HANDLE, bc)
       else case ClaimHandle bc value of
         (claimed, bc') \<Rightarrow> Inr (if claimed then NONE else ILLEGAL_HANDLE, bc'))) 0 bc)"

definition ValidateElements_pointer ::
  "array_type \<Rightarrow> array_validator \<Rightarrow> mem \<Rightarrow> addr \<Rightarrow> ArrayValidateParams \<Rightarrow> BoundsChecker \<Rightarrow> cpp_validation"
where
  "ValidateElements_pointer T Run m data p bc =
     validate_loop m data (\<lambda>i bc.
       let slot = ToRef T (array_storage data) i in
       bindR (load64 m slot) (\<lambda>offset.
       if \<not> element_is_nullable p \<and> offset = 0 then Inr (UNEXPECTED_NULL_POINTER, bc)
       else bindR (ValidateEncodedPointer m slot) (\<lambda>ok.
       if \<not> ok then Inr (ILLEGAL_POINTER, bc)
       else bindR (DecodePointerRaw m slot) (\<lambda>target.
         Run m target (element_validate_params p) bc)))) 0 bc"

definition ValidateElements_union ::
  "bool \<Rightarrow> generated_classes \<Rightarrow> nat \<Rightarrow> mem \<Rightarrow> addr \<Rightarrow> ArrayValidateParams \<Rightarrow> BoundsChecker \<Rightarrow> cpp_validation"
where
  "ValidateElements_union dbg gen c m data p bc =
     MOJO_DCHECK dbg (element_validate_params p = None) (
     validate_loop m data (\<lambda>i bc.
       let elem = ToRef (UnionType c) (array_storage data) i in
       bindR (if \<not> element_is_nullable p then Union_is_null gen c m elem else Inr False) (\<lambda>bad.
       if bad then Inr (UNEXPECTED_NULL_UNION, bc)
       else Union_Validate gen c m elem bc True)) 0 bc)"

text \<open>\<^verbatim>\<open>ValidateCaller<P>::Run\<close> for a struct; for arrays and maps it is their \<^verbatim>\<open>Validate\<close>.\<close>

definition ValidateCaller_Run_struct :: "bool \<Rightarrow> generated_classes \<Rightarrow> nat \<Rightarrow> array_validator" where
  "ValidateCaller_Run_struct dbg gen c m data params bc =
     MOJO_DCHECK dbg (params = None) (Struct_Validate gen c m data bc)"

definition Map_Data_Validate ::
  "array_type \<Rightarrow> array_validator \<Rightarrow> array_validator \<Rightarrow> array_validator"
where
  "Map_Data_Validate Key Validate_keys Validate_values m data value_params bc =
     (if data = 0 then Inr (NONE, bc)
      else
      bindR (ValidateStructHeaderAndClaimMemory m data bc) (\<lambda>(retval, bc).
      if retval \<noteq> NONE then Inr (retval, bc)
      else
      bindR (struct_num_bytes m data) (\<lambda>num_bytes.
      bindR (struct_version m data) (\<lambda>version.
      if num_bytes \<noteq> 24 \<or> version \<noteq> 0 then Inr (UNEXPECTED_STRUCT_HEADER, bc)
      else
      bindR (ValidateEncodedPointer m (data + 8)) (\<lambda>ok.
      if \<not> ok then Inr (ILLEGAL_POINTER, bc)
      else
      bindR (load64 m (data + 8)) (\<lambda>offset.
      if offset = 0 then Inr (UNEXPECTED_NULL_POINTER, bc)
      else
      bindR (DecodePointerRaw m (data + 8)) (\<lambda>keys.
      bindR (Validate_keys m keys (Some (MapKeyValidateParamsFactory_Get Key)) bc) (\<lambda>(retval, bc).
      if retval \<noteq> NONE then Inr (retval, bc)
      else
      bindR (ValidateEncodedPointer m (data + 16)) (\<lambda>ok.
      if \<not> ok then Inr (ILLEGAL_POINTER, bc)
      else
      bindR (load64 m (data + 16)) (\<lambda>offset.
      if offset = 0 then Inr (UNEXPECTED_NULL_POINTER, bc)
      else
      bindR (DecodePointerRaw m (data + 16)) (\<lambda>values.
      bindR (Validate_values m values value_params bc) (\<lambda>(retval, bc).
      if retval \<noteq> NONE then Inr (retval, bc)
      else
      bindR (array_num_elements m keys) (\<lambda>num_keys.
      bindR (array_num_elements m values) (\<lambda>num_values.
      Inr (if num_keys \<noteq> num_values then DIFFERENT_SIZED_ARRAYS_IN_MAP else NONE, bc)))))))))))))))"

primrec Array_Data_Validate ::
  "array_type \<Rightarrow> bool \<Rightarrow> generated_classes \<Rightarrow> array_validator"
where
  "Array_Data_Validate (Primitive n) dbg gen m data =
     Array_Data_Validate_with dbg (Primitive n) (ValidateElements_primitive dbg) m data"
| "Array_Data_Validate Bool dbg gen m data =
     Array_Data_Validate_with dbg Bool (ValidateElements_primitive dbg) m data"
| "Array_Data_Validate InterfaceType dbg gen m data =
     Array_Data_Validate_with dbg InterfaceType (ValidateElements_primitive dbg) m data"
| "Array_Data_Validate HandleType dbg gen m data =
     Array_Data_Validate_with dbg HandleType (ValidateElements_handle dbg m data) m data"
| "Array_Data_Validate (StructPtr c) dbg gen m data =
     Array_Data_Validate_with dbg (StructPtr c)
       (ValidateElements_pointer (StructPtr c) (ValidateCaller_Run_struct dbg gen c) m data) m data"
| "Array_Data_Validate (MapPtr K V) dbg gen m data =
     Array_Data_Validate_with dbg (MapPtr K V)
       (ValidateElements_pointer (MapPtr K V)
          (Map_Data_Validate K (Array_Data_Validate K dbg gen) (Array_Data_Validate V dbg gen))
          m data) m data"
| "Array_Data_Validate (ArrayPtr T) dbg gen m data =
     Array_Data_Validate_with dbg (ArrayPtr T)
       (ValidateElements_pointer (ArrayPtr T) (Array_Data_Validate T dbg gen) m data) m data"
| "Array_Data_Validate (UnionType c) dbg gen m data =
     Array_Data_Validate_with dbg (UnionType c) (ValidateElements_union dbg gen c m data) m data"

end
