(* ===== verification/Cpp_ArraySafety.thy ===== *)
theory Cpp_ArraySafety
  imports Cpp_ArrayData
begin

text \<open>
  Validation of arrays and maps in the C++ bindings: on every input it returns a verdict, reads only
  the message, and what it accepts is claimed from the \<^verbatim>\<open>BoundsChecker\<close> exactly once. The contract a
  validator has towards the container that calls it is a locale; the validator of struct headers
  and that of strings are interpretations, and induction on the template argument gives every
  array and map.
\<close>

section \<open>Storage sizes\<close>

definition sized :: "array_type \<Rightarrow> bool" where
  "sized T \<longleftrightarrow> 0 < sizeof_StorageType T \<and> sizeof_StorageType T \<le> 16"

lemma sized_simps [simp]:
  "sized Bool" "sized HandleType" "sized InterfaceType" "sized (StructPtr c)" "sized (MapPtr K V)"
  "sized (ArrayPtr T)" "sized (UnionType c)" "sized (Primitive n) \<longleftrightarrow> 0 < n \<and> n \<le> 16"
  by (simp_all add: sized_def)

lemma unat_kMaxNumElements:
  assumes "T \<noteq> Bool" and "sized T"
  shows "unat (kMaxNumElements T) = 4294967287 div sizeof_StorageType T"
proof -
  have s: "unat (of_nat (sizeof_StorageType T) :: u64) = sizeof_StorageType T"
    using assms(2) by (simp add: sized_def unat_of_nat)
  have "unat ((ucast kMaxUint32 - of_nat sizeof_ArrayHeader :: u64) div of_nat (sizeof_StorageType T)) =
      4294967287 div sizeof_StorageType T"
    by (simp add: unat_div_distrib s kMaxUint32_def)
  moreover have "4294967287 div sizeof_StorageType T < 4294967296"
    by (rule le_less_trans [OF div_le_dividend]) simp
  ultimately show ?thesis using assms(1) by (simp add: kMaxNumElements_def unat_ucast_u64_u32)
qed

lemma le_kMaxNumElements:
  assumes "T \<noteq> Bool" and "sized T"
  shows "num \<le> kMaxNumElements T \<longleftrightarrow> 8 + sizeof_StorageType T * unat num < 4294967296"
proof -
  have "num \<le> kMaxNumElements T \<longleftrightarrow> unat num \<le> 4294967287 div sizeof_StorageType T"
    by (simp add: word_le_nat_alt unat_kMaxNumElements assms)
  also have "\<dots> \<longleftrightarrow> unat num * sizeof_StorageType T \<le> 4294967287"
    using assms(2) by (simp add: less_eq_div_iff_mult_less_eq sized_def)
  finally show ?thesis by (auto simp: mult.commute)
qed

lemma GetStorageSize_eq:
  assumes "T \<noteq> Bool" and "sized T" and "num \<le> kMaxNumElements T"
  shows "\<exists>n. GetStorageSize dbg T num = Inr n \<and> unat n = 8 + sizeof_StorageType T * unat num"
proof -
  have le: "8 + sizeof_StorageType T * unat num < 4294967296"
    using le_kMaxNumElements assms by blast
  have "(8 :: u64) + of_nat (sizeof_StorageType T) * ucast num =
      of_nat (8 + sizeof_StorageType T * unat num)"
    by simp
  with le assms show ?thesis
    by (simp add: GetStorageSize_def unat_ucast_u64_u32 unat_of_nat del: of_nat_add)
qed

lemma GetStorageSize_total: "sized T \<Longrightarrow> num \<le> kMaxNumElements T \<Longrightarrow> \<exists>n. GetStorageSize dbg T num = Inr n"
  by (cases "T = Bool") (simp add: GetStorageSize_def, use GetStorageSize_eq in blast)

section \<open>The contract of a validator\<close>

definition covers :: "mem \<Rightarrow> BoundsChecker \<Rightarrow> bool" where
  "covers m bc \<longleftrightarrow> (\<forall>x. unat (data_begin bc) \<le> x \<longrightarrow> x < unat (data_end bc) \<longrightarrow> m x \<noteq> None)"

definition advances :: "BoundsChecker \<Rightarrow> BoundsChecker \<Rightarrow> bool" where
  "advances bc bc' \<longleftrightarrow> data_begin bc \<le> data_begin bc' \<and> data_end bc' = data_end bc \<and>
     handle_begin bc \<le> handle_begin bc' \<and> handle_end bc' = handle_end bc"

lemma advances_refl [simp]: "advances bc bc"
  by (simp add: advances_def)

lemma advances_trans [trans]: "advances a b \<Longrightarrow> advances b c \<Longrightarrow> advances a c"
  by (auto simp: advances_def)

lemma covers_advances: "covers m bc \<Longrightarrow> advances bc bc' \<Longrightarrow> covers m bc'"
  by (auto simp: covers_def advances_def word_le_nat_alt)

lemma covers_mapped:
  "covers m bc \<Longrightarrow> unat (data_begin bc) \<le> a \<Longrightarrow> a + n \<le> unat (data_end bc) \<Longrightarrow> mapped m a n"
  by (auto simp: covers_def mapped_iff_range)

text \<open>A verdict, and progress when it is positive.\<close>

definition verdict :: "BoundsChecker \<Rightarrow> cpp_validation \<Rightarrow> bool" where
  "verdict bc v \<longleftrightarrow> (\<exists>r bc'. v = Inr (r, bc') \<and> (r = NONE \<longrightarrow> advances bc bc'))"

lemma verdict_Inr [simp]: "verdict bc (Inr (r, bc')) \<longleftrightarrow> (r = NONE \<longrightarrow> advances bc bc')"
  by (simp add: verdict_def)

lemma verdict_trans: "advances a b \<Longrightarrow> verdict b v \<Longrightarrow> verdict a v"
  by (auto simp: verdict_def intro: advances_trans)

lemma verdict_bind:
  assumes "verdict bc v"
    and "\<And>bc'. v = Inr (NONE, bc') \<Longrightarrow> advances bc bc' \<Longrightarrow> verdict bc' (k (NONE, bc'))"
    and "\<And>r bc'. r \<noteq> NONE \<Longrightarrow> k (r, bc') = Inr (r, bc')"
  shows "verdict bc (bindR v k)"
proof -
  from assms(1) obtain r bc' where v: "v = Inr (r, bc')" "r = NONE \<longrightarrow> advances bc bc'"
    by (auto simp: verdict_def)
  with assms(2) [of bc'] assms(3) [of r bc'] show ?thesis
    by (cases "r = NONE") (auto intro: verdict_trans)
qed

locale claiming_validator =
  fixes m :: mem and validate :: "addr \<Rightarrow> BoundsChecker \<Rightarrow> cpp_validation"
  assumes validate_verdict:
    "data < 18446744073709551616 \<Longrightarrow> covers m bc \<Longrightarrow> verdict bc (validate data bc)"

lemma validate_loop_verdict:
  assumes "mapped m (header + 4) 4"
    and "\<And>i bc. i < unat (peek32 m (header + 4)) \<Longrightarrow> covers m bc \<Longrightarrow> verdict bc (f i bc)"
    and "covers m bc"
  shows "verdict bc (validate_loop m header f i bc)"
  using assms
proof (induction m header f i bc rule: validate_loop.induct)
  case (1 m header f i bc)
  let ?n = "peek32 m (header + 4)"
  from "1.prems" have n: "array_num_elements m header = Inr ?n"
    by (simp add: array_num_elements_def load32_eq)
  show ?case
  proof (cases "i < unat ?n")
    case True
    have "verdict bc (bindR (f i bc)
        (\<lambda>rb. if fst rb \<noteq> NONE then Inr rb else validate_loop m header f (Suc i) (snd rb)))"
    proof (rule verdict_bind)
      show "verdict bc (f i bc)" using "1.prems" True by simp
      fix bc' assume "f i bc = Inr (NONE, bc')" "advances bc bc'"
      with "1.IH" [OF n True, of "(NONE, bc')"] "1.prems" show "verdict bc'
          (if fst (NONE, bc') \<noteq> NONE then Inr (NONE, bc')
           else validate_loop m header f (Suc i) (snd (NONE, bc')))"
        by (auto intro: covers_advances)
    qed simp
    with True n show ?thesis by (simp add: validate_loop.simps [of m header f i])
  next
    case False
    with n show ?thesis by (simp add: validate_loop.simps [of m header f i])
  qed
qed

text \<open>What \<^verbatim>\<open>ValidateEncodedPointer\<close> ensures of the address a slot decodes to.\<close>

lemma ValidateEncodedPointer_target:
  assumes "mapped m slot 8" and "slot < 18446744073709551616"
  shows "ValidateEncodedPointer m slot =
      Inr (unat (peek64 m slot) < 4294967296 \<and> slot + unat (peek64 m slot) < 18446744073709551616)"
    and "DecodePointerRaw m slot =
      Inr (if peek64 m slot = 0 then 0 else slot + unat (peek64 m slot))"
proof -
  let ?o = "peek64 m slot"
  have le: "?o \<le> ucast (- 1 :: u32) \<longleftrightarrow> unat ?o < 4294967296"
    by (simp add: word_le_nat_alt unsigned_minus_1_eq_mask mask_eq_exp_minus_1) linarith
  have "((of_nat slot :: u64) + ucast (ucast ?o :: u32) \<ge> of_nat slot) \<longleftrightarrow>
      slot + unat ?o < 18446744073709551616" if "unat ?o < 4294967296"
  proof -
    have "unat (ucast ?o :: u32) = unat ?o"
      using that by (simp add: unat_ucast_u64_u32)
    with assms(2) that show ?thesis
      by (auto simp: word_le_nat_alt unat_plus_if_size word_size unat_of_nat)
  qed
  with le assms show "ValidateEncodedPointer m slot =
      Inr (unat ?o < 4294967296 \<and> slot + unat ?o < 18446744073709551616)"
    by (auto simp: ValidateEncodedPointer_def load64_eq)
  show "DecodePointerRaw m slot = Inr (if ?o = 0 then 0 else slot + unat ?o)"
    using assms by (simp add: DecodePointerRaw_def load64_eq)
qed

section \<open>Containers of validated objects\<close>

text \<open>The slots of the elements of an array whose header was accepted.\<close>

definition slots_mapped :: "array_type \<Rightarrow> mem \<Rightarrow> addr \<Rightarrow> bool" where
  "slots_mapped T m data \<longleftrightarrow> mapped m data 8 \<and>
     (\<forall>i < unat (peek32 m (data + 4)).
        mapped m (ToRef T (array_storage data) i) (sizeof_StorageType T) \<and>
        ToRef T (array_storage data) i < 18446744073709551616)"

lemma slots_mappedD:
  "slots_mapped T m data \<Longrightarrow> mapped m data 8"
  "slots_mapped T m data \<Longrightarrow> mapped m (data + 4) 4"
  "slots_mapped T m data \<Longrightarrow> i < unat (peek32 m (data + 4)) \<Longrightarrow>
     mapped m (ToRef T (array_storage data) i) (sizeof_StorageType T) \<and>
     ToRef T (array_storage data) i < 18446744073709551616"
  using mapped_sub [of m data 8 "data + 4" 4] by (simp_all add: slots_mapped_def)

context claiming_validator
begin

lemma pointer_elements_verdict:
  assumes "slots_mapped T m data" and "sizeof_StorageType T = 8" and "covers m bc"
    and "\<And>d bc. Run m d (element_validate_params p) bc = validate d bc"
  shows "verdict bc (ValidateElements_pointer T Run m data p bc)"
  unfolding ValidateElements_pointer_def
proof (rule validate_loop_verdict)
  show "mapped m (data + 4) 4" using assms(1) by (rule slots_mappedD)
  show "covers m bc" by fact
  fix i bc assume i: "i < unat (peek32 m (data + 4))" and c: "covers m bc"
  let ?slot = "ToRef T (array_storage data) i"
  have s: "mapped m ?slot 8" "?slot < 18446744073709551616"
    using slots_mappedD(3) [OF assms(1) i] assms(2) by simp_all
  show "verdict bc (let slot = ?slot in
       bindR (load64 m slot) (\<lambda>offset.
       if \<not> element_is_nullable p \<and> offset = 0 then Inr (UNEXPECTED_NULL_POINTER, bc)
       else bindR (ValidateEncodedPointer m slot) (\<lambda>ok.
       if \<not> ok then Inr (ILLEGAL_POINTER, bc)
       else bindR (DecodePointerRaw m slot) (\<lambda>target.
         Run m target (element_validate_params p) bc))))"
    using s validate_verdict [OF _ c]
    by (simp add: Let_def load64_eq ValidateEncodedPointer_target assms(4))
qed

end

lemma handle_elements_verdict:
  assumes "slots_mapped HandleType m data" and "covers m bc" and "element_validate_params p = None"
  shows "verdict bc (ValidateElements_handle dbg m data p bc)"
  unfolding ValidateElements_handle_def assms(3) simp_thms MOJO_DCHECK_True
proof (rule validate_loop_verdict)
  show "mapped m (data + 4) 4" using assms(1) by (rule slots_mappedD)
  show "covers m bc" by fact
  fix i bc assume i: "i < unat (peek32 m (data + 4))"
  have "advances bc (bc\<lparr>handle_begin := h + 1\<rparr>)" if "handle_begin bc \<le> h" "h < handle_end bc" for h
    using that unat_Suc_handle [of h "handle_end bc"] by (simp add: advances_def word_le_nat_alt)
  with slots_mappedD(3) [OF assms(1) i]
  show "verdict bc (bindR (load32 m (ToRef HandleType (array_storage data) i)) (\<lambda>value.
       if \<not> element_is_nullable p \<and> value = kEncodedHandleInvalid
       then Inr (UNEXPECTED_INVALID_HANDLE, bc)
       else case ClaimHandle bc value of
         (claimed, bc') \<Rightarrow> Inr (if claimed then NONE else ILLEGAL_HANDLE, bc')))"
    by (simp add: load32_eq ClaimHandle_cases)
qed

lemma union_elements_verdict:
  assumes "slots_mapped (UnionType c) m data" and "covers m bc" and "element_validate_params p = None"
    and "\<And>e bc. mapped m e 16 \<Longrightarrow> covers m bc \<Longrightarrow> (\<exists>b. Union_is_null gen c m e = Inr b) \<and>
           verdict bc (Union_Validate gen c m e bc True)"
  shows "verdict bc (ValidateElements_union dbg gen c m data p bc)"
  unfolding ValidateElements_union_def assms(3) simp_thms MOJO_DCHECK_True
proof (rule validate_loop_verdict)
  show "mapped m (data + 4) 4" using assms(1) by (rule slots_mappedD)
  show "covers m bc" by fact
  fix i bc assume i: "i < unat (peek32 m (data + 4))" and c: "covers m bc"
  have "mapped m (ToRef (UnionType c) (array_storage data) i) 16"
    using slots_mappedD(3) [OF assms(1) i] by simp
  with assms(4) [OF _ c] show "verdict bc (let elem = ToRef (UnionType c) (array_storage data) i in
       bindR (if \<not> element_is_nullable p then Union_is_null gen c m elem else Inr False) (\<lambda>bad.
       if bad then Inr (UNEXPECTED_NULL_UNION, bc)
       else Union_Validate gen c m elem bc True))"
    by (fastforce simp: Let_def)
qed

lemma ValidateStructHeader_verdict:
  assumes "data < 18446744073709551616" and "covers m bc"
  shows "verdict bc (ValidateStructHeaderAndClaimMemory m data bc)"
    and "ValidateStructHeaderAndClaimMemory m data bc = Inr (NONE, bc') \<Longrightarrow>
      8 dvd data \<and> 8 \<le> unat (peek32 m data) \<and> unat (data_begin bc) \<le> data \<and>
      data + unat (peek32 m data) \<le> unat (data_end bc) \<and>
      bc' = bc\<lparr>data_begin := of_nat (data + unat (peek32 m data))\<rparr>"
proof -
  note range = IsValidRange_iff [OF assms(1)]
  have hdr: "mapped m data 4" if "IsValidRange bc data 8"
    using that range [of bc 8] covers_mapped [OF assms(2), of data 4]
    by (simp add: IsValidRange_def Let_def)
  have "unat (of_nat (data + n) :: u64) = data + n" if "data + n \<le> unat (data_end bc)" for n
    using that by (rule unat_of_nat_le_u64)
  then have "advances bc (bc\<lparr>data_begin := of_nat (data + n)\<rparr>)"
    if "unat (data_begin bc) \<le> data" "data + n \<le> unat (data_end bc)" for n
    using that by (simp add: advances_def word_le_nat_alt del: of_nat_add)
  with hdr show "verdict bc (ValidateStructHeaderAndClaimMemory m data bc)"
    by (simp add: ValidateStructHeaderAndClaimMemory_def struct_num_bytes_def load32_eq
        ClaimMemory_cases [OF assms(1)] del: of_nat_add)
  show "ValidateStructHeaderAndClaimMemory m data bc = Inr (NONE, bc') \<Longrightarrow>
      8 dvd data \<and> 8 \<le> unat (peek32 m data) \<and> unat (data_begin bc) \<le> data \<and>
      data + unat (peek32 m data) \<le> unat (data_end bc) \<and>
      bc' = bc\<lparr>data_begin := of_nat (data + unat (peek32 m data))\<rparr>"
    by (auto simp: ValidateStructHeaderAndClaimMemory_def struct_num_bytes_def load32_eq res_simps
        ClaimMemory_cases [OF assms(1)] split: if_splits simp del: of_nat_add)
qed

interpretation struct_header: claiming_validator m "ValidateStructHeaderAndClaimMemory m" for m
  by unfold_locales (rule ValidateStructHeader_verdict)

section \<open>Arrays\<close>

text \<open>The header and the claim of an array, before its elements are looked at.\<close>

definition header_accepted :: "array_type \<Rightarrow> mem \<Rightarrow> addr \<Rightarrow> BoundsChecker \<Rightarrow> bool" where
  "header_accepted T m data bc \<longleftrightarrow> 8 dvd data \<and> unat (data_begin bc) \<le> data \<and>
     8 \<le> unat (peek32 m data) \<and> data + unat (peek32 m data) \<le> unat (data_end bc) \<and>
     (T \<noteq> Bool \<longrightarrow> 8 + sizeof_StorageType T * unat (peek32 m (data + 4)) \<le> unat (peek32 m data))"

lemma header_accepted_slots:
  assumes "header_accepted T m data bc" and "covers m bc" and "T \<noteq> Bool"
  shows "slots_mapped T m data"
proof -
  let ?s = "sizeof_StorageType T" and ?n = "unat (peek32 m (data + 4))"
  from assms(1,3) have h: "unat (data_begin bc) \<le> data" "data + unat (peek32 m data) \<le> unat (data_end bc)"
    "8 \<le> unat (peek32 m data)" "8 + ?s * ?n \<le> unat (peek32 m data)"
    by (simp_all add: header_accepted_def)
  have "?s * i + ?s \<le> ?s * ?n" if "i < ?n" for i
    using that mult_le_mono2 [of "Suc i" ?n ?s] by simp
  then have "mapped m (ToRef T (array_storage data) i) ?s \<and>
      ToRef T (array_storage data) i < 18446744073709551616" if "i < ?n" for i
    using that h covers_mapped [OF assms(2), of "data + 8 + ?s * i" ?s] unat_u64_bound [of "data_end bc"]
    by (fastforce simp: ToRef_def array_storage_def)
  moreover have "mapped m data 8" using h by (intro covers_mapped [OF assms(2)]) simp_all
  ultimately show ?thesis by (simp add: slots_mapped_def)
qed

lemma Array_Data_Validate_with_cases:
  assumes "data < 18446744073709551616" and "covers m bc" and "sized T"
  shows "(data = 0 \<and> Array_Data_Validate_with dbg T E m data (Some p) bc = Inr (NONE, bc)) \<or>
    (\<exists>r. r \<noteq> NONE \<and> Array_Data_Validate_with dbg T E m data (Some p) bc = Inr (r, bc)) \<or>
    (data \<noteq> 0 \<and> header_accepted T m data bc \<and>
     advances bc (bc\<lparr>data_begin := of_nat (data + unat (peek32 m data))\<rparr>) \<and>
     Array_Data_Validate_with dbg T E m data (Some p) bc =
       E p (bc\<lparr>data_begin := of_nat (data + unat (peek32 m data))\<rparr>))"
  (is "?null \<or> ?error \<or> ?elements")
proof (cases "data \<noteq> 0 \<and> 8 dvd data \<and> unat (data_begin bc) \<le> data \<and> data + 8 \<le> unat (data_end bc)")
  case False
  then have "?null \<or> ?error"
    using IsValidRange_iff [OF assms(1), of bc 8]
    by (auto simp: Array_Data_Validate_with_def IsValidRange_def Let_def)
  then show ?thesis by blast
next
  case True
  then have "mapped m data 8" by (intro covers_mapped [OF assms(2)]) simp_all
  then have hdr: "mapped m data 4" "mapped m (data + 4) 4" by (auto intro: mapped_sub)
  let ?n = "peek32 m data" and ?k = "peek32 m (data + 4)"
  let ?bc = "bc\<lparr>data_begin := of_nat (data + unat ?n)\<rparr>"
  have valid: "IsValidRange bc data 8"
    using True IsValidRange_iff [OF assms(1), of bc 8] by (simp add: IsValidRange_def Let_def)
  show ?thesis
  proof (cases "?k \<le> kMaxNumElements T")
    case False
    with True hdr valid show ?thesis
      by (simp add: Array_Data_Validate_with_def layout_defs load32_eq not_le)
  next
    case k: True
    obtain s where s: "GetStorageSize dbg T ?k = Inr s"
      using GetStorageSize_total [OF assms(3) k] by blast
    have bytes: "8 \<le> unat s \<and> (T \<noteq> Bool \<longrightarrow> unat s = 8 + sizeof_StorageType T * unat ?k)"
    proof (cases "T = Bool")
      case True
      have "unat (ucast ((?k + 7) div 8) :: u64) = unat (?k + 7) div 8"
        by (simp add: unat_div_distrib)
      moreover have "unat (?k + 7) div 8 \<le> 536870912"
        using unat_u32_bound [of "?k + 7"] by linarith
      ultimately have "unat ((8 :: u64) + ucast ((?k + 7) div 8)) = 8 + unat (?k + 7) div 8"
        by (simp add: unat_plus_if_size word_size)
      with \<open>unat (?k + 7) div 8 \<le> 536870912\<close> True s show ?thesis
        by (auto simp: GetStorageSize_def unat_ucast_u64_u32)
    next
      case False
      with GetStorageSize_eq [OF False assms(3) k, of dbg] s show ?thesis by auto
    qed
    have adv: "advances bc ?bc"
      if "unat (data_begin bc) \<le> data" "data + unat ?n \<le> unat (data_end bc)"
      using that unat_of_nat_le_u64 [OF that(2)]
      by (simp add: advances_def word_le_nat_alt del: of_nat_add)
    show ?thesis
    proof (cases "?n < s \<or> expected_num_elements p \<noteq> 0 \<and> ?k \<noteq> expected_num_elements p \<or>
        \<not> data + unat ?n \<le> unat (data_end bc)")
      case bad: True
      have "?error"
        using True hdr valid s k bad
        by (auto simp: Array_Data_Validate_with_def layout_defs load32_eq
            ClaimMemory_cases [OF assms(1)])
      then show ?thesis by blast
    next
      case ok: False
      then have "header_accepted T m data bc" "0 < unat ?n"
        using True bytes by (auto simp: header_accepted_def word_less_nat_alt)
      moreover have "Array_Data_Validate_with dbg T E m data (Some p) bc = E p ?bc"
        using True hdr valid s k ok \<open>0 < unat ?n\<close>
        by (auto simp: Array_Data_Validate_with_def layout_defs load32_eq not_le
            ClaimMemory_cases [OF assms(1)] simp del: of_nat_add)
      ultimately show ?thesis using True ok adv by simp
    qed
  qed
qed

lemma Array_Data_Validate_with_verdict:
  assumes "data < 18446744073709551616" and "covers m bc" and "sized T"
    and "\<And>bc'. data \<noteq> 0 \<Longrightarrow> header_accepted T m data bc \<Longrightarrow> covers m bc' \<Longrightarrow> verdict bc' (E p bc')"
  shows "verdict bc (Array_Data_Validate_with dbg T E m data (Some p) bc)"
    and "Array_Data_Validate_with dbg T E m data (Some p) bc = Inr (NONE, bc') \<Longrightarrow> data \<noteq> 0 \<Longrightarrow>
      header_accepted T m data bc \<and>
      advances (bc\<lparr>data_begin := of_nat (data + unat (peek32 m data))\<rparr>) bc'"
proof -
  let ?bc = "bc\<lparr>data_begin := of_nat (data + unat (peek32 m data))\<rparr>"
  note cases = Array_Data_Validate_with_cases [OF assms(1-3), of dbg E p]
  have e: "verdict ?bc (E p ?bc)"
    if "data \<noteq> 0" "header_accepted T m data bc" "advances bc ?bc"
    using that assms(2,4) covers_advances by blast
  from cases show "verdict bc (Array_Data_Validate_with dbg T E m data (Some p) bc)"
    using e verdict_trans [of bc ?bc] by (elim disjE conjE exE) simp_all
  assume "Array_Data_Validate_with dbg T E m data (Some p) bc = Inr (NONE, bc')" "data \<noteq> 0"
  with cases e show "header_accepted T m data bc \<and> advances ?bc bc'"
    by (elim disjE conjE exE) simp_all
qed

text \<open>
  The parameters the generator emits for a type: exactly arrays and maps of arrays or maps have
  parameters for their elements, and arrays of primitive values are not nullable.
\<close>

fun params_ok :: "array_type \<Rightarrow> ArrayValidateParams \<Rightarrow> bool" where
  "params_ok (Primitive n) p \<longleftrightarrow>
     0 < n \<and> n \<le> 16 \<and> \<not> element_is_nullable p \<and> element_validate_params p = None"
| "params_ok Bool p \<longleftrightarrow> \<not> element_is_nullable p \<and> element_validate_params p = None"
| "params_ok InterfaceType p \<longleftrightarrow> \<not> element_is_nullable p \<and> element_validate_params p = None"
| "params_ok HandleType p \<longleftrightarrow> element_validate_params p = None"
| "params_ok (StructPtr c) p \<longleftrightarrow> element_validate_params p = None"
| "params_ok (UnionType c) p \<longleftrightarrow> element_validate_params p = None"
| "params_ok (ArrayPtr T) p \<longleftrightarrow>
     (case element_validate_params p of None \<Rightarrow> False | Some q \<Rightarrow> params_ok T q)"
| "params_ok (MapPtr K V) p \<longleftrightarrow> params_ok K (MapKeyValidateParamsFactory_Get K) \<and>
     (case element_validate_params p of None \<Rightarrow> False | Some q \<Rightarrow> params_ok V q)"

lemma params_ok_sized: "params_ok T p \<Longrightarrow> sized T"
  by (cases T) simp_all

text \<open>What the code relies on of the generated classes: a verdict, and progress of the checker.\<close>

definition classes_ok :: "mem \<Rightarrow> generated_classes \<Rightarrow> bool" where
  "classes_ok m gen \<longleftrightarrow>
     (\<forall>c. claiming_validator m (Struct_Validate gen c m)) \<and>
     (\<forall>c e bc. mapped m e 16 \<longrightarrow> covers m bc \<longrightarrow>
        (\<exists>b. Union_is_null gen c m e = Inr b) \<and> verdict bc (Union_Validate gen c m e bc True))"

section \<open>Maps\<close>

lemma pointer_field_verdict:
  assumes "mapped m slot 8" and "slot < 18446744073709551616"
    and "\<And>t. t = slot + unat (peek64 m slot) \<Longrightarrow> 0 < t \<Longrightarrow> t < 18446744073709551616 \<Longrightarrow> verdict bc (k t)"
  shows "verdict bc (bindR (ValidateEncodedPointer m slot) (\<lambda>ok.
      if \<not> ok then Inr (ILLEGAL_POINTER, bc)
      else
      bindR (load64 m slot) (\<lambda>offset.
      if offset = 0 then Inr (UNEXPECTED_NULL_POINTER, bc)
      else bindR (DecodePointerRaw m slot) k)))"
  using assms by (auto simp: ValidateEncodedPointer_target load64_eq unat_gt_0)

text \<open>The part of the validation of a map that follows the pointer to its keys.\<close>

lemma map_arrays_verdict:
  assumes cov: "covers m bc"
    and keys: "\<And>d bc. d < 18446744073709551616 \<Longrightarrow> covers m bc \<Longrightarrow> verdict bc (VK m d kp bc)"
    and keys_header: "\<And>d bc bc'. d < 18446744073709551616 \<Longrightarrow> covers m bc \<Longrightarrow> d \<noteq> 0 \<Longrightarrow>
      VK m d kp bc = Inr (NONE, bc') \<Longrightarrow> mapped m d 8"
    and vals: "\<And>d bc. d < 18446744073709551616 \<Longrightarrow> covers m bc \<Longrightarrow> verdict bc (VV m d vp bc)"
    and vals_header: "\<And>d bc bc'. d < 18446744073709551616 \<Longrightarrow> covers m bc \<Longrightarrow> d \<noteq> 0 \<Longrightarrow>
      VV m d vp bc = Inr (NONE, bc') \<Longrightarrow> mapped m d 8"
    and slot: "mapped m slot 8" "slot < 18446744073709551616"
    and d: "0 < d" "d < 18446744073709551616"
  shows "verdict bc (bindR (VK m d kp bc) (\<lambda>(retval, bc).
      if retval \<noteq> NONE then Inr (retval, bc)
      else
      bindR (ValidateEncodedPointer m slot) (\<lambda>ok.
      if \<not> ok then Inr (ILLEGAL_POINTER, bc)
      else
      bindR (load64 m slot) (\<lambda>offset.
      if offset = 0 then Inr (UNEXPECTED_NULL_POINTER, bc)
      else
      bindR (DecodePointerRaw m slot) (\<lambda>values.
      bindR (VV m values vp bc) (\<lambda>(retval, bc).
      if retval \<noteq> NONE then Inr (retval, bc)
      else
      bindR (array_num_elements m d) (\<lambda>num_keys.
      bindR (array_num_elements m values) (\<lambda>num_values.
      Inr (if num_keys \<noteq> num_values then DIFFERENT_SIZED_ARRAYS_IN_MAP else NONE, bc)))))))))"
proof -
  have count: "mapped m a 8 \<Longrightarrow> array_num_elements m a = Inr (peek32 m (a + 4))" for a
    using mapped_sub [of m a 8 "a + 4" 4] by (simp add: array_num_elements_def load32_eq)
  show ?thesis
  proof (rule verdict_bind [OF keys [OF d(2) cov]], goal_cases)
    case (1 bc1)
    then have c1: "covers m bc1" and dm: "mapped m d 8"
      using cov d keys_header by (auto intro: covers_advances)
    show ?case
      unfolding prod.case simp_thms if_False
    proof (rule pointer_field_verdict [OF slot])
      fix t :: addr assume t: "0 < t" "t < 18446744073709551616"
      show "verdict bc1 (bindR (VV m t vp bc1) (\<lambda>(retval, bc).
          if retval \<noteq> NONE then Inr (retval, bc)
          else
          bindR (array_num_elements m d) (\<lambda>num_keys.
          bindR (array_num_elements m t) (\<lambda>num_values.
          Inr (if num_keys \<noteq> num_values then DIFFERENT_SIZED_ARRAYS_IN_MAP else NONE, bc)))))"
        by (rule verdict_bind [OF vals [OF t(2) c1]])
          (use dm t vals_header [OF t(2) c1] in \<open>simp_all add: count\<close>)
    qed
  qed simp
qed

lemma Map_Data_Validate_verdict:
  assumes "data < 18446744073709551616" and "covers m bc"
    and keys: "\<And>d bc. d < 18446744073709551616 \<Longrightarrow> covers m bc \<Longrightarrow>
      verdict bc (VK m d (Some (MapKeyValidateParamsFactory_Get K)) bc)"
    and keys_header: "\<And>d bc bc'. d < 18446744073709551616 \<Longrightarrow> covers m bc \<Longrightarrow> d \<noteq> 0 \<Longrightarrow>
      VK m d (Some (MapKeyValidateParamsFactory_Get K)) bc = Inr (NONE, bc') \<Longrightarrow> mapped m d 8"
    and vals: "\<And>d bc. d < 18446744073709551616 \<Longrightarrow> covers m bc \<Longrightarrow> verdict bc (VV m d vp bc)"
    and vals_header: "\<And>d bc bc'. d < 18446744073709551616 \<Longrightarrow> covers m bc \<Longrightarrow> d \<noteq> 0 \<Longrightarrow>
      VV m d vp bc = Inr (NONE, bc') \<Longrightarrow> mapped m d 8"
  shows "verdict bc (Map_Data_Validate K VK VV m data vp bc)"
proof (cases "data = 0")
  case False
  show ?thesis
    unfolding Map_Data_Validate_def if_not_P [OF False]
  proof (rule verdict_bind [OF ValidateStructHeader_verdict(1) [OF assms(1,2)]], goal_cases)
    case (1 bc1)
    note h = ValidateStructHeader_verdict(2) [OF assms(1,2) 1(1)]
    from 1 assms(2) have cov: "covers m bc1" by (blast intro: covers_advances)
    have hdr: "mapped m data (unat (peek32 m data))"
      using h by (intro covers_mapped [OF assms(2)]) simp_all
    then have fields: "mapped m data 4" "mapped m (data + 4) 4" using h by (auto intro: mapped_sub)
    show ?case
    proof (cases "peek32 m data = 24 \<and> peek32 m (data + 4) = 0")
      case False
      with fields show ?thesis by (simp add: layout_defs load32_eq)
    next
      case True
      with hdr have slots: "mapped m (data + 8) 8" "mapped m (data + 16) 8"
        by (auto intro: mapped_sub)
      have small: "data + 8 < 18446744073709551616" "data + 16 < 18446744073709551616"
        using True h unat_u64_bound [of "data_end bc"] by auto
      from True fields show ?thesis
        by (simp add: struct_num_bytes_def struct_version_def load32_eq)
          (rule pointer_field_verdict [OF slots(1) small(1)],
           rule map_arrays_verdict [where VK = VK and VV = VV and vp = vp and
              kp = "Some (MapKeyValidateParamsFactory_Get K)", OF cov keys keys_header vals vals_header
              slots(2) small(2)], simp_all)
    qed
  qed simp
qed (simp add: Map_Data_Validate_def)

section \<open>Every array type\<close>

text \<open>What an accepted array leaves: a claimed header, and a checker that moved past the array.\<close>

definition array_claimed ::
  "array_type \<Rightarrow> mem \<Rightarrow> addr \<Rightarrow> BoundsChecker \<Rightarrow> BoundsChecker \<Rightarrow> bool"
where
  "array_claimed T m data bc bc' \<longleftrightarrow> header_accepted T m data bc \<and>
     advances (bc\<lparr>data_begin := of_nat (data + unat (peek32 m data))\<rparr>) bc'"

lemma header_accepted_mapped: "header_accepted T m data bc \<Longrightarrow> covers m bc \<Longrightarrow> mapped m data 8"
  by (rule covers_mapped) (auto simp: header_accepted_def)

lemma array_verdict:
  assumes "Array_Data_Validate T dbg gen m data = Array_Data_Validate_with dbg T E m data"
    and "data < 18446744073709551616" and "covers m bc" and "sized T"
    and "\<And>bc'. header_accepted T m data bc \<Longrightarrow> covers m bc' \<Longrightarrow> verdict bc' (E p bc')"
  shows "verdict bc (Array_Data_Validate T dbg gen m data (Some p) bc) \<and>
    (\<forall>bc'. Array_Data_Validate T dbg gen m data (Some p) bc = Inr (NONE, bc') \<longrightarrow> data \<noteq> 0 \<longrightarrow>
      array_claimed T m data bc bc')"
  using Array_Data_Validate_with_verdict [OF assms(2-4), of E p dbg] assms(1,5)
  by (simp add: array_claimed_def)

lemma pointer_array_verdict:
  assumes "Array_Data_Validate T dbg gen m data =
      Array_Data_Validate_with dbg T (ValidateElements_pointer T Run m data) m data"
    and "data < 18446744073709551616" and "covers m bc" and "sizeof_StorageType T = 8" and "T \<noteq> Bool"
    and "\<And>d bc. d < 18446744073709551616 \<Longrightarrow> covers m bc \<Longrightarrow>
      verdict bc (Run m d (element_validate_params p) bc)"
  shows "verdict bc (Array_Data_Validate T dbg gen m data (Some p) bc) \<and>
    (\<forall>bc'. Array_Data_Validate T dbg gen m data (Some p) bc = Inr (NONE, bc') \<longrightarrow> data \<noteq> 0 \<longrightarrow>
      array_claimed T m data bc bc')"
proof (rule array_verdict [OF assms(1-3)])
  have "claiming_validator m (\<lambda>d. Run m d (element_validate_params p))"
    using assms(6) by unfold_locales
  then show "verdict bc' (ValidateElements_pointer T Run m data p bc')"
    if "header_accepted T m data bc" "covers m bc'" for bc'
    using that assms(3-5)
    by (intro claiming_validator.pointer_elements_verdict) (auto intro: header_accepted_slots)
qed (simp add: sized_def assms(4))

lemma Array_Data_Validate_verdict:
  assumes "classes_ok m gen"
  shows "params_ok T p \<Longrightarrow> data < 18446744073709551616 \<Longrightarrow> covers m bc \<Longrightarrow>
    verdict bc (Array_Data_Validate T dbg gen m data (Some p) bc) \<and>
    (\<forall>bc'. Array_Data_Validate T dbg gen m data (Some p) bc = Inr (NONE, bc') \<longrightarrow> data \<noteq> 0 \<longrightarrow>
      array_claimed T m data bc bc')"
proof (induction T arbitrary: p data bc)
  case HandleType
  then show ?case
    by (intro array_verdict [where E = "ValidateElements_handle dbg m data"])
      (auto intro: handle_elements_verdict header_accepted_slots)
next
  case (UnionType c)
  with assms show ?case
    by (intro array_verdict [where E = "ValidateElements_union dbg gen c m data"])
      (auto simp: classes_ok_def intro: union_elements_verdict header_accepted_slots)
next
  case (StructPtr c)
  with assms show ?case
    by (intro pointer_array_verdict [where Run = "ValidateCaller_Run_struct dbg gen c"])
      (auto simp: classes_ok_def claiming_validator_def ValidateCaller_Run_struct_def)
next
  case (ArrayPtr T)
  then show ?case
    by (intro pointer_array_verdict [where Run = "Array_Data_Validate T dbg gen"])
      (auto split: option.splits)
next
  case (MapPtr K V)
  from MapPtr.prems obtain q where q: "element_validate_params p = Some q" "params_ok V q"
    "params_ok K (MapKeyValidateParamsFactory_Get K)"
    by (auto split: option.splits)
  have hdr: "array_claimed T m d bc bc' \<Longrightarrow> covers m bc \<Longrightarrow> mapped m d 8" for T d bc bc'
    by (auto simp: array_claimed_def intro: header_accepted_mapped)
  have keys: "mapped m d 8" if "d < 18446744073709551616" "covers m bc" "d \<noteq> 0"
    "Array_Data_Validate K dbg gen m d (Some (MapKeyValidateParamsFactory_Get K)) bc = Inr (NONE, bc')"
    for d bc bc'
    using MapPtr.IH(1) [OF q(3) that(1,2)] that hdr by blast
  have vals: "mapped m d 8" if "d < 18446744073709551616" "covers m bc" "d \<noteq> 0"
    "Array_Data_Validate V dbg gen m d (Some q) bc = Inr (NONE, bc')" for d bc bc'
    using MapPtr.IH(2) [OF q(2) that(1,2)] that hdr by blast
  show ?case
    using MapPtr.prems(2,3) MapPtr.IH(1) [OF q(3)] MapPtr.IH(2) [OF q(2)] keys vals q(1)
    by (intro pointer_array_verdict [where Run = "Map_Data_Validate K (Array_Data_Validate K dbg gen)
          (Array_Data_Validate V dbg gen)"] Map_Data_Validate_verdict) auto
qed (rule array_verdict [where E = "ValidateElements_primitive dbg"];
    simp add: ValidateElements_primitive_def)+

text \<open>Strings need no generated class.\<close>

interpretation string_data: claiming_validator m
  "\<lambda>data. Array_Data_Validate (Primitive 1) dbg gen m data (Some (ArrayValidateParams 0 False None))"
  for m dbg gen
  by unfold_locales
    (rule array_verdict [where E = "ValidateElements_primitive dbg", THEN conjunct1],
      simp_all add: ValidateElements_primitive_def)

section \<open>Properties\<close>

text \<open>
  Claim C17. \<^verbatim>\<open>Array_Data<T>::Validate\<close> is safe on any message bytes, for every array type \<^verbatim>\<open>T\<close> (nested arrays and
  maps included): it returns a verdict without touching memory outside the message, and if it accepts,
  the array is aligned, lies inside what the \<^verbatim>\<open>BoundsChecker\<close> had not granted yet, is granted now,
  and, unless the elements are bits, every element \<^verbatim>\<open>at\<close> returns lies inside the array.
\<close>

theorem Array_Data_Validate_safe:
  assumes "covers m bc" and "data < 18446744073709551616" and "params_ok T p" and "classes_ok m gen"
  shows "\<exists>r bc'. Array_Data_Validate T dbg gen m data (Some p) bc = Inr (r, bc') \<and>
    (r = NONE \<and> data \<noteq> 0 \<longrightarrow>
       8 dvd data \<and> unat (data_begin bc) \<le> data \<and>
       data + unat (peek32 m data) \<le> unat (data_begin bc') \<and>
       data + unat (peek32 m data) \<le> unat (data_end bc) \<and>
       (T \<noteq> Bool \<longrightarrow> (\<forall>i < unat (peek32 m (data + 4)). \<exists>a. Array_Data_at dbg T m data i = Inr a \<and>
          data + 8 \<le> a \<and> a + sizeof_StorageType T \<le> data + unat (peek32 m data))))"
proof -
  from Array_Data_Validate_verdict [OF assms(4,3,2,1), of dbg] obtain r bc' where
    v: "Array_Data_Validate T dbg gen m data (Some p) bc = Inr (r, bc')"
    and claimed: "r = NONE \<Longrightarrow> data \<noteq> 0 \<Longrightarrow> array_claimed T m data bc bc'"
    by (auto simp: verdict_def)
  have "8 dvd data \<and> unat (data_begin bc) \<le> data \<and>
      data + unat (peek32 m data) \<le> unat (data_begin bc') \<and>
      data + unat (peek32 m data) \<le> unat (data_end bc) \<and>
      (T \<noteq> Bool \<longrightarrow> (\<forall>i < unat (peek32 m (data + 4)). \<exists>a. Array_Data_at dbg T m data i = Inr a \<and>
         data + 8 \<le> a \<and> a + sizeof_StorageType T \<le> data + unat (peek32 m data)))"
    if "r = NONE" "data \<noteq> 0"
  proof -
    let ?s = "sizeof_StorageType T" and ?n = "unat (peek32 m (data + 4))"
    from claimed that have h: "header_accepted T m data bc"
      and adv: "advances (bc\<lparr>data_begin := of_nat (data + unat (peek32 m data))\<rparr>) bc'"
      by (simp_all add: array_claimed_def)
    then have "unat (of_nat (data + unat (peek32 m data)) :: u64) = data + unat (peek32 m data)"
      by (intro unat_of_nat_le_u64 [of _ "data_end bc"]) (simp add: header_accepted_def)
    with adv have "data + unat (peek32 m data) \<le> unat (data_begin bc')"
      by (simp add: advances_def word_le_nat_alt del: of_nat_add)
    moreover have "?s * i + ?s \<le> ?s * ?n" if "i < ?n" for i
      using that mult_le_mono2 [of "Suc i" ?n ?s] by simp
    then have "\<exists>a. Array_Data_at dbg T m data i = Inr a \<and>
        data + 8 \<le> a \<and> a + ?s \<le> data + unat (peek32 m data)" if "i < ?n" "T \<noteq> Bool" for i
      using that h header_accepted_mapped [OF h assms(1)] mapped_sub [of m data 8 "data + 4" 4]
      by (fastforce simp: Array_Data_at_def array_num_elements_def load32_eq ToRef_def
          array_storage_def header_accepted_def)
    ultimately show ?thesis using h by (simp add: header_accepted_def)
  qed
  with v show ?thesis by blast
qed

text \<open>A struct class without fields, a union class that accepts whatever fits its layout, and an
  array of two strings of which the second is null.\<close>

definition sample_classes :: generated_classes where
  "sample_classes =
     \<lparr>Struct_Validate = (\<lambda>c. ValidateStructHeaderAndClaimMemory),
      Union_Validate = (\<lambda>c m e bc inlined. Inr (NONE, bc)),
      Union_is_null = (\<lambda>c m e. bindR (union_size m e) (\<lambda>s. Inr (s = 0))),
      Struct_Encode = (\<lambda>c data. Inr), Struct_Decode = (\<lambda>c data. Inr),
      Union_Encode = (\<lambda>c data. Inr), Union_Decode = (\<lambda>c data. Inr)\<rparr>"

lemma sample_classes_ok: "classes_ok m sample_classes"
  using struct_header.claiming_validator_axioms [of m]
  by (auto simp: classes_ok_def sample_classes_def union_size_def load32_eq mapped_iff_range)

definition string_array :: "u8 list" where
  "string_array = [24, 0, 0, 0, 2, 0, 0, 0,   16, 0, 0, 0, 0, 0, 0, 0,   0, 0, 0, 0, 0, 0, 0, 0,
                   11, 0, 0, 0, 3, 0, 0, 0,   97, 98, 99, 0, 0, 0, 0, 0]"

definition string_array_params :: ArrayValidateParams where
  "string_array_params = ArrayValidateParams 0 True (Some (ArrayValidateParams 0 False None))"

definition sample_checker :: BoundsChecker where
  "sample_checker = \<lparr>data_begin = 64, data_end = 104, handle_begin = 0, handle_end = 0\<rparr>"

lemma sample_checker_covers: "length bs = 40 \<Longrightarrow> covers (mem_of 64 bs) sample_checker"
  by (simp add: covers_def sample_checker_def mem_of_def)

theorem Array_Data_Validate_safe_witness:
  "Array_Data_Validate (ArrayPtr (Primitive 1)) True sample_classes (mem_of 64 string_array) 64
     (Some string_array_params) sample_checker = Inr (NONE, sample_checker\<lparr>data_begin := 99\<rparr>) \<and>
   (\<exists>a. Array_Data_at True (ArrayPtr (Primitive 1)) (mem_of 64 string_array) 64 1 = Inr a \<and>
     72 \<le> a \<and> a + 8 \<le> 64 + 24)"
proof -
  let ?T = "ArrayPtr (Primitive 1)" and ?m = "mem_of 64 string_array"
  have v: "Array_Data_Validate ?T True sample_classes ?m 64 (Some string_array_params) sample_checker =
      Inr (NONE, sample_checker\<lparr>data_begin := 99\<rparr>)"
    by code_simp
  have "peek32 ?m 64 = 24" "peek32 ?m 68 = 2" by code_simp+
  moreover have "covers ?m sample_checker"
    by (rule sample_checker_covers) (simp add: string_array_def)
  moreover have "params_ok ?T string_array_params" by (simp add: string_array_params_def)
  ultimately show ?thesis
    using Array_Data_Validate_safe [of ?m sample_checker 64 ?T string_array_params sample_classes True]
      sample_classes_ok [of ?m] v
    by (auto simp del: Array_Data_Validate.simps)
qed

end
