(* ===== verification/Cpp_BoolArray.thy ===== *)
theory Cpp_BoolArray
  imports Cpp_ArraySafety
begin

text \<open>
  Arrays of bool in the C++ bindings, one bit per element: reading and writing through \<^verbatim>\<open>BitRef\<close>.
\<close>

section \<open>Bits\<close>

lemma load8_eq: "load8 m a = (if m a = None then Inl BadAccess else Inr (the (m a)))"
  by (auto simp: load8_def split: option.splits)

text \<open>The element \<open>i\<close> of a bool array as a value: the specification of \<^verbatim>\<open>ToConstRef\<close>.\<close>

definition bool_element :: "mem \<Rightarrow> addr \<Rightarrow> nat \<Rightarrow> bool" where
  "bool_element m data i \<longleftrightarrow> bit (the (m (data + 8 + i div 8))) (i mod 8)"

definition bits_mapped :: "mem \<Rightarrow> addr \<Rightarrow> nat \<Rightarrow> bool" where
  "bits_mapped m data n \<longleftrightarrow> mapped m data 8 \<and> (\<forall>i < n. m (data + 8 + i div 8) \<noteq> None)"

lemma BitRef_set_eq:
  assumes "m (data + 8 + i div 8) \<noteq> None"
  shows "\<exists>m'. BitRef_set m (Bool_ToRef (array_storage data) i) v = Inr m' \<and>
    dom m' = dom m \<and> (\<forall>x. x \<noteq> data + 8 + i div 8 \<longrightarrow> m' x = m x) \<and>
    (\<forall>k. bit (the (m' (data + 8 + i div 8))) k \<longleftrightarrow>
       (if k = i mod 8 then v else bit (the (m (data + 8 + i div 8))) k))"
proof -
  let ?a = "data + 8 + i div 8"
  obtain b where b: "m ?a = Some b" using assms by blast
  have "i mod 8 < 8" by simp
  then have bits: "bit (if v then b OR push_bit (i mod 8) 1 else b AND NOT (push_bit (i mod 8) 1)) k \<longleftrightarrow>
      (if k = i mod 8 then v else bit b k)" for k
    using bit_imp_le_length [of b k]
    by (auto simp: bit_or_iff bit_and_iff bit_not_iff bit_exp_iff)
  show ?thesis
    by (rule exI [of _ "m(?a \<mapsto> if v then b OR push_bit (i mod 8) 1 else b AND NOT (push_bit (i mod 8) 1))"])
      (use b bits in \<open>auto simp: BitRef_set_def Bool_ToRef_def array_storage_def load8_eq\<close>)
qed

section \<open>Properties\<close>

text \<open>
  Claim C21. In an array of bool whose bytes are mapped, writing element \<open>i\<close> through the reference \<^verbatim>\<open>at(i)\<close>
  returns and changes that element only: reading element \<open>j\<close> afterwards gives the value written if
  \<open>j = i\<close>, and what it gave before if not. Neither the header nor the mapped range changes.
\<close>

theorem Bool_at_update:
  assumes "bits_mapped m data (unat (peek32 m (data + 4)))"
    and "i < unat (peek32 m (data + 4))" and "j < unat (peek32 m (data + 4))"
  shows "\<exists>r m'. Bool_at dbg m data i = Inr r \<and> BitRef_set m r v = Inr m' \<and>
    Bool_at_const dbg m' data j = Inr (if j = i then v else bool_element m data j) \<and>
    BitRef_get m' (Bool_ToRef (array_storage data) j) = Inr (if j = i then v else bool_element m data j) \<and>
    dom m' = dom m \<and> peek m' data 8 = peek m data 8"
proof -
  let ?n = "peek32 m (data + 4)"
  from assms(1) have hdr: "mapped m data 8" by (simp add: bits_mapped_def)
  then have n: "array_num_elements m data = Inr ?n"
    using mapped_sub [OF hdr, of "data + 4" 4] by (simp add: array_num_elements_def load32_eq)
  from assms(1,2,3) have mi: "m (data + 8 + i div 8) \<noteq> None" and mj: "m (data + 8 + j div 8) \<noteq> None"
    by (simp_all add: bits_mapped_def)
  from BitRef_set_eq [of m data i v] mi obtain m' where
    set: "BitRef_set m (Bool_ToRef (array_storage data) i) v = Inr m'" and d: "dom m' = dom m"
    and other: "\<And>x. x \<noteq> data + 8 + i div 8 \<Longrightarrow> m' x = m x"
    and bits: "\<And>k. bit (the (m' (data + 8 + i div 8))) k \<longleftrightarrow>
       (if k = i mod 8 then v else bit (the (m (data + 8 + i div 8))) k)"
    by blast
  have same: "j = i \<longleftrightarrow> j div 8 = i div 8 \<and> j mod 8 = i mod 8"
    by (metis div_mult_mod_eq)
  have "bit (the (m' (data + 8 + j div 8))) (j mod 8) \<longleftrightarrow> (if j = i then v else bool_element m data j)"
    using bits [of "j mod 8"] other [of "data + 8 + j div 8"]
    by (cases "j div 8 = i div 8") (auto simp: same bool_element_def)
  moreover have ag: "agree m' m data 8" using other by (auto simp: agree_def)
  moreover have "peek32 m' (data + 4) = ?n"
    by (rule agree_peek32) (rule agree_sub [OF ag], simp_all)
  moreover have "mapped m' (data + 4) 4"
    using mapped_sub [OF hdr, of "data + 4" 4] mapped_dom_cong [OF d] by simp
  moreover have "m' (data + 8 + j div 8) \<noteq> None" using mj d by (metis domIff)
  ultimately show ?thesis
    using set n assms(2,3) d agree_peek [OF ag]
    by (auto simp: Bool_at_def Bool_at_const_def BitRef_get_def Bool_ToRef_def array_storage_def
        array_num_elements_def load32_eq load8_eq and_exp_eq_0_iff_not_bit)
qed

definition bool_array :: "u8 list" where
  "bool_array = [10, 0, 0, 0, 12, 0, 0, 0,   5, 3, 0, 0, 0, 0, 0, 0]"

theorem Bool_at_update_witness:
  "\<exists>r m'. Bool_at True (mem_of 64 bool_array) 64 8 = Inr r \<and>
     BitRef_set (mem_of 64 bool_array) r False = Inr m' \<and>
     Bool_at_const True m' 64 9 = Inr True"
proof -
  let ?m = "mem_of 64 bool_array"
  have n: "peek32 ?m 68 = 12" by code_simp
  have "mapped ?m 64 8" by (simp add: mapped_mem_of bool_array_def)
  moreover have "?m (64 + 8 + i div 8) \<noteq> None" if "i < 12" for i
    using that by (auto simp: mem_of_def bool_array_def)
  ultimately have "bits_mapped ?m 64 (unat (peek32 ?m (64 + 4)))"
    by (simp add: bits_mapped_def n)
  moreover have "bool_element ?m 64 9" by code_simp
  ultimately show ?thesis
    using Bool_at_update [of ?m 64 8 9 True False] n by auto
qed

end
