(* ===== verification/Cpp_Interop.thy ===== *)
theory Cpp_Interop
  imports Cpp_ArraySafety Mojom_Validation
begin

text \<open>
  The two validators side by side. A message may be written by a program that uses one library and
  read by a program that uses the other, so both have to accept the same bytes. For arrays of
  numbers and handles, nested to any depth, they do: the proof is a simulation between the
  validation context of the C library and the \<^verbatim>\<open>BoundsChecker\<close> of the C++ library. For arrays of bool
  and arrays of interfaces they do not; the differences are stated as theorems.
\<close>

section \<open>One type, two descriptions\<close>

definition same_header ::
  "tenv \<Rightarrow> descref \<Rightarrow> array_type \<Rightarrow> ArrayValidateParams \<Rightarrow> MojomTypeDescriptorType \<Rightarrow> bool"
where
  "same_header env r T p t \<longleftrightarrow> r \<noteq> 0 \<and>
     (case env r of
        Some (DescArray d) \<Rightarrow>
          ad_elem_type d = t \<and> ad_num_elements d = expected_num_elements p \<and>
          ad_nullable d = element_is_nullable p \<and>
          unat (ad_elem_num_bits d) = 8 * sizeof_StorageType T
      | _ \<Rightarrow> False)"

primrec same_array :: "array_type \<Rightarrow> tenv \<Rightarrow> descref \<Rightarrow> ArrayValidateParams \<Rightarrow> bool" where
  "same_array (Primitive n) env r p \<longleftrightarrow> same_header env r (Primitive n) p TYPE_POD \<and>
     0 < n \<and> n \<le> 16 \<and> \<not> element_is_nullable p \<and> element_validate_params p = None"
| "same_array HandleType env r p \<longleftrightarrow> same_header env r HandleType p TYPE_HANDLE \<and>
     element_validate_params p = None"
| "same_array (ArrayPtr T) env r p \<longleftrightarrow> same_header env r (ArrayPtr T) p TYPE_ARRAY_PTR \<and>
     (case (element_validate_params p, env r) of
        (Some q, Some (DescArray d)) \<Rightarrow> same_array T env (ad_elem_descriptor d) q
      | _ \<Rightarrow> False)"
| "same_array Bool env r p \<longleftrightarrow> False"
| "same_array InterfaceType env r p \<longleftrightarrow> False"
| "same_array (StructPtr c) env r p \<longleftrightarrow> False"
| "same_array (MapPtr K V) env r p \<longleftrightarrow> False"
| "same_array (UnionType c) env r p \<longleftrightarrow> False"

primrec array_depth :: "array_type \<Rightarrow> nat" where
  "array_depth (Primitive n) = 0"
| "array_depth HandleType = 1"
| "array_depth (ArrayPtr T) = Suc (array_depth T)"
| "array_depth Bool = 0"
| "array_depth InterfaceType = 0"
| "array_depth (StructPtr c) = 0"
| "array_depth (MapPtr K V) = 0"
| "array_depth (UnionType c) = 0"

section \<open>The simulation\<close>

text \<open>The same range of the message and the same handles are left in both states.\<close>

definition same_state ::
  "mem \<Rightarrow> nat \<Rightarrow> u32 \<Rightarrow> MojomValidationContext \<Rightarrow> BoundsChecker \<Rightarrow> bool"
where
  "same_state m e nh ctx bc \<longleftrightarrow>
     next_pointer ctx = unat (data_begin bc) \<and> next_handle_index ctx = handle_begin bc \<and>
     unat (data_end bc) = e \<and> handle_end bc = nh \<and> covers m bc"

text \<open>Both validators return, both accept or both refuse, and after accepting the states agree.\<close>

definition same_verdict ::
  "mem \<Rightarrow> nat \<Rightarrow> u32 \<Rightarrow> validation \<Rightarrow> cpp_validation \<Rightarrow> bool"
where
  "same_verdict m e nh v w \<longleftrightarrow>
     (\<exists>r ctx s bc. v = Inr (r, ctx) \<and> w = Inr (s, bc) \<and> (r = VALIDATION_ERROR_NONE \<longleftrightarrow> s = NONE) \<and>
        (s = NONE \<longrightarrow> same_state m e nh ctx bc))"

lemma same_verdict_accept:
  "same_state m e nh ctx bc \<Longrightarrow> same_verdict m e nh (Inr (VALIDATION_ERROR_NONE, ctx)) (Inr (NONE, bc))"
  by (simp add: same_verdict_def)

lemma same_verdict_refuse:
  "r \<noteq> VALIDATION_ERROR_NONE \<Longrightarrow> s \<noteq> NONE \<Longrightarrow> same_verdict m e nh (Inr (r, ctx)) (Inr (s, bc))"
  by (simp add: same_verdict_def)

lemma same_verdict_loops:
  assumes "mapped m (a + 4) 4" and "ad_elem_type d \<noteq> TYPE_POD" and "ad_elem_type d \<noteq> TYPE_UNION_PTR"
    and step: "\<And>i ctx bc. i < unat (peek32 m (a + 4)) \<Longrightarrow> same_state m e nh ctx bc \<Longrightarrow>
      same_verdict m e nh
        (disp env m (ad_elem_type d) (ad_elem_descriptor d) (ad_nullable d)
          (a + 8 + elem_size (ad_elem_type d) * i)
          (sz - of_nat (8 + elem_size (ad_elem_type d) * i)) nh ctx) (f i bc)"
    and "same_state m e nh ctx bc"
  shows "same_verdict m e nh (array_validate_loop disp env m d a sz nh i ctx) (validate_loop m a f i bc)"
  using assms(5)
proof (induction "unat (peek32 m (a + 4)) - i" arbitrary: i ctx bc)
  case 0
  then show ?case
    using assms(1)
    by (simp add: array_validate_loop.simps [of _ _ _ _ _ _ _ i] validate_loop.simps [of _ _ _ i]
        array_num_elements_def load32_eq same_verdict_accept)
next
  case (Suc k)
  then have i: "i < unat (peek32 m (a + 4))" by simp
  from step [OF i Suc.prems] obtain r c s b where
    v: "disp env m (ad_elem_type d) (ad_elem_descriptor d) (ad_nullable d)
          (a + 8 + elem_size (ad_elem_type d) * i)
          (sz - of_nat (8 + elem_size (ad_elem_type d) * i)) nh ctx = Inr (r, c)" "f i bc = Inr (s, b)"
    and rs: "r = VALIDATION_ERROR_NONE \<longleftrightarrow> s = NONE" "s = NONE \<Longrightarrow> same_state m e nh c b"
    by (auto simp: same_verdict_def)
  have "same_verdict m e nh (array_validate_loop disp env m d a sz nh (Suc i) c)
      (validate_loop m a f (Suc i) b)" if "s = NONE"
    using Suc.hyps(1) [OF _ rs(2) [OF that], of "Suc i"] Suc.hyps(2) by simp
  with i v rs assms(1-3) show ?case
    by (cases "s = NONE")
      (simp_all add: array_validate_loop.simps [of _ _ _ _ _ _ _ i] validate_loop.simps [of _ _ _ i]
        array_num_elements_def load32_eq array_index_by_type_eq same_verdict_refuse add.assoc
        del: of_nat_add)
qed

section \<open>Headers\<close>

text \<open>The condition on a header both validators check.\<close>

definition array_header_ok :: "mem \<Rightarrow> nat \<Rightarrow> array_type \<Rightarrow> ArrayValidateParams \<Rightarrow> addr \<Rightarrow> bool" where
  "array_header_ok m e T p a \<longleftrightarrow> a + 8 \<le> e \<and> a + unat (peek32 m a) \<le> e \<and>
     8 + sizeof_StorageType T * unat (peek32 m (a + 4)) \<le> unat (peek32 m a) \<and>
     (expected_num_elements p = 0 \<or> peek32 m (a + 4) = expected_num_elements p)"

lemma Array_Data_Validate_with_header:
  assumes "covers m bc" and "0 < a" and "8 dvd a" and "unat (data_begin bc) \<le> a"
    and "a \<le> unat (data_end bc)" and "sized T" and "T \<noteq> Bool"
  shows "array_header_ok m (unat (data_end bc)) T p a \<Longrightarrow>
      Array_Data_Validate_with dbg T E m a (Some p) bc =
        E p (bc\<lparr>data_begin := of_nat (a + unat (peek32 m a))\<rparr>)"
    and "\<not> array_header_ok m (unat (data_end bc)) T p a \<Longrightarrow>
      \<exists>s. s \<noteq> NONE \<and> Array_Data_Validate_with dbg T E m a (Some p) bc = Inr (s, bc)"
proof -
  let ?e = "unat (data_end bc)"
  have a: "a < 18446744073709551616" using assms(5) unat_u64_bound [of "data_end bc"] by simp
  note range = IsValidRange_iff [OF a, of bc 8]
  have hdr: "mapped m a 4" "mapped m (a + 4) 4" if "a + 8 \<le> ?e"
    using that assms(4) by (auto intro: covers_mapped [OF assms(1)])
  note defs = Array_Data_Validate_with_def IsValidRange_def layout_defs load32_eq
    ClaimMemory_cases [OF a] Let_def
  {
    assume ok: "array_header_ok m ?e T p a"
    then have k: "peek32 m (a + 4) \<le> kMaxNumElements T"
      using le_kMaxNumElements [OF assms(7,6)] unat_u32_bound [of "peek32 m a"]
      by (simp add: array_header_ok_def)
    then obtain n where "GetStorageSize dbg T (peek32 m (a + 4)) = Inr n"
      "unat n = 8 + sizeof_StorageType T * unat (peek32 m (a + 4))"
      using GetStorageSize_eq [OF assms(7,6)] by blast
    with ok k hdr range assms show "Array_Data_Validate_with dbg T E m a (Some p) bc =
        E p (bc\<lparr>data_begin := of_nat (a + unat (peek32 m a))\<rparr>)"
      by (auto simp: defs array_header_ok_def word_less_nat_alt word_le_nat_alt not_le simp del: of_nat_add)
  }
  assume bad: "\<not> array_header_ok m ?e T p a"
  show "\<exists>s. s \<noteq> NONE \<and> Array_Data_Validate_with dbg T E m a (Some p) bc = Inr (s, bc)"
  proof (cases "a + 8 \<le> ?e \<and> peek32 m (a + 4) \<le> kMaxNumElements T")
    case True
    then obtain n where "GetStorageSize dbg T (peek32 m (a + 4)) = Inr n"
      "unat n = 8 + sizeof_StorageType T * unat (peek32 m (a + 4))"
      using GetStorageSize_eq [OF assms(7,6)] by blast
    with True bad hdr range assms show ?thesis
      by (auto simp: defs array_header_ok_def word_less_nat_alt not_le not_less)
  next
    case False
    with hdr range assms show ?thesis by (auto simp: defs not_le)
  qed
qed

lemma bits_to_bytes_storage:
  assumes "unat bits = 8 * sizeof_StorageType T" and "sized T"
  shows "(ucast nb :: u64) < 8 + bits_to_bytes (ucast (bits :: u32) * ucast (num :: u32)) \<longleftrightarrow>
    unat (nb :: u32) < 8 + sizeof_StorageType T * unat num"
proof -
  have s: "sizeof_StorageType T \<le> 16" using assms(2) by (simp add: sized_def)
  then have "sizeof_StorageType T * unat num \<le> 16 * 4294967295"
    using unat_u32_bound [of num] by (intro mult_le_mono) simp_all
  with bits_to_bytes_elems [OF assms(1) s, of num] show ?thesis
    by (simp add: word_less_nat_alt unat_plus_if_size word_size)
qed

lemma validate_array_header_iff:
  assumes "same_header env r T p t" and "env r = Some (DescArray d)" and "sized T"
    and "mapped m a (unat sz)"
  shows "\<exists>q. validate_array_header d m a sz = Inr q \<and>
    (q = VALIDATION_ERROR_NONE \<longleftrightarrow> array_header_ok m (a + unat sz) T p a)"
proof (cases "8 \<le> unat sz")
  case True
  then have "mapped m a 4" "mapped m (a + 4) 4"
    using mapped_sub [OF assms(4)] by simp_all
  moreover from assms have d: "unat (ad_elem_num_bits d) = 8 * sizeof_StorageType T"
    "ad_num_elements d = expected_num_elements p"
    by (simp_all add: same_header_def)
  moreover note bits_to_bytes_storage [OF d(1) assms(3), of "peek32 m a" "peek32 m (a + 4)"]
  ultimately show ?thesis
    using True
    by (auto simp: validate_array_header_def layout_defs load32_eq array_header_ok_def
        word_less_nat_alt [where 'a = 32])
next
  case False
  then show ?thesis by (simp add: validate_array_header_def array_header_ok_def)
qed

section \<open>Arrays\<close>

lemma MojomArray_Validate_header:
  assumes "same_header env r T p t" and "env r = Some (DescArray d)" and "sized T"
    and "mapped m a (unat sz)" and "0 < a"
  shows "array_header_ok m (a + unat sz) T p a \<Longrightarrow> MojomArray_Validate disp env m r a sz nh ctx =
      (let ctx' = ctx\<lparr>next_pointer := a + unat (peek32 m a)\<rparr> in
       if t = TYPE_POD then Inr (VALIDATION_ERROR_NONE, ctx')
       else array_validate_loop disp env m d a sz nh 0 ctx')"
    and "\<not> array_header_ok m (a + unat sz) T p a \<Longrightarrow>
      \<exists>q. q \<noteq> VALIDATION_ERROR_NONE \<and> MojomArray_Validate disp env m r a sz nh ctx = Inr (q, ctx)"
proof -
  from validate_array_header_iff [OF assms(1-4)] obtain q where
    q: "validate_array_header d m a sz = Inr q"
    "q = VALIDATION_ERROR_NONE \<longleftrightarrow> array_header_ok m (a + unat sz) T p a" by blast
  from assms(1,2) have d: "r \<noteq> 0" "ad_elem_type d = t" by (simp_all add: same_header_def)
  {
    assume ok: "array_header_ok m (a + unat sz) T p a"
    then have "mapped m a 4" using mapped_sub [OF assms(4), of a 4] by (simp add: array_header_ok_def)
    with ok q d assms(2,5) show "MojomArray_Validate disp env m r a sz nh ctx =
        (let ctx' = ctx\<lparr>next_pointer := a + unat (peek32 m a)\<rparr> in
         if t = TYPE_POD then Inr (VALIDATION_ERROR_NONE, ctx')
         else array_validate_loop disp env m d a sz nh 0 ctx')"
      by (simp add: MojomArray_Validate_def array_desc_def array_num_bytes_def load32_eq)
  }
  assume "\<not> array_header_ok m (a + unat sz) T p a"
  with q d assms(2,5) show
    "\<exists>q. q \<noteq> VALIDATION_ERROR_NONE \<and> MojomArray_Validate disp env m r a sz nh ctx = Inr (q, ctx)"
    by (simp add: MojomArray_Validate_def array_desc_def)
qed

text \<open>The simulation of one array, given that of its elements.\<close>

lemma same_verdict_array:
  assumes "same_header env r T p t" and "env r = Some (DescArray d)" and "sized T" and "T \<noteq> Bool"
    and "covers m bc" and "0 < a" and "8 dvd a" and "unat (data_begin bc) \<le> a"
    and "a + unat sz = e" and "unat (data_end bc) = e" and "handle_end bc = nh"
    and "next_handle_index ctx = handle_begin bc"
    and cpp: "Array_Data_Validate T dbg gen m a = Array_Data_Validate_with dbg T E m a"
    and elements: "\<And>ctx' bc'. array_header_ok m e T p a \<Longrightarrow> slots_mapped T m a \<Longrightarrow>
      same_state m e nh ctx' bc' \<Longrightarrow>
      same_verdict m e nh (if t = TYPE_POD then Inr (VALIDATION_ERROR_NONE, ctx')
        else array_validate_loop disp env m d a sz nh 0 ctx') (E p bc')"
  shows "same_verdict m e nh (MojomArray_Validate disp env m r a sz nh ctx)
    (Array_Data_Validate T dbg gen m a (Some p) bc)"
proof -
  have m: "mapped m a (unat sz)" using assms by (intro covers_mapped [OF assms(5)]) simp_all
  have e: "a \<le> unat (data_end bc)" using assms by simp
  note c = MojomArray_Validate_header [OF assms(1-3) m assms(6), unfolded assms(9)]
  note cc = Array_Data_Validate_with_header [OF assms(5-8) e assms(3,4), unfolded assms(10)]
  let ?ctx = "ctx\<lparr>next_pointer := a + unat (peek32 m a)\<rparr>"
    and ?bc = "bc\<lparr>data_begin := of_nat (a + unat (peek32 m a))\<rparr>"
  show ?thesis
  proof (cases "array_header_ok m e T p a")
    case False
    with c(2) cc(2) cpp show ?thesis by (metis same_verdict_refuse)
  next
    case True
    then have le: "a + unat (peek32 m a) \<le> unat (data_end bc)"
      and "header_accepted T m a bc"
      using assms by (auto simp: array_header_ok_def header_accepted_def)
    then have slots: "slots_mapped T m a"
      using assms(4,5) by (blast intro: header_accepted_slots)
    have "same_state m e nh ?ctx ?bc"
      using unat_of_nat_le_u64 [OF le] assms(5,8,10-12)
      by (auto simp: same_state_def covers_def simp del: of_nat_add)
    from elements [OF True slots this] show ?thesis
      by (simp add: cpp cc(1) [OF True] c(1) [OF True] Let_def)
  qed
qed

section \<open>Elements\<close>

lemma same_verdict_handle:
  assumes "same_state m e nh ctx bc" and "mapped m slot 4" and "0 < slot"
  shows "same_verdict m e nh (MojomType_DispatchValidate (Suc n) env m TYPE_HANDLE r nl slot sz nh ctx)
    (bindR (load32 m slot) (\<lambda>value.
       if \<not> nl \<and> value = kEncodedHandleInvalid then Inr (UNEXPECTED_INVALID_HANDLE, bc)
       else case ClaimHandle bc value of
         (claimed, bc') \<Rightarrow> Inr (if claimed then NONE else ILLEGAL_HANDLE, bc')))"
  using assms
  by (auto simp: load32_eq validate_handle_def ClaimHandle_cases same_verdict_def same_state_def
      covers_def not_le not_less)

text \<open>A target that is not after the claimed part of the message or has no room for a header is
  refused by the C++ validator.\<close>

lemma Array_Data_Validate_with_refuse:
  assumes "a < 18446744073709551616" and "covers m bc" and "sized T" and "0 < a"
    and "\<not> (8 dvd a \<and> unat (data_begin bc) \<le> a \<and> a \<le> unat (data_end bc))"
  shows "\<exists>s. s \<noteq> NONE \<and> Array_Data_Validate_with dbg T E m a (Some p) bc = Inr (s, bc)"
  using Array_Data_Validate_with_cases [OF assms(1-3), of dbg E p] assms(4,5)
  by (auto simp: header_accepted_def)

lemma validate_pointer_cases:
  assumes "mapped m slot 8"
  shows "peek64 m slot = 0 \<Longrightarrow> validate_pointer m slot sz nl ctx =
      Inr (if nl then VALIDATION_ERROR_NONE else VALIDATION_UNEXPECTED_NULL_POINTER, ctx)"
    and "peek64 m slot \<noteq> 0 \<Longrightarrow> unat (peek64 m slot) \<le> unat sz \<Longrightarrow> 8 dvd unat (peek64 m slot) \<Longrightarrow>
      next_pointer ctx \<le> slot + unat (peek64 m slot) \<Longrightarrow> validate_pointer m slot sz nl ctx =
        Inr (VALIDATION_ERROR_NONE, ctx\<lparr>next_pointer := slot + unat (peek64 m slot)\<rparr>)"
    and "peek64 m slot \<noteq> 0 \<Longrightarrow> \<not> (unat (peek64 m slot) \<le> unat sz \<and> 8 dvd unat (peek64 m slot) \<and>
      next_pointer ctx \<le> slot + unat (peek64 m slot)) \<Longrightarrow>
      \<exists>r ctx'. r \<noteq> VALIDATION_ERROR_NONE \<and> validate_pointer m slot sz nl ctx = Inr (r, ctx')"
  using assms unat_u32_bound [of sz]
  by (auto simp: validate_pointer_def pointer_offset_def load64_eq Let_def word_nat and_7_iff_dvd
      unsigned_minus_1_eq_mask mask_eq_exp_minus_1 not_le not_less)

lemma same_verdict_pointer:
  assumes st: "same_state m e nh ctx bc" and slot: "mapped m slot 8" "0 < slot" "8 dvd slot"
    and e: "slot + unat sz = e" "e < 18446744073709551616"
    and T: "sized T" "Array_Data_Validate T dbg gen = (\<lambda>m a. Array_Data_Validate_with dbg T (E m a) m a)"
    and IH: "\<And>a sz ctx. 0 < a \<Longrightarrow> 8 dvd a \<Longrightarrow> unat (data_begin bc) \<le> a \<Longrightarrow> a + unat sz = e \<Longrightarrow>
      next_handle_index ctx = handle_begin bc \<Longrightarrow>
      same_verdict m e nh (MojomArray_Validate (MojomType_DispatchValidate n) env m r a sz nh ctx)
        (Array_Data_Validate T dbg gen m a (Some q) bc)"
  shows "same_verdict m e nh (MojomType_DispatchValidate (Suc n) env m TYPE_ARRAY_PTR r nl slot sz nh ctx)
    (bindR (load64 m slot) (\<lambda>offset.
       if \<not> nl \<and> offset = 0 then Inr (UNEXPECTED_NULL_POINTER, bc)
       else bindR (ValidateEncodedPointer m slot) (\<lambda>ok.
       if \<not> ok then Inr (ILLEGAL_POINTER, bc)
       else bindR (DecodePointerRaw m slot) (\<lambda>target.
         Array_Data_Validate T dbg gen m target (Some q) bc))))"
proof -
  let ?o = "unat (peek64 m slot)"
  have small: "slot < 18446744073709551616" using e by simp
  note cpp = ValidateEncodedPointer_target [OF slot(1) small] load64_eq slot(1)
  note c = Let_def pointer_offset_def load64_eq slot(1,2)
  have ctx: "next_pointer ctx = unat (data_begin bc)" "next_handle_index ctx = handle_begin bc"
    "unat (data_end bc) = e" "covers m bc"
    using st by (simp_all add: same_state_def)
  show ?thesis
  proof (cases "peek64 m slot = 0")
    case True
    have "Array_Data_Validate T dbg gen m 0 (Some q) bc = Inr (NONE, bc)"
      by (simp add: T(2) Array_Data_Validate_with_def)
    with True st small show ?thesis
      by (simp add: cpp c validate_pointer_cases(1) [OF slot(1)] same_verdict_def)
  next
    case nonzero: False
    show ?thesis
    proof (cases "?o \<le> unat sz \<and> 8 dvd ?o \<and> next_pointer ctx \<le> slot + ?o")
      case True
      then have sz: "slot + ?o + unat (size_minus_offset sz (peek64 m slot)) = e"
        using e(1) by (simp add: unat_size_minus_offset)
      have "same_verdict m e nh (MojomArray_Validate (MojomType_DispatchValidate n) env m r (slot + ?o)
          (size_minus_offset sz (peek64 m slot)) nh (ctx\<lparr>next_pointer := slot + ?o\<rparr>))
          (Array_Data_Validate T dbg gen m (slot + ?o) (Some q) bc)"
        using True slot ctx by (intro IH [OF _ _ _ sz]) simp_all
      moreover have "?o < 4294967296" "slot + ?o < 18446744073709551616"
        using True e unat_u32_bound [of sz] by simp_all
      ultimately show ?thesis
        using nonzero True by (simp add: cpp c validate_pointer_cases(2) [OF slot(1)])
    next
      case False
      then obtain x ctx' where x: "x \<noteq> VALIDATION_ERROR_NONE"
        "validate_pointer m slot sz nl ctx = Inr (x, ctx')"
        using validate_pointer_cases(3) [OF slot(1) nonzero] by blast
      have "\<not> (8 dvd slot + ?o \<and> unat (data_begin bc) \<le> slot + ?o \<and> slot + ?o \<le> unat (data_end bc))"
        using False slot(3) e ctx by (auto simp: dvd_add_right_iff)
      with Array_Data_Validate_with_refuse [OF _ ctx(4) T(1), of "slot + ?o" dbg _ q] slot(2)
      have "\<exists>s. s \<noteq> NONE \<and> Array_Data_Validate T dbg gen m (slot + ?o) (Some q) bc = Inr (s, bc)"
        if "slot + ?o < 18446744073709551616"
        using that by (simp add: T(2))
      with nonzero x show ?thesis
        by (auto simp: cpp c same_verdict_def)
    qed
  qed
qed

section \<open>Nested arrays\<close>

lemma Array_Data_Validate_form:
  "\<exists>E. Array_Data_Validate T dbg gen = (\<lambda>m a. Array_Data_Validate_with dbg T (E m a) m a)"
  by (cases T) (rule exI, intro ext, simp only: Array_Data_Validate.simps)+

lemma same_array_sized: "same_array T env r p \<Longrightarrow> sized T"
  by (cases T) simp_all

lemma same_headerE:
  assumes "same_header env r T p t"
  obtains d where "env r = Some (DescArray d)" "ad_elem_type d = t"
    "ad_nullable d = element_is_nullable p"
  using assms by (auto simp: same_header_def split: option.splits type_desc.splits)

lemma same_verdict_arrays:
  "same_array T env r p \<Longrightarrow> array_depth T \<le> n \<Longrightarrow> covers m bc \<Longrightarrow> 0 < a \<Longrightarrow> 8 dvd a \<Longrightarrow>
   unat (data_begin bc) \<le> a \<Longrightarrow> a + unat sz = e \<Longrightarrow> unat (data_end bc) = e \<Longrightarrow> handle_end bc = nh \<Longrightarrow>
   next_handle_index ctx = handle_begin bc \<Longrightarrow>
   same_verdict m e nh (MojomArray_Validate (MojomType_DispatchValidate n) env m r a sz nh ctx)
     (Array_Data_Validate T dbg gen m a (Some p) bc)"
proof (induction T arbitrary: r p n bc a sz ctx)
  case (Primitive k)
  then obtain d where d: "env r = Some (DescArray d)" and h: "same_header env r (Primitive k) p TYPE_POD"
    by (auto elim: same_headerE)
  from Primitive.prems show ?case
    by (intro same_verdict_array [OF h d, where E = "ValidateElements_primitive dbg"])
      (simp_all add: ValidateElements_primitive_def same_verdict_accept)
next
  case HandleType
  then obtain d where d: "env r = Some (DescArray d)" "ad_elem_type d = TYPE_HANDLE"
    "ad_nullable d = element_is_nullable p" and h: "same_header env r HandleType p TYPE_HANDLE"
    by (auto elim: same_headerE)
  from HandleType.prems obtain k where n: "n = Suc k" by (cases n) auto
  have "same_verdict m e nh (array_validate_loop (MojomType_DispatchValidate n) env m d a sz nh 0 ctx')
      (ValidateElements_handle dbg m a p bc')"
    if slots: "slots_mapped HandleType m a" and st: "same_state m e nh ctx' bc'" for ctx' bc'
    unfolding ValidateElements_handle_def
    using HandleType.prems slots_mappedD(3) [OF slots] d
    by (simp del: MojomType_DispatchValidate.simps)
      (rule same_verdict_loops [OF slots_mappedD(2) [OF slots] _ _ _ st],
        auto simp: n ToRef_def array_storage_def simp del: MojomType_DispatchValidate.simps
          intro!: same_verdict_handle)
  with HandleType.prems show ?case
    by (intro same_verdict_array [OF h d(1), where E = "ValidateElements_handle dbg m a"]) simp_all
next
  case (ArrayPtr T)
  then obtain d q where d: "env r = Some (DescArray d)" "ad_elem_type d = TYPE_ARRAY_PTR"
    "ad_nullable d = element_is_nullable p" and h: "same_header env r (ArrayPtr T) p TYPE_ARRAY_PTR"
    and q: "element_validate_params p = Some q" "same_array T env (ad_elem_descriptor d) q"
    by (auto elim!: same_headerE split: option.splits type_desc.splits)
  from ArrayPtr.prems obtain k where n: "n = Suc k" "array_depth T \<le> k" by (cases n) auto
  obtain E where E: "Array_Data_Validate T dbg gen = (\<lambda>m a. Array_Data_Validate_with dbg T (E m a) m a)"
    using Array_Data_Validate_form by blast
  have "same_verdict m e nh (array_validate_loop (MojomType_DispatchValidate n) env m d a sz nh 0 ctx')
      (ValidateElements_pointer (ArrayPtr T) (Array_Data_Validate T dbg gen) m a p bc')"
    if ok: "array_header_ok m e (ArrayPtr T) p a" and slots: "slots_mapped (ArrayPtr T) m a"
      and st: "same_state m e nh ctx' bc'" for ctx' bc'
    unfolding ValidateElements_pointer_def
  proof (rule same_verdict_loops [OF slots_mappedD(2) [OF slots] _ _ _ st], goal_cases)
    case (3 i c b)
    have i: "mapped m (a + 8 + 8 * i) 8"
      using slots_mappedD(3) [OF slots 3(1)] by (simp add: ToRef_def array_storage_def)
    have le: "8 + 8 * i \<le> unat sz"
      using ok 3(1) ArrayPtr.prems by (auto simp: array_header_ok_def)
    then have size: "a + 8 + 8 * i + unat (sz - of_nat (8 + 8 * i)) = e"
      using ArrayPtr.prems by (simp add: unat_minus_of_nat del: of_nat_add)
    have e: "e < 18446744073709551616" using ArrayPtr.prems unat_u64_bound [of "data_end bc"] by simp
    have b: "covers m b" "unat (data_end b) = e" "handle_end b = nh"
      using 3(2) by (simp_all add: same_state_def)
    have slot: "0 < a + 8 + 8 * i" "8 dvd a + 8 + 8 * i" using ArrayPtr.prems by simp_all
    have IH: "same_verdict m e nh (MojomArray_Validate (MojomType_DispatchValidate k) env m
        (ad_elem_descriptor d) a sz nh ctx) (Array_Data_Validate T dbg gen m a (Some q) b)"
      if "0 < a" "8 dvd a" "unat (data_begin b) \<le> a" "a + unat sz = e"
        "next_handle_index ctx = handle_begin b" for a sz ctx
      using that b by (intro ArrayPtr.IH [OF q(2) n(2)])
    from same_verdict_pointer [OF 3(2) i slot size e same_array_sized [OF q(2)] E IH, of "ad_nullable d"]
    show ?case
      unfolding n(1) q(1) d(2,3) ToRef_def array_storage_def Let_def sizeof_StorageType.simps
        elem_size.simps sizeofs cpp_sizeofs .
  qed (simp_all add: d)
  with ArrayPtr.prems show ?case
    by (intro same_verdict_array [OF h d(1), where E = "ValidateElements_pointer (ArrayPtr T)
          (Array_Data_Validate T dbg gen) m a"]) simp_all
qed simp_all

section \<open>Properties\<close>


definition handle_arrays_env :: tenv where
  "handle_arrays_env = (\<lambda>r.
     if r = 1 then Some (DescArray \<lparr>ad_elem_type = TYPE_ARRAY_PTR, ad_elem_descriptor = 2,
       ad_num_elements = 0, ad_elem_num_bits = 64, ad_nullable = True\<rparr>)
     else if r = 2 then Some (DescArray \<lparr>ad_elem_type = TYPE_HANDLE, ad_elem_descriptor = 0,
       ad_num_elements = 2, ad_elem_num_bits = 32, ad_nullable = False\<rparr>)
     else None)"

definition handle_arrays_params :: ArrayValidateParams where
  "handle_arrays_params = ArrayValidateParams 0 True (Some (ArrayValidateParams 2 False None))"

definition handle_arrays :: "u8 list" where
  "handle_arrays = [24, 0, 0, 0, 2, 0, 0, 0,   0, 0, 0, 0, 0, 0, 0, 0,   8, 0, 0, 0, 0, 0, 0, 0,
                    16, 0, 0, 0, 2, 0, 0, 0,   0, 0, 0, 0, 2, 0, 0, 0]"


text \<open>
  Claim C36. On arrays of bool the libraries differ: \<^verbatim>\<open>GetStorageSize\<close> wraps around in 32 bits, so an array
  header of eight bytes that announces \<open>2 ^ 32 - 1\<close> elements is accepted by the C++ validator, and reading
  the element at index 0 afterwards, which passes the check of \<^verbatim>\<open>at\<close>, leaves the message. The C validator
  refuses the same bytes.
\<close>

theorem bool_array_size_wraps:
  "\<exists>bs env bc. length bs = 8 \<and> covers (mem_of 64 bs) bc \<and> data_begin bc = 64 \<and> data_end bc = 72 \<and>
     Array_Data_Validate Bool True gen (mem_of 64 bs) 64 (Some (ArrayValidateParams 0 False None)) bc =
       Inr (NONE, bc\<lparr>data_begin := 72\<rparr>) \<and>
     Bool_at_const True (mem_of 64 bs) 64 0 = Inl BadAccess \<and>
     env 1 = Some (DescArray \<lparr>ad_elem_type = TYPE_POD, ad_elem_descriptor = 0, ad_num_elements = 0,
       ad_elem_num_bits = 1, ad_nullable = False\<rparr>) \<and>
     MojomArray_Validate (MojomType_DispatchValidate 1) env (mem_of 64 bs) 1 64 8 0 initial_context =
       Inr (VALIDATION_UNEXPECTED_ARRAY_HEADER, initial_context)"
proof (intro exI conjI)
  let ?bs = "[8, 0, 0, 0, 255, 255, 255, 255] :: u8 list"
  let ?bc = "\<lparr>data_begin = 64, data_end = 72, handle_begin = 0, handle_end = 0\<rparr> :: BoundsChecker"
  let ?d = "\<lparr>ad_elem_type = TYPE_POD, ad_elem_descriptor = 0, ad_num_elements = 0,
       ad_elem_num_bits = 1, ad_nullable = False\<rparr>"
  let ?env = "(\<lambda>r. if r = 1 then Some (DescArray ?d) else None) :: tenv"
  show "covers (mem_of 64 ?bs) ?bc" by (simp add: covers_def mem_of_def)
  show "Array_Data_Validate Bool True gen (mem_of 64 ?bs) 64 (Some (ArrayValidateParams 0 False None)) ?bc =
       Inr (NONE, ?bc\<lparr>data_begin := 72\<rparr>)"
    unfolding Array_Data_Validate.simps by code_simp
  have "peek32 (mem_of 64 ?bs) 68 = 0xFFFFFFFF" by code_simp
  then show "Bool_at_const True (mem_of 64 ?bs) 64 0 = Inl BadAccess"
    by (simp add: Bool_at_const_def array_num_elements_def load32_eq load8_def load_bytes_eq
        mapped_mem_of array_storage_def)
  show "MojomArray_Validate (MojomType_DispatchValidate 1) ?env (mem_of 64 ?bs) 1 64 8 0 initial_context =
       Inr (VALIDATION_UNEXPECTED_ARRAY_HEADER, initial_context)"
    by code_simp
qed simp_all

definition interface_env :: tenv where
  "interface_env = (\<lambda>r. if r = 1
     then Some (DescArray \<lparr>ad_elem_type = TYPE_INTERFACE, ad_elem_descriptor = 0, ad_num_elements = 0,
       ad_elem_num_bits = 64, ad_nullable = False\<rparr>) else None)"

definition interface_bytes :: "u8 list" where
  "interface_bytes = [16, 0, 0, 0, 1, 0, 0, 0,  7, 0, 0, 0, 0, 0, 0, 0]"

text \<open>
  Claim C37. On arrays of interfaces the libraries differ too: \<^verbatim>\<open>Array_Data<Interface_Data>\<close> is handled like an array
  of numbers. Its handle is not encoded (whatever value the sender holds goes into the message
  unchanged), and the C++ validator accepts an interface with a handle index the message does not
  have, where the C validator reports an illegal handle.
\<close>

theorem interface_array_handles_ignored:
  "\<exists>bc. covers (mem_of 64 interface_bytes) bc \<and> handle_end bc = 0 \<and>
     Array_Data_Validate InterfaceType True gen (mem_of 64 interface_bytes) 64
       (Some (ArrayValidateParams 0 False None)) bc = Inr (NONE, bc\<lparr>data_begin := 80\<rparr>) \<and>
     Array_Data_Encode InterfaceType True gen 64 (mem_of 64 interface_bytes, []) =
       Inr (mem_of 64 interface_bytes, []) \<and>
     peek32 (mem_of 64 interface_bytes) 72 = 7 \<and>
     MojomArray_Validate (MojomType_DispatchValidate 5) interface_env (mem_of 64 interface_bytes) 1 64 16 0
       initial_context = Inr (VALIDATION_ILLEGAL_HANDLE, initial_context\<lparr>next_pointer := 80\<rparr>)"
proof (intro exI conjI)
  let ?bc = "\<lparr>data_begin = 64, data_end = 80, handle_begin = 0, handle_end = 0\<rparr> :: BoundsChecker"
  show "covers (mem_of 64 interface_bytes) ?bc" by (simp add: covers_def mem_of_def interface_bytes_def)
  show "Array_Data_Validate InterfaceType True gen (mem_of 64 interface_bytes) 64
      (Some (ArrayValidateParams 0 False None)) ?bc = Inr (NONE, ?bc\<lparr>data_begin := 80\<rparr>)"
    unfolding Array_Data_Validate.simps by code_simp
  show "MojomArray_Validate (MojomType_DispatchValidate 5) interface_env (mem_of 64 interface_bytes) 1 64
      16 0 initial_context = Inr (VALIDATION_ILLEGAL_HANDLE, initial_context\<lparr>next_pointer := 80\<rparr>)"
    by code_simp
  show "peek32 (mem_of 64 interface_bytes) 72 = 7" by code_simp
qed simp_all

end
