(* ===== verification/Cpp_RoundTrip.thy ===== *)
theory Cpp_RoundTrip
  imports Cpp_ArrayData
begin

text \<open>
  Encoding and decoding in the C++ bindings are inverse: for handles, for pointers and for whole
  arrays and maps nested to any depth. An object in memory has a set \<open>R\<close> of addresses that both
  operations only read (headers) and a set \<open>F\<close> of addresses they rewrite (pointer slots and handles).
  \<open>round_trips R F\<close> says that encoding touches \<open>F\<close> only and appends to the handles, and that decoding,
  in any memory that still has the encoded object, puts the original bytes back. It is kept by
  sequencing operations on objects that do not overlap.
\<close>

section \<open>Bytes of a scalar\<close>

lemma nth_bytes_of_word: "i < n \<Longrightarrow> bytes_of_word n w ! i = ucast (drop_bit (8 * i) w)"
proof (induction n arbitrary: i w)
  case (Suc n)
  then show ?case by (cases i) (simp_all add: drop_bit_drop_bit add.commute)
qed simp

lemma bit_word_of_bytes:
  "bit (word_of_bytes bs :: 'a::len word) k \<longleftrightarrow>
     k < LENGTH('a) \<and> k < 8 * length bs \<and> bit (bs ! (k div 8)) (k mod 8)"
proof (induction bs arbitrary: k)
  case (Cons b bs)
  show ?case
  proof (cases "k < 8")
    case True
    then show ?thesis by (auto simp: bit_or_iff bit_push_bit_iff bit_ucast_iff dest: bit_imp_le_length)
  next
    case False
    then obtain j where j: "k = j + 8" by (metis add.commute le_Suc_ex not_le)
    moreover have "(j + 8) div 8 = Suc (j div 8)" by simp
    moreover from j have "\<not> bit b k" using bit_imp_le_length [of b k] by auto
    ultimately show ?thesis
      using Cons.IH [of j] by (auto simp: bit_or_iff bit_push_bit_iff bit_ucast_iff)
  qed
qed simp

lemma bytes_of_word_of_bytes:
  assumes "length bs = n" and "8 * n \<le> LENGTH('a)"
  shows "bytes_of_word n (word_of_bytes bs :: 'a::len word) = bs"
proof (rule nth_equalityI)
  fix i assume "i < length (bytes_of_word n (word_of_bytes bs :: 'a word))"
  then have i: "i < n" by simp
  show "bytes_of_word n (word_of_bytes bs :: 'a word) ! i = bs ! i"
  proof (rule bit_word_eqI)
    fix k assume "k < LENGTH(8)"
    then have "k < 8" by simp
    with i assms show "bit (bytes_of_word n (word_of_bytes bs :: 'a word) ! i) k \<longleftrightarrow> bit (bs ! i) k"
      by (auto simp: nth_bytes_of_word bit_ucast_iff bit_drop_bit_eq bit_word_of_bytes)
  qed
qed (simp add: assms)

lemma poke_peek: "poke m' a (peek m a n) x = (if a \<le> x \<and> x < a + n then Some (the (m x)) else m' x)"
  by (auto simp: poke_def peek_def)

lemma poke_bytes_peek:
  "mapped m a 4 \<Longrightarrow> poke m' a (bytes_of_word 4 (peek32 m a)) = (\<lambda>x. if x \<in> {a..<a + 4} then m x else m' x)"
  "mapped m a 8 \<Longrightarrow> poke m' a (bytes_of_word 8 (peek64 m a)) = (\<lambda>x. if x \<in> {a..<a + 8} then m x else m' x)"
  by (auto simp: peek32_def peek64_def bytes_of_word_of_bytes poke_peek mapped_iff_range fun_eq_iff)

section \<open>Round trips\<close>

definition same_on :: "addr set \<Rightarrow> mem \<Rightarrow> mem \<Rightarrow> bool" where
  "same_on S m m' \<longleftrightarrow> (\<forall>x \<in> S. m x = m' x)"

lemma same_on_refl [simp]: "same_on S m m"
  by (simp add: same_on_def)

lemma same_on_Un [simp]: "same_on (S \<union> S') m m' \<longleftrightarrow> same_on S m m' \<and> same_on S' m m'"
  by (auto simp: same_on_def)

lemma same_on_trans: "same_on S a b \<Longrightarrow> same_on S b c \<Longrightarrow> same_on S a c"
  by (simp add: same_on_def)

lemma same_on_sym: "same_on S a b \<Longrightarrow> same_on S b a"
  by (simp add: same_on_def)

lemma same_on_peek:
  "same_on {a..<a + 8} m m' \<Longrightarrow> peek64 m' a = peek64 m a"
  "same_on {a..<a + 4} m m' \<Longrightarrow> peek32 m' a = peek32 m a"
  by (auto intro!: agree_peek64 agree_peek32 simp: same_on_def agree_def)

lemma same_on_mapped: "same_on {a..<a + n} m m' \<Longrightarrow> mapped m' a n \<longleftrightarrow> mapped m a n"
  by (auto simp: same_on_def mapped_iff_range)

text \<open>Handles taken out of the vector leave invalid handles behind.\<close>

definition cleared :: "MojoHandle list \<Rightarrow> nat \<Rightarrow> nat \<Rightarrow> MojoHandle list" where
  "cleared hs i k = take i hs @ replicate k MOJO_HANDLE_INVALID @ drop (i + k) hs"

definition holds_at :: "MojoHandle list \<Rightarrow> nat \<Rightarrow> MojoHandle list \<Rightarrow> bool" where
  "holds_at hs i ws \<longleftrightarrow> i + length ws \<le> length hs \<and> (\<forall>k < length ws. hs ! (i + k) = ws ! k)"

lemma holds_at_append:
  "holds_at hs i (ws @ vs) \<longleftrightarrow> holds_at hs i ws \<and> holds_at hs (i + length ws) vs"
proof -
  have "(\<forall>k < length ws + length vs. hs ! (i + k) = (ws @ vs) ! k) \<longleftrightarrow>
      (\<forall>k < length ws. hs ! (i + k) = ws ! k) \<and> (\<forall>k < length vs. hs ! (i + length ws + k) = vs ! k)"
    (is "?all \<longleftrightarrow> ?left \<and> ?right")
  proof
    assume all: ?all
    have "hs ! (i + length ws + k) = vs ! k" if "k < length vs" for k
      using all [rule_format, of "length ws + k"] that by (simp add: add.assoc)
    with all show "?left \<and> ?right" by (auto simp: nth_append)
  next
    assume lr: "?left \<and> ?right"
    show ?all
    proof (intro allI impI)
      fix k assume k: "k < length ws + length vs"
      show "hs ! (i + k) = (ws @ vs) ! k"
      proof (cases "k < length ws")
        case False
        then obtain j where "k = length ws + j" using le_Suc_ex not_less by blast
        with lr k show ?thesis by (simp add: add.assoc)
      qed (use lr in \<open>simp add: nth_append\<close>)
    qed
  qed
  then show ?thesis by (auto simp: holds_at_def)
qed

lemma length_cleared [simp]: "i + k \<le> length hs \<Longrightarrow> length (cleared hs i k) = length hs"
  by (simp add: cleared_def)

lemma cleared_0 [simp]: "cleared hs i 0 = hs"
  by (simp add: cleared_def)

lemma nth_cleared:
  "i + k \<le> length hs \<Longrightarrow> j < length hs \<Longrightarrow>
   cleared hs i k ! j = (if i \<le> j \<and> j < i + k then MOJO_HANDLE_INVALID else hs ! j)"
  by (auto simp: cleared_def nth_append min_def)

lemma cleared_cleared:
  assumes "i + k + l \<le> length hs"
  shows "cleared (cleared hs i k) (i + k) l = cleared hs i (k + l)"
  by (rule nth_equalityI) (use assms in \<open>auto simp: nth_cleared\<close>)

lemma cleared_1: "i < length hs \<Longrightarrow> cleared hs i (Suc 0) = hs[i := MOJO_HANDLE_INVALID]"
  by (rule nth_equalityI) (auto simp: nth_cleared nth_list_update)

lemma holds_at_cleared:
  "holds_at hs (i + k) ws \<Longrightarrow> i + k \<le> length hs \<Longrightarrow> holds_at (cleared hs i k) (i + k) ws"
  by (auto simp: holds_at_def nth_cleared)

type_synonym cpp_operation = "cpp_state \<Rightarrow> cpp_state res"

definition round_trips :: "addr set \<Rightarrow> addr set \<Rightarrow> mem \<Rightarrow> cpp_operation \<Rightarrow> cpp_operation \<Rightarrow> bool" where
  "round_trips R F m enc dec \<longleftrightarrow>
     (\<forall>m0 hs. same_on (R \<union> F) m m0 \<longrightarrow>
       (\<exists>m1 ws. enc (m0, hs) = Inr (m1, hs @ ws) \<and> same_on (- F) m0 m1 \<and>
         (\<forall>m2 hs2. same_on R m m2 \<longrightarrow> same_on F m1 m2 \<longrightarrow> holds_at hs2 (length hs) ws \<longrightarrow>
            length hs2 < 4294967295 \<longrightarrow>
            dec (m2, hs2) = Inr (\<lambda>x. if x \<in> F then m x else m2 x, cleared hs2 (length hs) (length ws)))))"

lemma round_trips_skip: "round_trips {} {} m Inr Inr"
  by (auto simp: round_trips_def intro!: exI [of _ "[]"])

lemma round_trips_cong:
  assumes "round_trips R F m enc dec"
    and "\<And>m0 hs. same_on R m m0 \<Longrightarrow> enc' (m0, hs) = enc (m0, hs)"
    and "\<And>m0 hs. same_on R m m0 \<Longrightarrow> dec' (m0, hs) = dec (m0, hs)"
  shows "round_trips R F m enc' dec'"
proof -
  have "enc' (m0, hs) = enc (m0, hs)" if "same_on (R \<union> F) m m0" for m0 hs
    using that assms(2) by simp
  with assms(1,3) show ?thesis unfolding round_trips_def by simp
qed

lemma round_tripsE:
  assumes "round_trips R F m enc dec" and "same_on (R \<union> F) m m0"
  obtains m1 ws where "enc (m0, hs) = Inr (m1, hs @ ws)" and "same_on (- F) m0 m1"
    and "\<And>m2 hs2. same_on R m m2 \<Longrightarrow> same_on F m1 m2 \<Longrightarrow> holds_at hs2 (length hs) ws \<Longrightarrow>
      length hs2 < 4294967295 \<Longrightarrow>
      dec (m2, hs2) = Inr (\<lambda>x. if x \<in> F then m x else m2 x, cleared hs2 (length hs) (length ws))"
  using assms(1) [unfolded round_trips_def, rule_format, OF assms(2), of hs] by blast

text \<open>Operations on objects that do not overlap, one after the other.\<close>

lemma round_trips_seq:
  assumes one: "round_trips R F m e d" and two: "round_trips R' F' m e' d'"
    and disj: "F \<inter> (F' \<union> R') = {}" "F' \<inter> (F \<union> R) = {}"
  shows "round_trips (R \<union> R') (F \<union> F') m (\<lambda>st. bindR (e st) e') (\<lambda>st. bindR (d st) d')"
  unfolding round_trips_def
proof (intro allI impI, goal_cases)
  case (1 m0 hs)
  then have s: "same_on (R \<union> F) m m0" "same_on (R' \<union> F') m m0" by simp_all
  from round_tripsE [OF one s(1), of hs] obtain m1 ws where e: "e (m0, hs) = Inr (m1, hs @ ws)" "same_on (- F) m0 m1"
    and d: "\<And>m2 hs2. same_on R m m2 \<Longrightarrow> same_on F m1 m2 \<Longrightarrow> holds_at hs2 (length hs) ws \<Longrightarrow>
      length hs2 < 4294967295 \<Longrightarrow>
      d (m2, hs2) = Inr (\<lambda>x. if x \<in> F then m x else m2 x, cleared hs2 (length hs) (length ws))"
    by blast
  from s(2) e(2) disj have "same_on (R' \<union> F') m m1" by (auto simp: same_on_def)
  from round_tripsE [OF two this, of "hs @ ws"] obtain m1' vs where e': "e' (m1, hs @ ws) = Inr (m1', (hs @ ws) @ vs)" "same_on (- F') m1 m1'"
    and d': "\<And>m2 hs2. same_on R' m m2 \<Longrightarrow> same_on F' m1' m2 \<Longrightarrow> holds_at hs2 (length (hs @ ws)) vs \<Longrightarrow>
      length hs2 < 4294967295 \<Longrightarrow> d' (m2, hs2) =
        Inr (\<lambda>x. if x \<in> F' then m x else m2 x, cleared hs2 (length (hs @ ws)) (length vs))"
    by blast
  show ?case
  proof (intro exI [of _ m1'] exI [of _ "ws @ vs"] conjI allI impI)
    show "bindR (e (m0, hs)) e' = Inr (m1', hs @ ws @ vs)" using e e' by simp
    show "same_on (- (F \<union> F')) m0 m1'" using e e' by (auto simp: same_on_def)
    fix m2 hs2
    assume a: "same_on (R \<union> R') m m2" "same_on (F \<union> F') m1' m2"
      "holds_at hs2 (length hs) (ws @ vs)" "length hs2 < 4294967295"
    have "same_on F m1 m2"
      using a(2) e'(2) disj(1) unfolding same_on_def by (metis Compl_iff Un_iff disjoint_iff)
    moreover have h: "holds_at hs2 (length hs) ws" "holds_at hs2 (length hs + length ws) vs"
      using a(3) by (simp_all add: holds_at_append)
    ultimately have first: "d (m2, hs2) =
        Inr (\<lambda>x. if x \<in> F then m x else m2 x, cleared hs2 (length hs) (length ws))"
      using a by (intro d) simp_all
    let ?m3 = "\<lambda>x. if x \<in> F then m x else m2 x" and ?hs3 = "cleared hs2 (length hs) (length ws)"
    have "same_on R' m ?m3" using a(1) by (auto simp: same_on_def)
    moreover have "same_on F' m1' ?m3" using a(2) disj by (auto simp: same_on_def)
    moreover have "holds_at ?hs3 (length (hs @ ws)) vs"
      using h by (auto simp: holds_at_def nth_cleared)
    moreover have "length ?hs3 < 4294967295" using a(4) h by (simp add: holds_at_def)
    ultimately have "d' (?m3, ?hs3) =
        Inr (\<lambda>x. if x \<in> F' then m x else ?m3 x, cleared ?hs3 (length (hs @ ws)) (length vs))"
      by (rule d')
    with first h show "bindR (d (m2, hs2)) d' = Inr (\<lambda>x. if x \<in> F \<union> F' then m x else m2 x,
        cleared hs2 (length hs) (length (ws @ vs)))"
      by (auto simp: holds_at_def cleared_cleared fun_eq_iff)
  qed
qed

section \<open>Handles and pointers\<close>

lemma round_trips_handle:
  assumes "mapped m a 4"
  shows "round_trips {} {a..<a + 4} m (EncodeHandle a) (DecodeHandle dbg a)"
  unfolding round_trips_def
proof (intro allI impI, goal_cases)
  case (1 m0 hs)
  then have s: "same_on {a..<a + 4} m m0" by simp
  then have m0: "mapped m0 a 4" "peek32 m0 a = peek32 m a"
    using assms by (simp_all add: same_on_mapped same_on_peek)
  let ?v = "peek32 m a" and ?ws = "if peek32 m a = MOJO_HANDLE_INVALID then [] else [peek32 m a]"
  let ?c = "if ?v = MOJO_HANDLE_INVALID then kEncodedHandleInvalid else of_nat (length hs)"
  let ?m1 = "poke m0 a (bytes_of_word 4 ?c)"
  have "EncodeHandle a (m0, hs) = Inr (?m1, hs @ ?ws)"
    using m0 by (simp add: EncodeHandle_def load32_eq store32_eq Let_def)
  moreover have "same_on (- {a..<a + 4}) m0 ?m1" by (auto simp: same_on_def poke_outside)
  moreover have "DecodeHandle dbg a (m2, hs2) =
      Inr (\<lambda>x. if x \<in> {a..<a + 4} then m x else m2 x, cleared hs2 (length hs) (length ?ws))"
    if m2: "same_on {a..<a + 4} ?m1 m2" and h: "holds_at hs2 (length hs) ?ws" "length hs2 < 4294967295"
    for m2 hs2
  proof -
    have c: "mapped m2 a 4" "peek32 m2 a = ?c"
      using m2 m0 by (simp_all add: same_on_mapped same_on_peek mapped_poke)
    show ?thesis
    proof (cases "?v = MOJO_HANDLE_INVALID")
      case True
      with c poke_bytes_peek(1) [OF assms, of m2] show ?thesis
        by (simp add: DecodeHandle_def load32_eq store32_eq)
    next
      case False
      with h have i: "length hs < length hs2" "hs2 ! length hs = ?v" by (simp_all add: holds_at_def)
      then have u: "unat (of_nat (length hs) :: u32) = length hs" using h(2) by (simp add: unat_of_nat)
      then have "(of_nat (length hs) :: u32) \<noteq> kEncodedHandleInvalid"
        using i h(2) by (auto simp: kEncodedHandleInvalid_def unsigned_minus_1_eq_mask mask_eq_exp_minus_1)
      with c False u i poke_bytes_peek(1) [OF assms, of m2] show ?thesis
        by (simp add: DecodeHandle_def load32_eq store32_eq cleared_1)
    qed
  qed
  ultimately show ?case by (intro exI conjI allI impI) simp_all
qed

text \<open>Decoding a slot stores the address and goes on to the object there.\<close>

lemma Decode_slot_eq:
  assumes "mapped m a 8" and "p = (if peek64 m a = 0 then 0 else a + unat (peek64 m a))"
    and "p < 18446744073709551616"
  shows "Decode_slot dec a (m, hs) =
    (if p = 0 then Inr (poke m a (bytes_of_word 8 (of_nat p :: u64)), hs)
     else dec p (poke m a (bytes_of_word 8 (of_nat p :: u64)), hs))"
  using assms(1,3)
  by (simp add: Decode_slot_def DecodePointer_def DecodePointerRaw_def pointer_ptr_def load64_eq
      store64_eq mapped_poke unat_of_nat assms(2) [symmetric])

text \<open>A null slot; then a slot and the object it points to, which lies after it.\<close>

lemma round_trips_null:
  assumes "mapped m a 8" and "peek64 m a = 0"
  shows "round_trips {} {a..<a + 8} m (Encode_slot dbg enc a) (Decode_slot dec a)"
  unfolding round_trips_def
proof (intro allI impI, goal_cases)
  case (1 m0 hs)
  then have m0: "mapped m0 a 8" "peek64 m0 a = 0"
    using assms by (simp_all add: same_on_mapped same_on_peek)
  let ?m1 = "poke m0 a (bytes_of_word 8 (0 :: u64))"
  have "Encode_slot dbg enc a (m0, hs) = Inr (?m1, hs @ [])"
    using m0 by (simp add: Encode_slot_def pointer_ptr_def load64_eq EncodePointer_def store64_eq)
  moreover have "same_on (- {a..<a + 8}) m0 ?m1" by (auto simp: same_on_def poke_outside)
  moreover have "Decode_slot dec a (m2, hs2) = Inr (\<lambda>x. if x \<in> {a..<a + 8} then m x else m2 x, hs2)"
    if "same_on {a..<a + 8} ?m1 m2" for m2 hs2
  proof -
    have "mapped m2 a 8" "peek64 m2 a = 0"
      using that m0 by (simp_all add: same_on_mapped same_on_peek mapped_poke)
    then have "Decode_slot dec a (m2, hs2) = Inr (poke m2 a (bytes_of_word 8 (0 :: u64)), hs2)"
      using Decode_slot_eq [of m2 a 0 dec hs2] by simp
    with poke_bytes_peek(2) [OF assms(1), of m2] assms(2) show ?thesis by simp
  qed
  ultimately show ?case by (intro exI [of _ ?m1] exI [of _ "[]"]) simp
qed

lemma round_trips_slot:
  assumes a: "mapped m a 8" and p: "p = unat (peek64 m a)" "a < p"
    and tgt: "round_trips R G m (enc p) (dec p)" and disj: "{a..<a + 8} \<inter> (R \<union> G) = {}"
  shows "round_trips R ({a..<a + 8} \<union> G) m (Encode_slot dbg enc a) (Decode_slot dec a)"
  unfolding round_trips_def
proof (intro allI impI, goal_cases)
  case (1 m0 hs)
  then have "same_on (R \<union> G) m m0" and s0: "same_on {a..<a + 8} m m0" by simp_all
  from round_tripsE [OF tgt this(1), of hs] obtain m1 ws where
    e: "enc p (m0, hs) = Inr (m1, hs @ ws)" "same_on (- G) m0 m1"
    and d: "\<And>m2 hs2. same_on R m m2 \<Longrightarrow> same_on G m1 m2 \<Longrightarrow> holds_at hs2 (length hs) ws \<Longrightarrow>
      length hs2 < 4294967295 \<Longrightarrow>
      dec p (m2, hs2) = Inr (\<lambda>x. if x \<in> G then m x else m2 x, cleared hs2 (length hs) (length ws))"
    by blast
  have s1: "same_on {a..<a + 8} m m1"
    using s0 e(2) disj unfolding same_on_def by (metis Compl_iff Un_iff disjoint_iff)
  have m0: "mapped m0 a 8" "peek64 m0 a = peek64 m a" and m1: "mapped m1 a 8" "peek64 m1 a = peek64 m a"
    using s0 s1 a by (simp_all add: same_on_mapped same_on_peek)
  let ?off = "of_nat (p - a) :: u64"
  have big: "p < 18446744073709551616" using p(1) unat_u64_bound by simp
  then have off: "unat ?off = p - a" by (simp add: unat_of_nat)
  have "int p - int a = int (p - a)" using p(2) by simp
  then have diff: "(word_of_int (int p - int a) :: u64) = ?off" by (simp only: of_int_of_nat_eq)
  let ?m1 = "poke m1 a (bytes_of_word 8 ?off)"
  show ?case
  proof (intro exI [of _ ?m1] exI [of _ ws] conjI allI impI)
    show "Encode_slot dbg enc a (m0, hs) = Inr (?m1, hs @ ws)"
      using m0 m1 e(1) p diff
      by (simp add: Encode_slot_def pointer_ptr_def load64_eq EncodePointer_def store64_eq del: of_int_diff)
    show "same_on (- ({a..<a + 8} \<union> G)) m0 ?m1"
      using e(2) by (auto simp: same_on_def poke_outside)
    fix m2 hs2
    assume m2: "same_on R m m2" "same_on ({a..<a + 8} \<union> G) ?m1 m2"
      and hs2: "holds_at hs2 (length hs) ws" "length hs2 < 4294967295"
    from m2(2) have "same_on {a..<a + 8} ?m1 m2" by simp
    with m1 have c: "mapped m2 a 8" "peek64 m2 a = ?off"
      by (simp_all add: same_on_mapped same_on_peek mapped_poke)
    let ?m3 = "\<lambda>x. if x \<in> {a..<a + 8} then m x else m2 x"
    have "?off \<noteq> 0" using off p(2) by auto
    with c off p(2) big have "Decode_slot dec a (m2, hs2) = dec p (poke m2 a (bytes_of_word 8 (of_nat p :: u64)), hs2)"
      using Decode_slot_eq [of m2 a p dec hs2] by simp
    then have "Decode_slot dec a (m2, hs2) = dec p (?m3, hs2)"
      using poke_bytes_peek(2) [OF a, of m2] p(1) by simp
    also have "\<dots> = Inr (\<lambda>x. if x \<in> G then m x else ?m3 x, cleared hs2 (length hs) (length ws))"
    proof (rule d [OF _ _ hs2])
      show "same_on R m ?m3" using m2(1) by (simp add: same_on_def)
      have "same_on G m1 ?m1" using disj by (auto simp: same_on_def poke_def)
      with m2(2) disj show "same_on G m1 ?m3"
        unfolding same_on_def by (metis UnCI disjoint_iff)
    qed
    also have "(\<lambda>x. if x \<in> G then m x else ?m3 x) = (\<lambda>x. if x \<in> {a..<a + 8} \<union> G then m x else m2 x)"
      by auto
    finally show "Decode_slot dec a (m2, hs2) = Inr (\<lambda>x. if x \<in> {a..<a + 8} \<union> G then m x else m2 x,
        cleared hs2 (length hs) (length ws))" .
  qed
qed

section \<open>Element loops\<close>

lemma same_on_count:
  assumes "mapped m a 8" and "same_on {a..<a + 8} m m0"
  shows "array_num_elements m0 a = Inr (peek32 m (a + 4))"
proof -
  have "same_on {a + 4..<a + 4 + 4} m m0" using assms(2) by (auto simp: same_on_def)
  with mapped_sub [OF assms(1), of "a + 4" 4] show ?thesis
    by (simp add: array_num_elements_def load32_eq same_on_mapped same_on_peek)
qed

lemma round_trips_elements:
  assumes "mapped m a 8" and "n = unat (peek32 m (a + 4))"
    and step: "\<And>i. i < n \<Longrightarrow> round_trips (R i) (F i) m (e i) (d i)"
    and apart: "\<And>i j. i < n \<Longrightarrow> j < n \<Longrightarrow> i \<noteq> j \<Longrightarrow> F i \<inter> (F j \<union> R j) = {}"
    and header: "\<And>i. i < n \<Longrightarrow> F i \<inter> {a..<a + 8} = {}"
  shows "i \<le> n \<Longrightarrow> round_trips ({a..<a + 8} \<union> \<Union> (R ` {i..<n})) (\<Union> (F ` {i..<n})) m
    (elements_loop a e i) (elements_loop a d i)"
proof (induction "n - i" arbitrary: i)
  case (0)
  from 0 assms(2) have "elements_loop a f i (m0, hs) = Inr (m0, hs)" if "same_on {a..<a + 8} m m0"
    for f m0 hs
    using same_on_count [OF assms(1) that] by (subst elements_loop.simps) simp
  with 0 show ?case
    by (auto simp: round_trips_def intro!: exI [of _ "[]"])
next
  case (Suc k)
  then have i: "i < n" by simp
  then have insert_upt: "{i..<n} = insert i {Suc i..<n}" by auto
  let ?R = "{a..<a + 8} \<union> \<Union> (R ` {Suc i..<n})" and ?F = "\<Union> (F ` {Suc i..<n})"
  have "round_trips (R i \<union> ?R) (F i \<union> ?F) m
      (\<lambda>st. bindR (e i st) (elements_loop a e (Suc i))) (\<lambda>st. bindR (d i st) (elements_loop a d (Suc i)))"
  proof (rule round_trips_seq [OF step [OF i]])
    show "round_trips ?R ?F m (elements_loop a e (Suc i)) (elements_loop a d (Suc i))"
      using Suc by (intro Suc.hyps(1)) simp_all
    show "F i \<inter> (?F \<union> ?R) = {}"
      using apart [OF i] header [OF i] by fastforce
    show "?F \<inter> (F i \<union> R i) = {}"
      using apart [OF _ i] by fastforce
  qed
  moreover have "R i \<union> ?R = {a..<a + 8} \<union> \<Union> (R ` {i..<n})" "F i \<union> ?F = \<Union> (F ` {i..<n})"
    using insert_upt by auto
  ultimately show ?case
    by (simp, elim round_trips_cong) (use i assms(2) same_on_count [OF assms(1)] in \<open>simp_all add: elements_loop.simps [of a _ i]\<close>)
qed

section \<open>Objects in memory\<close>

text \<open>
  A decoded object at an address with the addresses \<open>R\<close> its headers and \<open>F\<close> its slots and handles
  occupy: a slot is null or leads to an object after it, and what one element refers to does not
  overlap what another refers to.
\<close>

definition owned_slot ::
  "(addr \<Rightarrow> addr set \<Rightarrow> addr set \<Rightarrow> bool) \<Rightarrow> mem \<Rightarrow> addr \<Rightarrow> addr set \<Rightarrow> addr set \<Rightarrow> bool"
where
  "owned_slot own m slot R F \<longleftrightarrow> mapped m slot 8 \<and>
     (if peek64 m slot = 0 then R = {} \<and> F = {slot..<slot + 8}
      else slot < unat (peek64 m slot) \<and>
        (\<exists>G. own (unat (peek64 m slot)) R G \<and> {slot..<slot + 8} \<inter> (R \<union> G) = {} \<and>
             F = {slot..<slot + 8} \<union> G))"

definition owned_handle :: "mem \<Rightarrow> addr \<Rightarrow> addr set \<Rightarrow> addr set \<Rightarrow> bool" where
  "owned_handle m slot R F \<longleftrightarrow> mapped m slot 4 \<and> R = {} \<and> F = {slot..<slot + 4}"

definition owned_elements ::
  "(addr \<Rightarrow> addr set \<Rightarrow> addr set \<Rightarrow> bool) \<Rightarrow> array_type \<Rightarrow> mem \<Rightarrow> addr \<Rightarrow> addr set \<Rightarrow> addr set \<Rightarrow> bool"
where
  "owned_elements own T m a R F \<longleftrightarrow> mapped m a 8 \<and>
     (\<exists>Rs Fs. let n = unat (peek32 m (a + 4)) in
        (\<forall>i < n. own (ToRef T (array_storage a) i) (Rs i) (Fs i) \<and> Fs i \<inter> {a..<a + 8} = {}) \<and>
        (\<forall>i < n. \<forall>j < n. i \<noteq> j \<longrightarrow> Fs i \<inter> (Fs j \<union> Rs j) = {}) \<and>
        R = {a..<a + 8} \<union> \<Union> (Rs ` {0..<n}) \<and> F = \<Union> (Fs ` {0..<n}))"

definition owned_map ::
  "(addr \<Rightarrow> addr set \<Rightarrow> addr set \<Rightarrow> bool) \<Rightarrow> (addr \<Rightarrow> addr set \<Rightarrow> addr set \<Rightarrow> bool) \<Rightarrow>
   mem \<Rightarrow> addr \<Rightarrow> addr set \<Rightarrow> addr set \<Rightarrow> bool"
where
  "owned_map ownK ownV m a R F \<longleftrightarrow>
     (\<exists>RK FK RV FV. owned_slot ownK m (a + 8) RK FK \<and> owned_slot ownV m (a + 16) RV FV \<and>
        FK \<inter> (FV \<union> RV) = {} \<and> FV \<inter> (FK \<union> RK) = {} \<and> R = RK \<union> RV \<and> F = FK \<union> FV)"

primrec owned :: "array_type \<Rightarrow> mem \<Rightarrow> addr \<Rightarrow> addr set \<Rightarrow> addr set \<Rightarrow> bool" where
  "owned (Primitive n) m a R F \<longleftrightarrow> R = {} \<and> F = {}"
| "owned Bool m a R F \<longleftrightarrow> R = {} \<and> F = {}"
| "owned InterfaceType m a R F \<longleftrightarrow> R = {} \<and> F = {}"
| "owned HandleType m a R F \<longleftrightarrow> owned_elements (owned_handle m) HandleType m a R F"
| "owned (ArrayPtr T) m a R F \<longleftrightarrow> owned_elements (owned_slot (owned T m) m) (ArrayPtr T) m a R F"
| "owned (MapPtr K V) m a R F \<longleftrightarrow>
     owned_elements (owned_slot (owned_map (owned K m) (owned V m) m) m) (MapPtr K V) m a R F"
| "owned (StructPtr c) m a R F \<longleftrightarrow> False"
| "owned (UnionType c) m a R F \<longleftrightarrow> False"

lemma owned_elementsE:
  assumes "owned_elements own T m a R F"
  obtains n Rs Fs where "mapped m a 8" "n = unat (peek32 m (a + 4))"
    "\<And>i. i < n \<Longrightarrow> own (ToRef T (array_storage a) i) (Rs i) (Fs i)"
    "\<And>i. i < n \<Longrightarrow> Fs i \<inter> {a..<a + 8} = {}"
    "\<And>i j. i < n \<Longrightarrow> j < n \<Longrightarrow> i \<noteq> j \<Longrightarrow> Fs i \<inter> (Fs j \<union> Rs j) = {}"
    "R = {a..<a + 8} \<union> \<Union> (Rs ` {0..<n})" "F = \<Union> (Fs ` {0..<n})"
proof -
  define n where "n = unat (peek32 m (a + 4))"
  from assms obtain Rs Fs where "mapped m a 8"
    "\<forall>i < n. own (ToRef T (array_storage a) i) (Rs i) (Fs i) \<and> Fs i \<inter> {a..<a + 8} = {}"
    "\<forall>i < n. \<forall>j < n. i \<noteq> j \<longrightarrow> Fs i \<inter> (Fs j \<union> Rs j) = {}"
    "R = {a..<a + 8} \<union> \<Union> (Rs ` {0..<n})" "F = \<Union> (Fs ` {0..<n})"
    unfolding owned_elements_def Let_def n_def [symmetric] by (elim conjE exE)
  then show ?thesis using n_def by (intro that [of n Rs Fs]) simp_all
qed

lemma owned_slot_round_trips:
  assumes "owned_slot own m slot R F"
    and "\<And>a R F. own a R F \<Longrightarrow> round_trips R F m (enc a) (dec a)"
  shows "round_trips R F m (Encode_slot dbg enc slot) (Decode_slot dec slot)"
  using assms(1) round_trips_null [of m slot dbg enc dec]
    round_trips_slot [of m slot "unat (peek64 m slot)" _ _ enc dec dbg] assms(2)
  by (auto simp: owned_slot_def split: if_splits)

lemma owned_elements_round_trips:
  assumes "owned_elements own T m a R F"
    and "\<And>i R F. own (ToRef T (array_storage a) i) R F \<Longrightarrow> round_trips R F m (e i) (d i)"
  shows "round_trips R F m (elements_loop a e 0) (elements_loop a d 0)"
  using assms(1)
proof (rule owned_elementsE)
  fix n Rs Fs
  assume o: "mapped m a 8" "n = unat (peek32 m (a + 4))"
    "\<And>i. i < n \<Longrightarrow> own (ToRef T (array_storage a) i) (Rs i) (Fs i)"
    "\<And>i. i < n \<Longrightarrow> Fs i \<inter> {a..<a + 8} = {}"
    "\<And>i j. i < n \<Longrightarrow> j < n \<Longrightarrow> i \<noteq> j \<Longrightarrow> Fs i \<inter> (Fs j \<union> Rs j) = {}"
    "R = {a..<a + 8} \<union> \<Union> (Rs ` {0..<n})" "F = \<Union> (Fs ` {0..<n})"
  show ?thesis
    unfolding o(6,7)
    by (rule round_trips_elements [OF o(1,2) assms(2) [OF o(3)] o(5) o(4)]) simp_all
qed

lemma owned_round_trips:
  "owned T m a R F \<Longrightarrow>
   round_trips R F m (Array_Data_Encode T dbg gen a) (Array_Data_Decode T dbg gen a)"
proof (induction T arbitrary: a R F)
  case HandleType
  then have "round_trips R F m
      (elements_loop a (\<lambda>i. EncodeHandle (ToRef HandleType (array_storage a) i)) 0)
      (elements_loop a (\<lambda>i. DecodeHandle dbg (ToRef HandleType (array_storage a) i)) 0)"
    by (intro owned_elements_round_trips [where T = HandleType and own = "owned_handle m"])
      (auto simp: owned_handle_def intro: round_trips_handle)
  then show ?case by (rule round_trips_cong) simp_all
next
  case (ArrayPtr T)
  then have "round_trips R F m
      (elements_loop a (\<lambda>i. Encode_slot dbg (Array_Data_Encode T dbg gen)
        (ToRef (ArrayPtr T) (array_storage a) i)) 0)
      (elements_loop a (\<lambda>i. Decode_slot (Array_Data_Decode T dbg gen)
        (ToRef (ArrayPtr T) (array_storage a) i)) 0)"
    by (intro owned_elements_round_trips [where T = "ArrayPtr T" and own = "owned_slot (owned T m) m"]
        owned_slot_round_trips [where own = "owned T m"]) simp_all
  then show ?case by (rule round_trips_cong) simp_all
next
  case (MapPtr K V)
  have map: "round_trips R F m
      (Map_Data_Encode dbg (Array_Data_Encode K dbg gen) (Array_Data_Encode V dbg gen) a)
      (Map_Data_Decode (Array_Data_Decode K dbg gen) (Array_Data_Decode V dbg gen) a)"
    if "owned_map (owned K m) (owned V m) m a R F" for a R F
  proof -
    from that obtain RK FK RV FV where o: "owned_slot (owned K m) m (a + 8) RK FK"
      "owned_slot (owned V m) m (a + 16) RV FV" "FK \<inter> (FV \<union> RV) = {}" "FV \<inter> (FK \<union> RK) = {}"
      "R = RK \<union> RV" "F = FK \<union> FV"
      unfolding owned_map_def by blast
    from round_trips_seq [OF owned_slot_round_trips [OF o(1) MapPtr.IH(1)]
        owned_slot_round_trips [OF o(2) MapPtr.IH(2)] o(3,4)]
    show ?thesis unfolding o(5,6) by (rule round_trips_cong) (simp_all add: Map_Data_Encode_def Map_Data_Decode_def)
  qed
  from MapPtr.prems have "round_trips R F m
      (elements_loop a (\<lambda>i. Encode_slot dbg
        (Map_Data_Encode dbg (Array_Data_Encode K dbg gen) (Array_Data_Encode V dbg gen))
        (ToRef (MapPtr K V) (array_storage a) i)) 0)
      (elements_loop a (\<lambda>i. Decode_slot
        (Map_Data_Decode (Array_Data_Decode K dbg gen) (Array_Data_Decode V dbg gen))
        (ToRef (MapPtr K V) (array_storage a) i)) 0)"
    by (intro owned_elements_round_trips [where T = "MapPtr K V" and
          own = "owned_slot (owned_map (owned K m) (owned V m) m) m"]
        owned_slot_round_trips [where own = "owned_map (owned K m) (owned V m) m"] map) simp_all
  then show ?case by (rule round_trips_cong) simp_all
qed (simp_all, (rule round_trips_cong [OF round_trips_skip], simp_all)+)

text \<open>What an operation rewrites is apart from what it only reads.\<close>

lemma owned_elements_disjoint:
  assumes "owned_elements own T m a R F" and "\<And>a R F. own a R F \<Longrightarrow> F \<inter> R = {}"
  shows "F \<inter> R = {}"
  using assms(1)
proof (rule owned_elementsE)
  fix n Rs Fs
  assume o: "\<And>i. i < n \<Longrightarrow> own (ToRef T (array_storage a) i) (Rs i) (Fs i)"
    "\<And>i. i < n \<Longrightarrow> Fs i \<inter> {a..<a + 8} = {}"
    "\<And>i j. i < n \<Longrightarrow> j < n \<Longrightarrow> i \<noteq> j \<Longrightarrow> Fs i \<inter> (Fs j \<union> Rs j) = {}"
    "R = {a..<a + 8} \<union> \<Union> (Rs ` {0..<n})" "F = \<Union> (Fs ` {0..<n})"
  have "Fs i \<inter> Rs j = {}" if "i < n" "j < n" for i j
    using assms(2) [OF o(1) [OF that(1)]] o(3) [OF that] by (cases "i = j") auto
  then have "Fs i \<inter> R = {}" if "i < n" for i
    using that o(2) [OF that] by (simp add: o(4) Int_Un_distrib Int_UN_distrib)
  then show ?thesis unfolding o(5) by fastforce
qed

lemma owned_slot_disjoint:
  "owned_slot own m slot R F \<Longrightarrow> (\<And>a R F. own a R F \<Longrightarrow> F \<inter> R = {}) \<Longrightarrow> F \<inter> R = {}"
  by (fastforce simp: owned_slot_def split: if_splits)

lemma owned_disjoint: "owned T m a R F \<Longrightarrow> F \<inter> R = {}"
proof (induction T arbitrary: a R F)
  case HandleType
  show ?case
    using HandleType [simplified] by (rule owned_elements_disjoint) (simp add: owned_handle_def)
next
  case (ArrayPtr T)
  show ?case
    using ArrayPtr.prems [simplified]
    by (rule owned_elements_disjoint) (rule owned_slot_disjoint [OF _ ArrayPtr.IH])
next
  case (MapPtr K V)
  have map: "F \<inter> R = {}" if "owned_map (owned K m) (owned V m) m a R F" for a R F
  proof -
    from that obtain RK FK RV FV where o: "owned_slot (owned K m) m (a + 8) RK FK"
      "owned_slot (owned V m) m (a + 16) RV FV" "FK \<inter> (FV \<union> RV) = {}" "FV \<inter> (FK \<union> RK) = {}"
      "R = RK \<union> RV" "F = FK \<union> FV"
      unfolding owned_map_def by blast
    from owned_slot_disjoint [OF o(1) MapPtr.IH(1)] owned_slot_disjoint [OF o(2) MapPtr.IH(2)] o(3,4)
    show ?thesis by (simp add: o(5,6) Int_Un_distrib Int_Un_distrib2)
  qed
  show ?case
    using MapPtr.prems [simplified] by (rule owned_elements_disjoint) (rule owned_slot_disjoint [OF _ map])
qed simp_all

section \<open>Properties\<close>


text \<open>An array of two arrays of handles: one of the handles 5 and 0, the other null.\<close>

definition handle_lists :: "u8 list" where
  "handle_lists = [24, 0, 0, 0, 2, 0, 0, 0,   88, 0, 0, 0, 0, 0, 0, 0,   0, 0, 0, 0, 0, 0, 0, 0,
                   16, 0, 0, 0, 2, 0, 0, 0,   5, 0, 0, 0, 0, 0, 0, 0]"

lemma handle_lists_owned:
  "owned (ArrayPtr HandleType) (mem_of 64 handle_lists) 64 ({64..<72} \<union> {88..<96})
     ({72..<88} \<union> {96..<104})"
proof -
  let ?m = "mem_of 64 handle_lists"
  have len: "length handle_lists = 40" by (simp add: handle_lists_def)
  have v: "peek32 ?m 68 = 2" "peek64 ?m 72 = 88" "peek64 ?m 80 = 0" "peek32 ?m 92 = 2" by code_simp+
  have two: "(\<forall>i < 2. P i) \<longleftrightarrow> P 0 \<and> P (1 :: nat)" for P by (auto simp: numeral_2_eq_2 less_Suc_eq)
  have set2: "{0..<2} = {0, 1 :: nat}" by auto
  have inner: "owned HandleType ?m 88 {88..<96} {96..<104}"
    unfolding owned.simps owned_elements_def
    by (rule conjI, simp add: mapped_mem_of len,
        rule exI [of _ "\<lambda>_. {}"], rule exI [of _ "\<lambda>i. {96 + 4 * i..<100 + 4 * i}"])
      (auto simp: v two set2 mapped_mem_of len owned_handle_def ToRef_def array_storage_def Let_def)
  have slots: "owned_slot (owned HandleType ?m) ?m 72 {88..<96} ({72..<80} \<union> {96..<104})"
    "owned_slot (owned HandleType ?m) ?m 80 {} {80..<88}"
    unfolding owned_slot_def using inner
    by (auto simp: v mapped_mem_of len simp del: owned.simps intro!: exI [of _ "{96..<104}"])
  show ?thesis
    unfolding owned.simps(5) owned_elements_def
    by (rule conjI, simp add: mapped_mem_of len, rule exI [of _ "\<lambda>i. if i = 0 then {88..<96} else {}"],
        rule exI [of _ "\<lambda>i. if i = 0 then {72..<80} \<union> {96..<104} else {80..<88}"])
      (use slots in \<open>auto simp: v two set2 ToRef_def array_storage_def Let_def simp del: owned.simps\<close>)
qed

definition no_classes :: generated_classes where
  "no_classes = \<lparr>Struct_Validate = \<lambda>_ _ _ bc. Inr (NONE, bc), Union_Validate = \<lambda>_ _ _ bc _. Inr (NONE, bc),
     Union_is_null = \<lambda>_ _ _. Inr False, Struct_Encode = \<lambda>_ _. Inr, Struct_Decode = \<lambda>_ _. Inr,
     Union_Encode = \<lambda>_ _. Inr, Union_Decode = \<lambda>_ _. Inr\<rparr>"

lemma handle_lists_handles:
  "map_sum id snd (Array_Data_Encode (ArrayPtr HandleType) True no_classes 64
     (mem_of 64 handle_lists, [9])) = Inr [9, 5]"
  by code_simp


end
