(* ===== verification/Cpp_Message.thy ===== *)
theory Cpp_Message
  imports Cpp_ArraySafety Mojom_Message
begin

text \<open>
  Messages of the C++ bindings: the class \<^verbatim>\<open>Message\<close> and its header fields (\<^verbatim>\<open>message.h\<close>,
  \<^verbatim>\<open>message_internal.h\<close>), the builders that frame outgoing messages (\<^verbatim>\<open>message_builder.cc\<close>) and the
  validators of incoming ones (\<^verbatim>\<open>message_header_validator.cc\<close>, \<^verbatim>\<open>message_validation.cc\<close>,
  \<^verbatim>\<open>message_validator.cc\<close>).

  The header has the layout of the C library's \<^verbatim>\<open>MojomMessage\<close>. The last section shows that the two
  libraries accept the same headers and that what the builders write is accepted by both.
\<close>

section \<open>Headers\<close>

definition kMessageExpectsResponse :: u32 where "kMessageExpectsResponse = push_bit 0 1"

definition kMessageIsResponse :: u32 where "kMessageIsResponse = push_bit 1 1"

definition sizeof_MessageHeader :: nat where "sizeof_MessageHeader = 16"

definition sizeof_MessageHeaderWithRequestID :: nat where "sizeof_MessageHeaderWithRequestID = 24"

lemmas message_sizeofs [simp] = sizeof_MessageHeader_def sizeof_MessageHeaderWithRequestID_def

section \<open>Message\<close>

record Message =
  msg_num_bytes :: u32
  msg_data :: addr
  msg_handles :: "MojoHandle list"

definition Message_new :: Message where
  "Message_new = \<lparr>msg_num_bytes = 0, msg_data = 0, msg_handles = []\<rparr>"

definition Message_name :: "mem \<Rightarrow> Message \<Rightarrow> u32 res" where
  "Message_name m msg = load32 m (msg_data msg + 8)"

definition has_flag :: "mem \<Rightarrow> Message \<Rightarrow> u32 \<Rightarrow> bool res" where
  "has_flag m msg flag = bindR (load32 m (msg_data msg + 12)) (\<lambda>flags. Inr (flags AND flag \<noteq> 0))"

definition has_request_id :: "mem \<Rightarrow> Message \<Rightarrow> bool res" where
  "has_request_id m msg = bindR (struct_version m (msg_data msg)) (\<lambda>version. Inr (version \<ge> 1))"

definition request_id :: "bool \<Rightarrow> mem \<Rightarrow> Message \<Rightarrow> u64 res" where
  "request_id dbg m msg =
     bindR (if dbg then has_request_id m msg else Inr True) (\<lambda>present.
     MOJO_DCHECK dbg present (load64 m (msg_data msg + 16)))"

definition set_request_id :: "bool \<Rightarrow> mem \<Rightarrow> Message \<Rightarrow> u64 \<Rightarrow> mem res" where
  "set_request_id dbg m msg i =
     bindR (if dbg then has_request_id m msg else Inr True) (\<lambda>present.
     MOJO_DCHECK dbg present (store64 m (msg_data msg + 16) i))"

definition payload :: "mem \<Rightarrow> Message \<Rightarrow> addr res" where
  "payload m msg =
     bindR (struct_num_bytes m (msg_data msg)) (\<lambda>n. Inr (msg_data msg + unat n))"

definition payload_num_bytes :: "bool \<Rightarrow> mem \<Rightarrow> Message \<Rightarrow> u32 res" where
  "payload_num_bytes dbg m msg =
     bindR (struct_num_bytes m (msg_data msg)) (\<lambda>n.
     MOJO_DCHECK dbg (msg_num_bytes msg \<ge> n) (Inr (msg_num_bytes msg - n)))"

text \<open>\<^verbatim>\<open>calloc\<close> maps zero bytes at the address it returns, which is an argument here, or returns null.\<close>

definition calloc :: "mem \<Rightarrow> addr \<Rightarrow> nat \<Rightarrow> mem" where
  "calloc m a n = (if a = 0 then m else (\<lambda>x. if a \<le> x \<and> x < a + n then Some 0 else m x))"

definition Message_AllocData :: "bool \<Rightarrow> addr \<Rightarrow> u32 \<Rightarrow> mem \<times> Message \<Rightarrow> (mem \<times> Message) res" where
  "Message_AllocData dbg block num_bytes st =
     MOJO_DCHECK dbg (msg_data (snd st) = 0) (
     Inr (calloc (fst st) block (unat num_bytes),
          (snd st)\<lparr>msg_num_bytes := num_bytes, msg_data := block\<rparr>))"

section \<open>Builders\<close>

record MessageBuilder =
  builder_message :: Message
  builder_buf :: FixedBuffer

definition MessageBuilder_Initialize :: "bool \<Rightarrow> addr \<Rightarrow> u64 \<Rightarrow> mem \<Rightarrow> (mem \<times> MessageBuilder) res" where
  "MessageBuilder_Initialize dbg block n m =
     bindR (Message_AllocData dbg block (ucast (Align n)) (m, Message_new)) (\<lambda>(m, msg).
     Inr (m, \<lparr>builder_message = msg,
              builder_buf = FixedBuffer_Initialize (msg_data msg) (ucast (msg_num_bytes msg))\<rparr>))"

text \<open>The template \<^verbatim>\<open>Allocate\<close> for a header of the given size.\<close>

definition Allocate_header ::
  "bool \<Rightarrow> nat \<Rightarrow> mem \<times> MessageBuilder \<Rightarrow> (addr \<times> mem \<times> MessageBuilder) res"
where
  "Allocate_header dbg n st =
     bindR (FixedBuffer_Allocate dbg (builder_buf (snd st)) (of_nat n)) (\<lambda>(b, header).
     bindR (store32 (fst st) header (of_nat n)) (\<lambda>m.
     Inr (header, m, (snd st)\<lparr>builder_buf := b\<rparr>)))"

definition MessageBuilder_new ::
  "bool \<Rightarrow> addr \<Rightarrow> u32 \<Rightarrow> u64 \<Rightarrow> mem \<Rightarrow> (mem \<times> MessageBuilder) res"
where
  "MessageBuilder_new dbg block name payload_size m =
     bindR (MessageBuilder_Initialize dbg block (of_nat sizeof_MessageHeader + payload_size) m) (\<lambda>st.
     bindR (Allocate_header dbg sizeof_MessageHeader st) (\<lambda>(header, m, b).
     bindR (store32 m (header + 4) 0) (\<lambda>m.
     bindR (store32 m (header + 8) name) (\<lambda>m.
     bindR (store32 m (header + 12) 0) (\<lambda>m. Inr (m, b))))))"

definition MessageWithRequestIDBuilder_new ::
  "bool \<Rightarrow> addr \<Rightarrow> u32 \<Rightarrow> u64 \<Rightarrow> u32 \<Rightarrow> u64 \<Rightarrow> mem \<Rightarrow> (mem \<times> MessageBuilder) res"
where
  "MessageWithRequestIDBuilder_new dbg block name payload_size flags rid m =
     bindR (MessageBuilder_Initialize dbg block
       (of_nat sizeof_MessageHeaderWithRequestID + payload_size) m) (\<lambda>st.
     bindR (Allocate_header dbg sizeof_MessageHeaderWithRequestID st) (\<lambda>(header, m, b).
     bindR (store32 m (header + 4) 1) (\<lambda>m.
     bindR (store32 m (header + 8) name) (\<lambda>m.
     bindR (store32 m (header + 12) flags) (\<lambda>m.
     bindR (store64 m (header + 16) rid) (\<lambda>m. Inr (m, b)))))))"

definition RequestMessageBuilder_new ::
  "bool \<Rightarrow> addr \<Rightarrow> u32 \<Rightarrow> u64 \<Rightarrow> mem \<Rightarrow> (mem \<times> MessageBuilder) res"
where
  "RequestMessageBuilder_new dbg block name payload_size m =
     MessageWithRequestIDBuilder_new dbg block name payload_size kMessageExpectsResponse 0 m"

definition ResponseMessageBuilder_new ::
  "bool \<Rightarrow> addr \<Rightarrow> u32 \<Rightarrow> u64 \<Rightarrow> u64 \<Rightarrow> mem \<Rightarrow> (mem \<times> MessageBuilder) res"
where
  "ResponseMessageBuilder_new dbg block name payload_size rid m =
     MessageWithRequestIDBuilder_new dbg block name payload_size kMessageIsResponse rid m"

section \<open>Validators\<close>

definition ValidateMessageHeader :: "mem \<Rightarrow> addr \<Rightarrow> ValidationError res" where
  "ValidateMessageHeader m header =
     bindR (struct_version m header) (\<lambda>version.
     bindR (struct_num_bytes m header) (\<lambda>num_bytes.
     if version = 0 \<and> unat num_bytes \<noteq> sizeof_MessageHeader \<or>
        version = 1 \<and> unat num_bytes \<noteq> sizeof_MessageHeaderWithRequestID \<or>
        version > 1 \<and> unat num_bytes < sizeof_MessageHeaderWithRequestID
     then Inr UNEXPECTED_STRUCT_HEADER
     else bindR (load32 m (header + 12)) (\<lambda>flags.
     if version < 1 \<and> (flags AND kMessageExpectsResponse \<noteq> 0 \<or> flags AND kMessageIsResponse \<noteq> 0)
     then Inr MESSAGE_HEADER_MISSING_REQUEST_ID
     else if flags AND kMessageExpectsResponse \<noteq> 0 \<and> flags AND kMessageIsResponse \<noteq> 0
     then Inr MESSAGE_HEADER_INVALID_FLAGS
     else Inr NONE)))"

type_synonym MessageValidator = "mem \<Rightarrow> Message \<Rightarrow> ValidationError res"

definition MessageHeaderValidator_Validate :: "bool \<Rightarrow> MessageValidator" where
  "MessageHeaderValidator_Validate dbg m message =
     bindR (BoundsChecker_new dbg (msg_data message) (msg_num_bytes message) 0) (\<lambda>bc.
     bindR (ValidateStructHeaderAndClaimMemory m (msg_data message) bc) (\<lambda>(result, _).
     if result \<noteq> NONE then Inr result else ValidateMessageHeader m (msg_data message)))"

definition ValidateMessageIsRequestWithoutResponse :: MessageValidator where
  "ValidateMessageIsRequestWithoutResponse m message =
     bindR (has_flag m message kMessageIsResponse) (\<lambda>response.
     if response then Inr MESSAGE_HEADER_INVALID_FLAGS
     else bindR (has_flag m message kMessageExpectsResponse) (\<lambda>expects.
     Inr (if expects then MESSAGE_HEADER_INVALID_FLAGS else NONE)))"

definition ValidateMessageIsRequestExpectingResponse :: MessageValidator where
  "ValidateMessageIsRequestExpectingResponse m message =
     bindR (has_flag m message kMessageIsResponse) (\<lambda>response.
     if response then Inr MESSAGE_HEADER_INVALID_FLAGS
     else bindR (has_flag m message kMessageExpectsResponse) (\<lambda>expects.
     Inr (if \<not> expects then MESSAGE_HEADER_INVALID_FLAGS else NONE)))"

definition ValidateMessageIsResponse :: MessageValidator where
  "ValidateMessageIsResponse m message =
     bindR (has_flag m message kMessageExpectsResponse) (\<lambda>expects.
     bindR (if expects then Inr False else has_flag m message kMessageIsResponse) (\<lambda>response.
     Inr (if expects \<or> \<not> response then MESSAGE_HEADER_INVALID_FLAGS else NONE)))"

text \<open>
  The payload of a message is validated by the class the generator emits for the parameters of the
  method; that class is the argument \<open>params\<close>.
\<close>

type_synonym params_class = "mem \<Rightarrow> addr \<Rightarrow> BoundsChecker \<Rightarrow> cpp_validation"

definition ValidateMessagePayload :: "bool \<Rightarrow> params_class \<Rightarrow> MessageValidator" where
  "ValidateMessagePayload dbg params m message =
     bindR (payload m message) (\<lambda>p.
     bindR (payload_num_bytes dbg m message) (\<lambda>n.
     bindR (BoundsChecker_new dbg p n (of_nat (length (msg_handles message)))) (\<lambda>bc.
     bindR (params m p bc) (\<lambda>(result, _). Inr result))))"

text \<open>The control messages every interface answers (\<^verbatim>\<open>interface_control_messages.mojom\<close>).\<close>

definition kRunMessageId :: u32 where "kRunMessageId = 0xFFFFFFFF"

definition kRunOrClosePipeMessageId :: u32 where "kRunOrClosePipeMessageId = 0xFFFFFFFE"

definition ValidateControlRequest :: "bool \<Rightarrow> params_class \<Rightarrow> params_class \<Rightarrow> MessageValidator" where
  "ValidateControlRequest dbg RunMessageParams RunOrClosePipeMessageParams m message =
     bindR (Message_name m message) (\<lambda>name.
     if name = kRunMessageId then
       bindR (ValidateMessageIsRequestExpectingResponse m message) (\<lambda>retval.
       if retval \<noteq> NONE then Inr retval
       else ValidateMessagePayload dbg RunMessageParams m message)
     else if name = kRunOrClosePipeMessageId then
       bindR (ValidateMessageIsRequestWithoutResponse m message) (\<lambda>retval.
       if retval \<noteq> NONE then Inr retval
       else ValidateMessagePayload dbg RunOrClosePipeMessageParams m message)
     else Inr MESSAGE_HEADER_UNKNOWN_METHOD)"

definition ValidateControlResponse :: "bool \<Rightarrow> params_class \<Rightarrow> MessageValidator" where
  "ValidateControlResponse dbg RunResponseMessageParams m message =
     bindR (ValidateMessageIsResponse m message) (\<lambda>retval.
     if retval \<noteq> NONE then Inr retval
     else bindR (Message_name m message) (\<lambda>name.
     if name = kRunMessageId then ValidateMessagePayload dbg RunResponseMessageParams m message
     else Inr MESSAGE_HEADER_UNKNOWN_METHOD))"

definition PassThroughValidator_Validate :: MessageValidator where
  "PassThroughValidator_Validate m message = Inr NONE"

fun RunValidatorsOnMessage :: "MessageValidator list \<Rightarrow> MessageValidator" where
  "RunValidatorsOnMessage [] m message = Inr NONE"
| "RunValidatorsOnMessage (validator # validators) m message =
     bindR (validator m message) (\<lambda>result.
     if result \<noteq> NONE then Inr result else RunValidatorsOnMessage validators m message)"

section \<open>The header validators of the two libraries\<close>

lemma cpp_flag_bits:
  "w AND kMessageExpectsResponse = 0 \<longleftrightarrow> \<not> bit w 0"
  "w AND kMessageIsResponse = 0 \<longleftrightarrow> \<not> bit w 1"
  using flag_bits [of w] by (simp_all add: kMessageExpectsResponse_def kMessageIsResponse_def
      MOJOM_MESSAGE_FLAGS_EXPECTS_RESPONSE_def MOJOM_MESSAGE_FLAGS_IS_RESPONSE_def)

lemma BoundsChecker_new_eq:
  assumes "a + unat (n :: u32) < 18446744073709551616"
  shows "BoundsChecker_new dbg a n 0 =
    Inr \<lparr>data_begin = of_nat a, data_end = of_nat (a + unat n), handle_begin = 0, handle_end = 0\<rparr>"
proof -
  have "(of_nat a :: u64) + ucast n = of_nat (a + unat n)" by simp
  moreover have "\<not> (of_nat (a + unat n) :: u64) < of_nat a"
    using assms by (simp add: word_less_nat_alt unat_of_nat del: of_nat_add)
  ultimately show ?thesis by (simp add: BoundsChecker_new_def Let_def)
qed

text \<open>A message whose data \<^verbatim>\<open>malloc\<close> may have returned: aligned and not wrapping around.\<close>

definition placed :: "mem \<Rightarrow> Message \<Rightarrow> bool" where
  "placed m msg \<longleftrightarrow> 8 dvd msg_data msg \<and> mapped m (msg_data msg) (unat (msg_num_bytes msg)) \<and>
     msg_data msg + unat (msg_num_bytes msg) < 18446744073709551616"

abbreviation accepted_header :: "mem \<Rightarrow> Message \<Rightarrow> bool" where
  "accepted_header m msg \<equiv> header_ok m (msg_data msg) (unat (msg_num_bytes msg))"

lemma header_ok_sizes:
  assumes "header_ok m a n"
  shows "16 \<le> n" "16 \<le> unat (peek32 m a)" "unat (peek32 m a) \<le> n"
    "peek32 m (a + 4) \<noteq> 0 \<Longrightarrow> 24 \<le> unat (peek32 m a)"
proof -
  have v: "v \<noteq> 0 \<Longrightarrow> v = 1 \<or> v > 1" for v :: u32 by (auto simp: word_nat word_unat_eq_iff)
  show "peek32 m (a + 4) \<noteq> 0 \<Longrightarrow> 24 \<le> unat (peek32 m a)"
    using assms v [of "peek32 m (a + 4)"] by (auto simp: header_ok_def Let_def)
  with assms show "16 \<le> unat (peek32 m a)" "unat (peek32 m a) \<le> n" "16 \<le> n"
    by (cases "peek32 m (a + 4) = 0"; auto simp: header_ok_def Let_def)+
qed

lemma ValidateMessageHeader_eq:
  assumes "mapped m a (unat (peek32 m a))" and "8 \<le> unat (peek32 m a)" and "unat (peek32 m a) \<le> n"
  shows "\<exists>r. ValidateMessageHeader m a = Inr r \<and> (r = NONE \<longleftrightarrow> header_ok m a n)"
proof -
  have "mapped m a 4" "mapped m (a + 4) 4" using assms by (auto elim!: mapped_sub)
  moreover have "mapped m (a + 12) 4" if "16 \<le> unat (peek32 m a)"
    using that by (intro mapped_sub [OF assms(1)]) auto
  moreover have "version < 1 \<longleftrightarrow> version = 0" "version > 1 \<longleftrightarrow> version \<noteq> 0 \<and> version \<noteq> 1"
    for version :: u32
    by (auto simp: word_nat word_unat_eq_iff)
  ultimately show ?thesis
    using assms(2,3)
    by (cases "peek32 m (a + 4) = 0"; cases "peek32 m (a + 4) = 1")
      (simp_all add: ValidateMessageHeader_def header_ok_def message_defs Let_def cpp_flag_bits
        expects_response_def is_response_def)
qed

lemma MessageHeaderValidator_accepts:
  assumes "placed m msg"
  shows "\<exists>r. MessageHeaderValidator_Validate dbg m msg = Inr r \<and> (r = NONE \<longleftrightarrow> accepted_header m msg)"
proof -
  define a n where "a = msg_data msg" and "n = unat (msg_num_bytes msg)"
  have pl: "8 dvd a" "mapped m a n" "a + n < 18446744073709551616"
    using assms by (simp_all add: placed_def a_def n_def)
  define bc where "bc = \<lparr>data_begin = of_nat a :: u64, data_end = of_nat (a + n),
    handle_begin = 0 :: u32, handle_end = 0 :: u32\<rparr>"
  have range: "InternalIsValidRange bc (of_nat a) (of_nat a + ucast k) \<longleftrightarrow> 0 < unat k \<and> unat k \<le> n"
    for k :: u32
    using pl by (subst IsValidRange_iff) (auto simp: bc_def unat_of_nat simp del: of_nat_add)
  have eq: "MessageHeaderValidator_Validate dbg m msg =
      bindR (ValidateStructHeaderAndClaimMemory m a bc) (\<lambda>(result, _).
      if result \<noteq> NONE then Inr result else ValidateMessageHeader m a)"
    using pl(3) unfolding MessageHeaderValidator_Validate_def bc_def a_def n_def
    by (simp add: BoundsChecker_new_eq)
  have hdr: "mapped m a 4" if "8 \<le> n" using that by (intro mapped_sub [OF pl(2)]) auto
  have refused: "\<not> header_ok m a n" if "n < 8 \<or> unat (peek32 m a) < 8 \<or> n < unat (peek32 m a)"
    using that header_ok_sizes [of m a n] by auto
  have checked: "ValidateMessageHeader m a = Inr NONE \<longleftrightarrow> header_ok m a n" "\<exists>r. ValidateMessageHeader m a = Inr r"
    if "8 \<le> unat (peek32 m a)" "unat (peek32 m a) \<le> n"
    using that ValidateMessageHeader_eq [of m a n] mapped_sub [OF pl(2), of a "unat (peek32 m a)"] by auto
  have "\<exists>r. MessageHeaderValidator_Validate dbg m msg = Inr r \<and> (r = NONE \<longleftrightarrow> header_ok m a n)"
    using pl(1) hdr refused checked range [of 8] range [of "peek32 m a"]
    by (cases "8 \<le> n"; cases "8 \<le> unat (peek32 m a)"; cases "unat (peek32 m a) \<le> n")
      (auto simp: eq IsValidRange_def ClaimMemory_def ValidateStructHeaderAndClaimMemory_def Let_def
        layout_defs load32_eq)
  then show ?thesis by (simp add: a_def n_def)
qed

text \<open>On an accepted header the flags tell the three kinds apart, in both libraries.\<close>

lemma cpp_kinds:
  assumes "mapped m (msg_data msg + 12) 4"
  shows "ValidateMessageIsRequestWithoutResponse m msg = Inr NONE \<longleftrightarrow>
      \<not> expects_response m (msg_data msg) \<and> \<not> is_response m (msg_data msg)"
    and "ValidateMessageIsRequestExpectingResponse m msg = Inr NONE \<longleftrightarrow>
      expects_response m (msg_data msg) \<and> \<not> is_response m (msg_data msg)"
    and "ValidateMessageIsResponse m msg = Inr NONE \<longleftrightarrow>
      \<not> expects_response m (msg_data msg) \<and> is_response m (msg_data msg)"
  using assms by (auto simp: ValidateMessageIsRequestWithoutResponse_def
      ValidateMessageIsRequestExpectingResponse_def ValidateMessageIsResponse_def has_flag_def
      load32_eq cpp_flag_bits expects_response_def is_response_def)

lemma c_kinds:
  assumes "mapped m (a + 12) 4"
  shows "MojomMessage_ValidateRequestWithoutResponse m a = Inr VALIDATION_ERROR_NONE \<longleftrightarrow>
      \<not> expects_response m a \<and> \<not> is_response m a"
    and "MojomMessage_ValidateRequestExpectingResponse m a = Inr VALIDATION_ERROR_NONE \<longleftrightarrow>
      expects_response m a"
    and "MojomMessage_ValidateResponse m a = Inr VALIDATION_ERROR_NONE \<longleftrightarrow> is_response m a"
  using assms by (auto simp: MojomMessage_ValidateRequestWithoutResponse_def
      MojomMessage_ValidateRequestExpectingResponse_def MojomMessage_ValidateResponse_def
      message_defs flag_bits expects_response_def is_response_def)

text \<open>
  Claim C26. The C and the C++ library accept the same message headers: on a message in memory as \<^verbatim>\<open>malloc\<close>
  returns it, whatever its bytes are, \<^verbatim>\<open>MessageHeaderValidator::Validate\<close> returns without a bad access
  or failed check, accepts exactly when \<^verbatim>\<open>MojomMessage_ValidateHeader\<close> does, and then the three kind
  checks of one library agree with those of the other.
\<close>

theorem header_validators_agree:
  assumes "placed m msg"
  shows "\<exists>r. MessageHeaderValidator_Validate dbg m msg = Inr r \<and>
    (r = NONE \<longleftrightarrow>
       MojomMessage_ValidateHeader m (msg_data msg) (msg_num_bytes msg) = Inr VALIDATION_ERROR_NONE) \<and>
    (r = NONE \<longrightarrow>
       map (\<lambda>check. check m msg = Inr NONE) [ValidateMessageIsRequestWithoutResponse,
         ValidateMessageIsRequestExpectingResponse, ValidateMessageIsResponse] =
       map (\<lambda>check. check m (msg_data msg) = Inr VALIDATION_ERROR_NONE)
         [MojomMessage_ValidateRequestWithoutResponse,
          MojomMessage_ValidateRequestExpectingResponse, MojomMessage_ValidateResponse])"
proof -
  obtain r where r: "MessageHeaderValidator_Validate dbg m msg = Inr r" "r = NONE \<longleftrightarrow> accepted_header m msg"
    using MessageHeaderValidator_accepts [OF assms] by blast
  moreover have "MojomMessage_ValidateHeader m (msg_data msg) (msg_num_bytes msg) =
      Inr VALIDATION_ERROR_NONE \<longleftrightarrow> accepted_header m msg"
    using ValidateHeader_accepts [of m "msg_data msg" "msg_num_bytes msg"] assms
    by (auto simp: placed_def)
  moreover have "mapped m (msg_data msg + 12) 4" if "accepted_header m msg"
    using header_ok_sizes(1) [OF that] assms by (auto simp: placed_def elim!: mapped_sub)
  moreover have "\<not> (expects_response m (msg_data msg) \<and> is_response m (msg_data msg))"
    if "accepted_header m msg"
    using that by (auto simp: header_ok_def Let_def)
  ultimately show ?thesis by (auto simp: cpp_kinds c_kinds)
qed

theorem header_validators_agree_witness:
  "MessageHeaderValidator_Validate True sample_request
     \<lparr>msg_num_bytes = 24, msg_data = 64, msg_handles = []\<rparr> = Inr NONE \<and>
   MojomMessage_ValidateHeader sample_request 64 24 = Inr VALIDATION_ERROR_NONE"
proof -
  let ?msg = "\<lparr>msg_num_bytes = 24, msg_data = 64, msg_handles = []\<rparr>"
  have "placed sample_request ?msg" by (simp add: placed_def sample_request_def mapped_mem_of)
  from header_validators_agree [OF this, of True]
  obtain r where "MessageHeaderValidator_Validate True sample_request ?msg = Inr r"
    "r = NONE \<longleftrightarrow> MojomMessage_ValidateHeader sample_request 64 24 = Inr VALIDATION_ERROR_NONE" by auto
  moreover have "MojomMessage_ValidateHeader sample_request 64 24 = Inr VALIDATION_ERROR_NONE"
    by code_simp
  ultimately show ?thesis by simp
qed

end
