(* ===== verification/Cpp_Framing.thy ===== *)
theory Cpp_Framing
  imports Cpp_Message
begin

text \<open>
  Outgoing messages of the C++ library: the three message builders write headers that the header
  validators of both libraries accept, and that read back as they were written.
\<close>

section \<open>What the builders write\<close>

lemma peek32_poke_other:
  "b + 4 \<le> a \<or> a + length bs \<le> b \<Longrightarrow> peek32 (poke m a bs) b = peek32 m b"
  by (rule agree_peek32) (rule agree_poke)

lemma mapped_calloc: "a \<noteq> 0 \<Longrightarrow> mapped (calloc m a n) b k \<longleftrightarrow> (\<forall>x. b \<le> x \<longrightarrow> x < b + k \<longrightarrow> a \<le> x \<and> x < a + n \<or> m x \<noteq> None)"
  by (auto simp: mapped_iff_range calloc_def)

text \<open>
  A message \<open>msg\<close> framed in the block at \<open>a\<close> of a memory that was \<open>m0\<close>: both libraries accept its
  header, which names the method and has \<open>h\<close> bytes, a zeroed payload of the size asked for, rounded
  up, follows it, and nothing outside the block changed.
\<close>

definition framed :: "bool \<Rightarrow> mem \<Rightarrow> addr \<Rightarrow> nat \<Rightarrow> u32 \<Rightarrow> u64 \<Rightarrow> mem \<Rightarrow> Message \<Rightarrow> bool" where
  "framed dbg m0 a h name payload_size m msg \<longleftrightarrow>
     MessageHeaderValidator_Validate dbg m msg = Inr NONE \<and>
     MojomMessage_ValidateHeader m (msg_data msg) (msg_num_bytes msg) = Inr VALIDATION_ERROR_NONE \<and>
     Message_name m msg = Inr name \<and> msg_handles msg = [] \<and>
     payload m msg = Inr (a + h) \<and>
     payload_num_bytes dbg m msg = Inr (of_nat (round8 (unat payload_size))) \<and>
     (\<forall>x. a + h \<le> x \<longrightarrow> x < a + h + round8 (unat payload_size) \<longrightarrow> m x = Some 0) \<and>
     (\<forall>x. x < a \<or> a + h + round8 (unat payload_size) \<le> x \<longrightarrow> m x = m0 x)"

definition room_for :: "addr \<Rightarrow> nat \<Rightarrow> u64 \<Rightarrow> bool" where
  "room_for a h payload_size \<longleftrightarrow> a \<noteq> 0 \<and> 8 dvd a \<and> h + unat payload_size + 7 < 4294967296 \<and>
     a + h + unat payload_size + 7 < 18446744073709551616"

lemma round8_add: "8 dvd h \<Longrightarrow> round8 (h + n) = h + round8 n"
  by (auto simp: round8_def dvd_def add.assoc)

lemma ucast_of_nat_u32_u64:
  assumes "n < 4294967296"
  shows "ucast (of_nat n :: u64) = (of_nat n :: u32)" "ucast (of_nat n :: u32) = (of_nat n :: u64)"
  using assms by (simp_all add: word_unat_eq_iff unat_ucast_u64_u32 unat_of_nat)

lemma Initialize_eq:
  assumes "room_for a h psz" "8 dvd h"
  shows "MessageBuilder_Initialize dbg a (of_nat h + psz) m = Inr (calloc m a (h + round8 (unat psz)),
    \<lparr>builder_message = \<lparr>msg_num_bytes = of_nat (h + round8 (unat psz)), msg_data = a, msg_handles = []\<rparr>,
     builder_buf = \<lparr>fb_ptr = a, fb_cursor = 0, fb_size = of_nat (h + round8 (unat psz))\<rparr>\<rparr>)"
proof -
  define n where "n = h + round8 (unat psz)"
  have h: "unat (of_nat h + psz) = h + unat psz"
    using assms by (simp add: room_for_def unat_word_ariths(1) unat_of_nat)
  have le: "n < 4294967296"
    using assms round8_bounds [of "h + unat psz"] by (simp add: room_for_def n_def round8_add)
  have "unat (Align (of_nat h + psz)) = n"
    using le assms(2) by (simp add: unat_Align h round8_add n_def)
  then have "Align (of_nat h + psz) = of_nat n" using le by (simp add: word_unat_eq_iff unat_of_nat)
  with le show ?thesis
    unfolding n_def [symmetric]
    by (simp add: MessageBuilder_Initialize_def Message_AllocData_def Message_new_def
        FixedBuffer_Initialize_def ucast_of_nat_u32_u64 unat_of_nat)
qed

text \<open>The header is the first object allocated in the block.\<close>

lemma Allocate_header_eq:
  assumes "room_for a h psz" "8 dvd h" "0 < h"
    and "b = \<lparr>builder_message = msg, builder_buf =
      \<lparr>fb_ptr = a, fb_cursor = 0, fb_size = of_nat (h + round8 (unat psz))\<rparr>\<rparr>"
    and "mapped m a 4"
  shows "Allocate_header dbg h (m, b) =
    Inr (a, poke m a (bytes_of_word 4 (of_nat h :: u32)), b\<lparr>builder_buf := (builder_buf b)\<lparr>fb_cursor := of_nat h\<rparr>\<rparr>)"
proof -
  define n where "n = h + round8 (unat psz)"
  have n: "n < 4294967296"
    using assms round8_bounds [of "h + unat psz"] by (simp add: room_for_def n_def round8_add)
  have "round8 h = h" using assms(2) round8_add [of h 0] by (simp add: round8_def)
  then have "unat (Align (of_nat h)) = h"
    using n by (simp add: unat_Align unat_of_nat n_def)
  then have al: "Align (of_nat h) = of_nat h" using n by (simp add: word_unat_eq_iff unat_of_nat n_def)
  have buf: "builder_buf b = \<lparr>fb_ptr = a, fb_cursor = 0, fb_size = of_nat n\<rparr>" by (simp add: assms(4) n_def)
  have "h \<le> n" by (simp add: n_def)
  then have fits: "fixed_buffer_fits (builder_buf b) (of_nat h)"
    using n assms(3) unfolding fixed_buffer_fits_def al buf by (auto simp: unat_of_nat word_unat_eq_iff)
  show ?thesis
    using fits assms(5) by (simp add: Allocate_header_def FixedBuffer_Allocate_cases buf al store32_eq)
qed

lemma framedI:
  assumes room: "room_for a h psz" and msg: "msg = \<lparr>msg_num_bytes = of_nat (h + round8 (unat psz)), msg_data = a, msg_handles = []\<rparr>"
    and mapped: "mapped m a (h + round8 (unat psz))" and ok: "header_ok m a (h + round8 (unat psz))"
    and fields: "unat (peek32 m a) = h" "peek32 m (a + 8) = name"
    and outside: "\<And>x. x < a \<or> a + h \<le> x \<Longrightarrow> m x = calloc m0 a (h + round8 (unat psz)) x"
  shows "framed dbg m0 a h name psz m msg"
proof -
  have n: "unat (msg_num_bytes msg) = h + round8 (unat psz)"
    using room round8_bounds [of "unat psz"] by (simp add: msg room_for_def unat_of_nat del: of_nat_add)
  have "placed m msg" using room mapped n round8_bounds [of "unat psz"] by (simp add: placed_def room_for_def) (simp add: msg)
  moreover have "accepted_header m msg" using ok n by (simp add: msg del: of_nat_add)
  moreover have "16 \<le> h" using header_ok_sizes(2) [OF ok] fields by simp
  then have "mapped m a 4" "mapped m (a + 8) 4" by (auto intro: mapped_sub [OF mapped])
  moreover have "of_nat h = peek32 m a" using fields(1) by (metis of_nat_unat ucast_id)
  moreover have "\<exists>r. MojomMessage_ValidateHeader m a (msg_num_bytes msg) = Inr r \<and> (r = VALIDATION_ERROR_NONE \<longleftrightarrow> accepted_header m msg)"
    using ValidateHeader_accepts [of m a "msg_num_bytes msg"] mapped n by (simp add: msg)
  moreover have "peek32 m a \<le> msg_num_bytes msg" using n fields by (simp add: word_le_nat_alt)
  ultimately show ?thesis
    using MessageHeaderValidator_accepts [of m msg dbg] fields outside room
    by (auto simp: framed_def calloc_def room_for_def Message_name_def payload_def payload_num_bytes_def load32_eq layout_defs msg)
qed


lemma header_ok_built:
  assumes "peek32 m a = (if v = 0 then 16 else 24)" "peek32 m (a + 4) = v" "v = 0 \<or> v = 1"
    "peek32 m (a + 12) = flags" "unat (peek32 m a) \<le> n"
    "v = 0 \<longrightarrow> flags = 0" "\<not> (bit flags 0 \<and> bit flags 1)"
  shows "header_ok m a n"
  using assms by (auto simp: header_ok_def Let_def expects_response_def is_response_def)

lemma MessageBuilder_new_framed:
  assumes "room_for a 16 psz"
  shows "\<exists>m' b. MessageBuilder_new dbg a name psz m = Inr (m', b) \<and>
    framed dbg m a 16 name psz m' (builder_message b) \<and> msg_data (builder_message b) = a \<and>
    mapped m' (a + 12) 4 \<and> peek32 m' (a + 12) = 0"
proof -
  define n where "n = 16 + round8 (unat psz)"
  let ?m0 = "calloc m a n"
  let ?m' = "poke (poke (poke (poke ?m0 a (bytes_of_word 4 (16 :: u32))) (a + 4) (bytes_of_word 4 (0 :: u32)))
    (a + 8) (bytes_of_word 4 name)) (a + 12) (bytes_of_word 4 (0 :: u32))"
  have a: "a \<noteq> 0" using assms by (simp add: room_for_def)
  have blk: "mapped ?m0 b k" if "a \<le> b" "b + k \<le> a + n" for b k
    using that a by (auto simp: mapped_calloc)
  have "16 \<le> n" by (simp add: n_def)
  then have new: "MessageBuilder_new dbg a name psz m = Inr (?m', \<lparr>builder_message =
      \<lparr>msg_num_bytes = of_nat n, msg_data = a, msg_handles = []\<rparr>, builder_buf = \<lparr>fb_ptr = a, fb_cursor = 16, fb_size = of_nat n\<rparr>\<rparr>)"
    using Initialize_eq [OF assms, of dbg m] Allocate_header_eq [OF assms, of _ _ ?m0 dbg]
    by (simp add: MessageBuilder_new_def n_def [symmetric] store32_eq mapped_poke blk
        del: of_nat_add)
  have outside: "?m' x = ?m0 x" if "x < a \<or> a + 16 \<le> x" for x
    using that by (elim disjE) (simp_all add: poke_outside)
  have fields: "peek32 ?m' a = 16" "peek32 ?m' (a + 4) = 0" "peek32 ?m' (a + 8) = name"
    "peek32 ?m' (a + 12) = 0"
    by (simp_all add: peek32_poke_other)
  have mapped: "mapped ?m' b k" if "a \<le> b" "b + k \<le> a + n" for b k
    using that \<open>16 \<le> n\<close> by (simp add: mapped_poke blk)
  have "framed dbg m a 16 name psz ?m' \<lparr>msg_num_bytes = of_nat n, msg_data = a, msg_handles = []\<rparr>"
  proof (rule framedI [OF assms])
    show "header_ok ?m' a (16 + round8 (unat psz))"
      by (rule header_ok_built [of _ _ 0 0]) (simp_all only: fields, simp_all)
    show "?m' x = calloc m a (16 + round8 (unat psz)) x" if "x < a \<or> a + 16 \<le> x" for x
      using outside [OF that] by (simp only: n_def)
    show "mapped ?m' a (16 + round8 (unat psz))" by (rule mapped) (simp_all add: n_def)
  qed (simp only: n_def, simp_all only: fields, simp)
  with new fields mapped \<open>16 \<le> n\<close> show ?thesis by simp
qed

lemma MessageWithRequestIDBuilder_new_framed:
  assumes "room_for a 24 psz" and flags: "\<not> (bit flags 0 \<and> bit flags 1)"
  shows "\<exists>m' b. MessageWithRequestIDBuilder_new dbg a name psz flags rid m = Inr (m', b) \<and>
    framed dbg m a 24 name psz m' (builder_message b) \<and> msg_data (builder_message b) = a \<and>
    mapped m' a 24 \<and> peek32 m' (a + 12) = flags \<and> peek64 m' (a + 16) = rid \<and> peek32 m' (a + 4) = 1"
proof -
  define n where "n = 24 + round8 (unat psz)"
  let ?m0 = "calloc m a n"
  let ?m' = "poke (poke (poke (poke (poke ?m0 a (bytes_of_word 4 (24 :: u32))) (a + 4) (bytes_of_word 4 (1 :: u32)))
    (a + 8) (bytes_of_word 4 name)) (a + 12) (bytes_of_word 4 flags)) (a + 16) (bytes_of_word 8 rid)"
  have a: "a \<noteq> 0" using assms by (simp add: room_for_def)
  have blk: "mapped ?m0 b k" if "a \<le> b" "b + k \<le> a + n" for b k
    using that a by (auto simp: mapped_calloc)
  have "24 \<le> n" by (simp add: n_def)
  then have new: "MessageWithRequestIDBuilder_new dbg a name psz flags rid m = Inr (?m', \<lparr>builder_message =
      \<lparr>msg_num_bytes = of_nat n, msg_data = a, msg_handles = []\<rparr>, builder_buf = \<lparr>fb_ptr = a, fb_cursor = 24, fb_size = of_nat n\<rparr>\<rparr>)"
    using Initialize_eq [OF assms(1), of dbg m] Allocate_header_eq [OF assms(1), of _ _ ?m0 dbg]
    by (simp add: MessageWithRequestIDBuilder_new_def n_def [symmetric] store32_eq store64_eq mapped_poke blk
        del: of_nat_add)
  have outside: "?m' x = ?m0 x" if "x < a \<or> a + 24 \<le> x" for x
    using that by (elim disjE) (simp_all add: poke_outside)
  have fields: "peek32 ?m' a = 24" "peek32 ?m' (a + 4) = 1" "peek32 ?m' (a + 8) = name"
    "peek32 ?m' (a + 12) = flags" "peek64 ?m' (a + 16) = rid"
    by (simp_all add: peek32_poke_other)
  have mapped: "mapped ?m' b k" if "a \<le> b" "b + k \<le> a + n" for b k
    using that \<open>24 \<le> n\<close> by (simp add: mapped_poke blk)
  have "framed dbg m a 24 name psz ?m' \<lparr>msg_num_bytes = of_nat n, msg_data = a, msg_handles = []\<rparr>"
  proof (rule framedI [OF assms(1)])
    show "header_ok ?m' a (24 + round8 (unat psz))"
      by (rule header_ok_built [of _ _ 1 flags]) (use flags in \<open>simp_all only: fields, simp_all\<close>)
    show "?m' x = calloc m a (24 + round8 (unat psz)) x" if "x < a \<or> a + 24 \<le> x" for x
      using outside [OF that] by (simp only: n_def)
    show "mapped ?m' a (24 + round8 (unat psz))" by (rule mapped) (simp_all add: n_def)
  qed (simp only: n_def, simp_all only: fields, simp)
  with new fields mapped \<open>24 \<le> n\<close> show ?thesis by simp
qed

lemma request_id_eq:
  assumes "mapped m (msg_data msg) 24" "peek32 m (msg_data msg + 4) = 1"
  shows "request_id dbg m msg = Inr (peek64 m (msg_data msg + 16))"
proof -
  have "mapped m (msg_data msg + 4) 4" "mapped m (msg_data msg + 16) 8"
    by (rule mapped_sub [OF assms(1)]; simp)+
  with assms(2) show ?thesis
    by (simp add: request_id_def has_request_id_def layout_defs load32_eq load64_eq)
qed

lemma flag_values:
  "bit kMessageExpectsResponse 0" "\<not> bit kMessageExpectsResponse (Suc 0)"
  "\<not> bit kMessageIsResponse 0" "bit kMessageIsResponse (Suc 0)"
  by (simp_all add: kMessageExpectsResponse_def kMessageIsResponse_def bit_simps)

lemma RequestMessageBuilder_new_framed:
  assumes "room_for a 24 psz"
  shows "\<exists>m' b. RequestMessageBuilder_new dbg a name psz m = Inr (m', b) \<and>
    framed dbg m a 24 name psz m' (builder_message b) \<and>
    ValidateMessageIsRequestExpectingResponse m' (builder_message b) = Inr NONE \<and>
    request_id dbg m' (builder_message b) = Inr 0"
proof -
  obtain m' b where *: "RequestMessageBuilder_new dbg a name psz m = Inr (m', b)"
    "framed dbg m a 24 name psz m' (builder_message b)" "msg_data (builder_message b) = a" "mapped m' a 24"
    "peek32 m' (a + 12) = kMessageExpectsResponse" "peek64 m' (a + 16) = 0" "peek32 m' (a + 4) = 1"
    using MessageWithRequestIDBuilder_new_framed [OF assms, of kMessageExpectsResponse dbg name 0 m] flag_values
    unfolding RequestMessageBuilder_new_def by auto
  then have "mapped m' (a + 12) 4" by (auto elim!: mapped_sub)
  with * flag_values show ?thesis
    by (auto simp: cpp_kinds expects_response_def is_response_def request_id_eq)
qed

lemma ResponseMessageBuilder_new_framed:
  assumes "room_for a 24 psz"
  shows "\<exists>m' b. ResponseMessageBuilder_new dbg a name psz rid m = Inr (m', b) \<and>
    framed dbg m a 24 name psz m' (builder_message b) \<and>
    ValidateMessageIsResponse m' (builder_message b) = Inr NONE \<and>
    request_id dbg m' (builder_message b) = Inr rid"
proof -
  obtain m' b where *: "ResponseMessageBuilder_new dbg a name psz rid m = Inr (m', b)"
    "framed dbg m a 24 name psz m' (builder_message b)" "msg_data (builder_message b) = a" "mapped m' a 24"
    "peek32 m' (a + 12) = kMessageIsResponse" "peek64 m' (a + 16) = rid" "peek32 m' (a + 4) = 1"
    using MessageWithRequestIDBuilder_new_framed [OF assms, of kMessageIsResponse dbg name rid m] flag_values
    unfolding ResponseMessageBuilder_new_def by auto
  then have "mapped m' (a + 12) 4" by (auto elim!: mapped_sub)
  with * flag_values show ?thesis
    by (auto simp: cpp_kinds expects_response_def is_response_def request_id_eq)
qed



end
