(* ===== verification/Cpp_Connector.thy ===== *)
theory Cpp_Connector
  imports Cpp_Message
begin

text \<open>
  \<^verbatim>\<open>connector.cc\<close>: the \<^verbatim>\<open>Connector\<close> reads messages from a message pipe, hands them to its incoming
  receiver and writes outgoing messages. It lives inside a \<^verbatim>\<open>Router\<close> (next theory).

  The state is a \<open>world\<close>: the router object, which is \<^term>\<open>None\<close> once it is destroyed, so that every
  later access to a member is a \<^term>\<open>BadAccess\<close>; the local variables \<^verbatim>\<open>was_destroyed_during_dispatch\<close> of
  the calls of \<^verbatim>\<open>ReadSingleMessage\<close> that are active, innermost last; the asynchronous waits the waiter
  holds; the results that the system calls are going to return; and a log of events.

  The code that uses the bindings runs inside the calls of its callbacks. It is the argument
  \<open>client\<close>, a function on the world: it may call any operation of the router again, and destroy it.
\<close>

section \<open>Results of system calls\<close>

definition MOJO_RESULT_MAKE :: "u32 \<Rightarrow> u32 \<Rightarrow> u32 \<Rightarrow> u32" where
  "MOJO_RESULT_MAKE base_error_code error_space error_subcode =
     base_error_code OR push_bit 16 error_space OR push_bit 4 error_subcode"

definition MOJO_RESULT_OK :: u32 where "MOJO_RESULT_OK = MOJO_RESULT_MAKE 0 0 0"

definition MOJO_SYSTEM_RESULT_INVALID_ARGUMENT :: u32 where
  "MOJO_SYSTEM_RESULT_INVALID_ARGUMENT = MOJO_RESULT_MAKE 0x3 0 0"

definition MOJO_SYSTEM_RESULT_DEADLINE_EXCEEDED :: u32 where
  "MOJO_SYSTEM_RESULT_DEADLINE_EXCEEDED = MOJO_RESULT_MAKE 0x4 0 0"

definition MOJO_SYSTEM_RESULT_RESOURCE_EXHAUSTED :: u32 where
  "MOJO_SYSTEM_RESULT_RESOURCE_EXHAUSTED = MOJO_RESULT_MAKE 0x8 0 0"

definition MOJO_SYSTEM_RESULT_FAILED_PRECONDITION :: u32 where
  "MOJO_SYSTEM_RESULT_FAILED_PRECONDITION = MOJO_RESULT_MAKE 0x9 0 0"

definition MOJO_SYSTEM_RESULT_BUSY :: u32 where
  "MOJO_SYSTEM_RESULT_BUSY = MOJO_RESULT_MAKE 0x9 0 1"

definition MOJO_SYSTEM_RESULT_SHOULD_WAIT :: u32 where
  "MOJO_SYSTEM_RESULT_SHOULD_WAIT = MOJO_RESULT_MAKE 0xE 0 1"

lemma result_values [simp]:
  "MOJO_RESULT_OK = 0x00" "MOJO_SYSTEM_RESULT_INVALID_ARGUMENT = 0x03"
  "MOJO_SYSTEM_RESULT_DEADLINE_EXCEEDED = 0x04" "MOJO_SYSTEM_RESULT_RESOURCE_EXHAUSTED = 0x08"
  "MOJO_SYSTEM_RESULT_FAILED_PRECONDITION = 0x09"
  "MOJO_SYSTEM_RESULT_BUSY = 0x19" "MOJO_SYSTEM_RESULT_SHOULD_WAIT = 0x1E"
  by code_simp+

section \<open>State\<close>

record Connector =
  message_pipe :: MojoHandle
  incoming_thunk :: bool
  async_wait_id :: u64
  conn_error :: bool
  drop_writes :: bool
  enforce_errors :: bool
  destroyed_flag :: "nat option"

record Router =
  connector :: Connector
  incoming_receiver :: bool
  responders :: "(u64 \<times> nat) list"
  next_request_id :: u64
  testing_mode :: bool

text \<open>Responders, the objects a client hands over with its requests, are numbers here.\<close>

datatype event =
    Written mem Message
  | PipeClosed MojoHandle
  | ErrorNotified
  | Registered u64 nat
  | Answered u64 nat
  | Dropped u64 nat
  | Deleted nat

datatype pipe_read = Incoming mem Message | ReadFails u32

record world =
  router :: "Router option"
  weak_self :: bool
  stack_flags :: "bool list"
  thunks :: "bool option list"
  waits :: "(u64 \<times> MojoHandle) list"
  waits_made :: nat
  waiter :: "nat \<Rightarrow> u64"
  reads :: "pipe_read list"
  writes :: "u32 list"
  wait_results :: "u32 list"
  event_log :: "event list"

datatype callback = OnMessage | OnRequest nat | OnResponse nat | OnError

type_synonym client_code = "callback \<Rightarrow> mem \<times> Message \<Rightarrow> world \<Rightarrow> (bool \<times> world) res"
type_synonym receiver = "mem \<times> Message \<Rightarrow> world \<Rightarrow> (bool \<times> world) res"

text \<open>Access to the object, and to its member \<^verbatim>\<open>connector_\<close>.\<close>

definition access :: "(Router \<Rightarrow> world \<Rightarrow> 'a res) \<Rightarrow> world \<Rightarrow> 'a res" where
  "access f w = (case router w of None \<Rightarrow> Inl BadAccess | Some r \<Rightarrow> f r w)"

definition on_connector :: "(Connector \<Rightarrow> world \<Rightarrow> 'a res) \<Rightarrow> world \<Rightarrow> 'a res" where
  "on_connector f = access (\<lambda>r. f (connector r))"

definition set_connector :: "Connector \<Rightarrow> world \<Rightarrow> world" where
  "set_connector c w = w\<lparr>router := map_option (\<lambda>r. r\<lparr>connector := c\<rparr>) (router w)\<rparr>"

definition emit :: "event \<Rightarrow> world \<Rightarrow> world" where
  "emit e w = w\<lparr>event_log := event_log w @ [e]\<rparr>"

section \<open>The system\<close>

text \<open>
  What the documentation of the system promises. A handle must not be closed while a wait on it is
  outstanding, and only an outstanding wait may be cancelled: breaking either is a \<^term>\<open>BadAccess\<close>. An
  invalid handle is an invalid argument. Apart from that a call returns the next result of its list;
  at the end of the list there is nothing to read, a write succeeds and a wait runs out of time. The
  identifier of the \<open>n\<close>th asynchronous wait is \<open>waiter w n\<close>.
\<close>

definition MojoClose_pipe :: "MojoHandle \<Rightarrow> world \<Rightarrow> world res" where
  "MojoClose_pipe h w =
     (if h = MOJO_HANDLE_INVALID then Inr w
      else if h \<in> snd ` set (waits w) then Inl BadAccess
      else Inr (emit (PipeClosed h) w))"

definition waiter_AsyncWait :: "MojoHandle \<Rightarrow> world \<Rightarrow> u64 \<times> world" where
  "waiter_AsyncWait h w =
     (let i = waiter w (waits_made w) in
      (i, w\<lparr>waits := (i, h) # waits w, waits_made := Suc (waits_made w)\<rparr>))"

definition waiter_CancelWait :: "u64 \<Rightarrow> world \<Rightarrow> world res" where
  "waiter_CancelWait i w =
     (if i \<in> fst ` set (waits w) then Inr (w\<lparr>waits := filter (\<lambda>(j, _). j \<noteq> i) (waits w)\<rparr>)
      else Inl BadAccess)"

definition WriteMessageRaw :: "mem \<Rightarrow> Message \<Rightarrow> world \<Rightarrow> u32 \<times> world" where
  "WriteMessageRaw m msg w =
     (case writes w of
        [] \<Rightarrow> (MOJO_RESULT_OK, emit (Written m msg) w)
      | rv # rvs \<Rightarrow> (rv, (if rv = MOJO_RESULT_OK then emit (Written m msg) w else w)\<lparr>writes := rvs\<rparr>))"

definition Wait_readable :: "MojoHandle \<Rightarrow> world \<Rightarrow> u32 \<times> world" where
  "Wait_readable h w =
     (if h = MOJO_HANDLE_INVALID then (MOJO_SYSTEM_RESULT_INVALID_ARGUMENT, w)
      else case wait_results w of
        [] \<Rightarrow> (MOJO_SYSTEM_RESULT_DEADLINE_EXCEEDED, w)
      | rv # rvs \<Rightarrow> (rv, w\<lparr>wait_results := rvs\<rparr>))"

text \<open>
  A read with no room for the message reports its size and leaves it in the pipe, unless the message is
  empty; a read with room takes it out, into the memory that is given with it.
\<close>

definition empty_message :: "Message \<Rightarrow> bool" where
  "empty_message msg \<longleftrightarrow> msg_num_bytes msg = 0 \<and> msg_handles msg = []"

definition ReadMessageRaw_size :: "MojoHandle \<Rightarrow> world \<Rightarrow> u32 \<times> world" where
  "ReadMessageRaw_size h w =
     (if h = MOJO_HANDLE_INVALID then (MOJO_SYSTEM_RESULT_INVALID_ARGUMENT, w)
      else case reads w of
        [] \<Rightarrow> (MOJO_SYSTEM_RESULT_SHOULD_WAIT, w)
      | ReadFails rv # rs \<Rightarrow> (rv, w\<lparr>reads := rs\<rparr>)
      | Incoming m msg # rs \<Rightarrow>
          if empty_message msg then (MOJO_RESULT_OK, w\<lparr>reads := rs\<rparr>)
          else (MOJO_SYSTEM_RESULT_RESOURCE_EXHAUSTED, w))"

definition ReadMessageRaw :: "MojoHandle \<Rightarrow> world \<Rightarrow> (u32 \<times> mem \<times> Message) \<times> world" where
  "ReadMessageRaw h w =
     (if h = MOJO_HANDLE_INVALID
      then ((MOJO_SYSTEM_RESULT_INVALID_ARGUMENT, Map.empty, Message_new), w)
      else case reads w of
        [] \<Rightarrow> ((MOJO_SYSTEM_RESULT_SHOULD_WAIT, Map.empty, Message_new), w)
      | ReadFails rv # rs \<Rightarrow> ((rv, Map.empty, Message_new), w\<lparr>reads := rs\<rparr>)
      | Incoming m msg # rs \<Rightarrow> ((MOJO_RESULT_OK, m, msg), w\<lparr>reads := rs\<rparr>))"

section \<open>Reading a message\<close>

text \<open>What was read is the message together with the memory that holds its data.\<close>

definition ReadMessage :: "bool \<Rightarrow> MojoHandle \<Rightarrow> world \<Rightarrow> ((u32 \<times> mem \<times> Message) \<times> world) res" where
  "ReadMessage dbg h w =
     MOJO_DCHECK dbg (h \<noteq> MOJO_HANDLE_INVALID) (
     case ReadMessageRaw_size h w of
       (rv, w) \<Rightarrow>
         if rv \<noteq> MOJO_SYSTEM_RESULT_RESOURCE_EXHAUSTED then Inr ((rv, Map.empty, Message_new), w)
         else Inr (ReadMessageRaw h w))"

definition ReadAndDispatchMessage ::
  "bool \<Rightarrow> MojoHandle \<Rightarrow> receiver option \<Rightarrow> world \<Rightarrow> ((u32 \<times> bool) \<times> world) res"
where
  "ReadAndDispatchMessage dbg h rcv w =
     bindR (ReadMessage dbg h w) (\<lambda>((rv, m, msg), w).
     case rcv of
       None \<Rightarrow> Inr ((rv, False), w)
     | Some accept \<Rightarrow>
         if rv = MOJO_RESULT_OK then bindR (accept (m, msg) w) (\<lambda>(result, w). Inr ((rv, result), w))
         else Inr ((rv, False), w))"

section \<open>Operations of the Connector\<close>

definition CancelWait :: "world \<Rightarrow> world res" where
  "CancelWait = on_connector (\<lambda>c w.
     if async_wait_id c = 0 then Inr w
     else bindR (waiter_CancelWait (async_wait_id c) w) (\<lambda>w.
          Inr (set_connector (c\<lparr>async_wait_id := 0\<rparr>) w)))"

definition CloseMessagePipe :: "world \<Rightarrow> world res" where
  "CloseMessagePipe w =
     bindR (CancelWait w) (on_connector (\<lambda>c w.
     MojoClose_pipe (message_pipe c) (set_connector (c\<lparr>message_pipe := MOJO_HANDLE_INVALID\<rparr>) w)))"

definition PassMessagePipe :: "world \<Rightarrow> (MojoHandle \<times> world) res" where
  "PassMessagePipe w =
     bindR (CancelWait w) (on_connector (\<lambda>c w.
     Inr (message_pipe c, set_connector (c\<lparr>message_pipe := MOJO_HANDLE_INVALID\<rparr>) w)))"

definition WaitToReadMore :: "world \<Rightarrow> world res" where
  "WaitToReadMore = on_connector (\<lambda>c w.
     assertC (async_wait_id c = 0) (
     case waiter_AsyncWait (message_pipe c) w of
       (i, w) \<Rightarrow> Inr (set_connector (c\<lparr>async_wait_id := i\<rparr>) w)))"

definition NotifyError :: "client_code \<Rightarrow> world \<Rightarrow> world res" where
  "NotifyError client = on_connector (\<lambda>c w.
     bindR (CloseMessagePipe (set_connector (c\<lparr>conn_error := True\<rparr>) w)) (\<lambda>w.
     bindR (client OnError (Map.empty, Message_new) (emit ErrorNotified w)) (\<lambda>(_, w). Inr w)))"

definition Connector_Accept :: "mem \<Rightarrow> Message \<Rightarrow> world \<Rightarrow> ((bool \<times> Message) \<times> world) res" where
  "Connector_Accept m msg = on_connector (\<lambda>c w.
     if conn_error c then Inr ((False, msg), w)
     else assertC (message_pipe c \<noteq> MOJO_HANDLE_INVALID) (
     if drop_writes c then Inr ((True, msg), w)
     else case WriteMessageRaw m msg w of
       (rv, w) \<Rightarrow>
         if rv = MOJO_RESULT_OK then Inr ((True, msg\<lparr>msg_handles := []\<rparr>), w)
         else if rv = MOJO_SYSTEM_RESULT_FAILED_PRECONDITION
         then Inr ((True, msg), set_connector (c\<lparr>drop_writes := True\<rparr>) w)
         else assertC (rv \<noteq> MOJO_SYSTEM_RESULT_BUSY) (Inr ((False, msg), w))))"

text \<open>
  \<^verbatim>\<open>ReadSingleMessage\<close> returns whether reading may go on, and the result of the read. The flag its
  frame keeps on the stack is set by the destructor, through \<^verbatim>\<open>destroyed_flag_\<close>.
\<close>

definition ReadSingleMessage ::
  "bool \<Rightarrow> receiver \<Rightarrow> client_code \<Rightarrow> world \<Rightarrow> ((bool \<times> u32) \<times> world) res"
where
  "ReadSingleMessage dbg thunk client = on_connector (\<lambda>c w.
     let previous_destroyed_flag = destroyed_flag c;
         was_destroyed = length (stack_flags w);
         w = set_connector (c\<lparr>destroyed_flag := Some was_destroyed\<rparr>)
               (w\<lparr>stack_flags := stack_flags w @ [False]\<rparr>) in
     bindR (ReadAndDispatchMessage dbg (message_pipe c)
       (if incoming_thunk c then Some thunk else None) w) (\<lambda>((rv, receiver_result), w).
     let destroyed = stack_flags w ! was_destroyed;
         w = w\<lparr>stack_flags := take was_destroyed (stack_flags w)\<rparr> in
     if destroyed then
       Inr ((False, rv), case previous_destroyed_flag of
         None \<Rightarrow> w
       | Some f \<Rightarrow> w\<lparr>stack_flags := (stack_flags w)[f := True]\<rparr>)
     else on_connector (\<lambda>c w.
       let w = set_connector (c\<lparr>destroyed_flag := previous_destroyed_flag\<rparr>) w in
       if rv = MOJO_SYSTEM_RESULT_SHOULD_WAIT then Inr ((True, rv), w)
       else if rv \<noteq> MOJO_RESULT_OK \<or> enforce_errors c \<and> \<not> receiver_result
       then bindR (NotifyError client w) (\<lambda>w. Inr ((False, rv), w))
       else Inr ((True, rv), w)) w))"

text \<open>The loop ends when the pipe has no more messages; the first argument bounds its rounds.\<close>

primrec ReadAllAvailableMessages ::
  "nat \<Rightarrow> bool \<Rightarrow> receiver \<Rightarrow> client_code \<Rightarrow> world \<Rightarrow> world res"
where
  "ReadAllAvailableMessages 0 dbg thunk client = (\<lambda>w. Inl OutOfFuel)"
| "ReadAllAvailableMessages (Suc n) dbg thunk client = on_connector (\<lambda>c w.
     if conn_error c then Inr w
     else bindR (ReadSingleMessage dbg thunk client w) (\<lambda>((again, rv), w).
     if \<not> again then Inr w
     else if rv = MOJO_SYSTEM_RESULT_SHOULD_WAIT then WaitToReadMore w
     else ReadAllAvailableMessages n dbg thunk client w))"

definition OnHandleReady ::
  "nat \<Rightarrow> bool \<Rightarrow> receiver \<Rightarrow> client_code \<Rightarrow> u32 \<Rightarrow> world \<Rightarrow> world res"
where
  "OnHandleReady n dbg thunk client result = on_connector (\<lambda>c w.
     assertC (async_wait_id c \<noteq> 0) (
     let w = set_connector (c\<lparr>async_wait_id := 0\<rparr>) w in
     if result \<noteq> MOJO_RESULT_OK then NotifyError client w
     else ReadAllAvailableMessages n dbg thunk client w))"

definition WaitForIncomingMessage ::
  "bool \<Rightarrow> receiver \<Rightarrow> client_code \<Rightarrow> world \<Rightarrow> (bool \<times> world) res"
where
  "WaitForIncomingMessage dbg thunk client = on_connector (\<lambda>c w.
     if conn_error c then Inr (False, w)
     else case Wait_readable (message_pipe c) w of
       (rv, w) \<Rightarrow>
         if rv = MOJO_SYSTEM_RESULT_SHOULD_WAIT \<or> rv = MOJO_SYSTEM_RESULT_DEADLINE_EXCEEDED
         then Inr (False, w)
         else if rv \<noteq> MOJO_RESULT_OK
         then bindR (NotifyError client w) (\<lambda>w. Inr (False, w))
         else bindR (ReadSingleMessage dbg thunk client w) (\<lambda>((_, rv), w).
              Inr (rv = MOJO_RESULT_OK, w)))"

text \<open>The constructor, and the destructor with that of the member \<^verbatim>\<open>message_pipe_\<close>.\<close>

definition Connector_new :: "MojoHandle \<Rightarrow> Connector" where
  "Connector_new h = \<lparr>message_pipe = h, incoming_thunk = False, async_wait_id = 0, conn_error = False,
     drop_writes = False, enforce_errors = True, destroyed_flag = None\<rparr>"

definition Connector_destroy :: "world \<Rightarrow> world res" where
  "Connector_destroy = on_connector (\<lambda>c w.
     let w = (case destroyed_flag c of
                None \<Rightarrow> w
              | Some f \<Rightarrow> w\<lparr>stack_flags := (stack_flags w)[f := True]\<rparr>) in
     bindR (CancelWait w) (MojoClose_pipe (message_pipe c)))"

end
