(* ===== verification/Cpp_Router.thy ===== *)
theory Cpp_Router
  imports Cpp_Connector
begin

text \<open>
  \<^verbatim>\<open>router.cc\<close>: the \<^verbatim>\<open>Router\<close> sends requests with fresh identifiers, keeps the responder of each until
  its response arrives, and passes incoming requests to the client together with a \<^verbatim>\<open>ResponderThunk\<close>
  through which the client answers. The last section closes the loop between the library and its
  client: a client is a script of calls for each callback, run with the router's operations.
\<close>

section \<open>Operations\<close>

definition set_router :: "(Router \<Rightarrow> Router) \<Rightarrow> world \<Rightarrow> world" where
  "set_router f w = w\<lparr>router := map_option f (router w)\<rparr>"

definition Router_Accept :: "bool \<Rightarrow> mem \<Rightarrow> Message \<Rightarrow> world \<Rightarrow> ((bool \<times> Message) \<times> world) res" where
  "Router_Accept dbg m msg = access (\<lambda>r w.
     bindR (if dbg then has_flag m msg kMessageExpectsResponse else Inr False) (\<lambda>expects.
     MOJO_DCHECK dbg (\<not> expects) (Connector_Accept m msg w)))"

text \<open>Identifiers count up from 1; 0 is skipped.\<close>

definition next_id :: "u64 \<Rightarrow> u64 \<times> u64" where
  "next_id n = (if n = 0 then (n + 1, n + 1 + 1) else (n, n + 1))"

definition AcceptWithResponder ::
  "bool \<Rightarrow> mem \<Rightarrow> Message \<Rightarrow> nat \<Rightarrow> world \<Rightarrow> ((bool \<times> mem \<times> Message) \<times> world) res"
where
  "AcceptWithResponder dbg m msg responder = access (\<lambda>r w.
     bindR (if dbg then has_flag m msg kMessageExpectsResponse else Inr True) (\<lambda>expects.
     MOJO_DCHECK dbg expects (
     case next_id (next_request_id r) of
       (rid, next) \<Rightarrow>
         bindR (set_request_id dbg m msg rid) (\<lambda>m.
         bindR (Connector_Accept m msg (set_router (\<lambda>r. r\<lparr>next_request_id := next\<rparr>) w))
           (\<lambda>((ok, msg), w).
         if \<not> ok then Inr ((False, m, msg), w)
         else access (\<lambda>r w.
           Inr ((True, m, msg),
             emit (Registered rid responder) (set_router (\<lambda>r. r\<lparr>responders :=
               (rid, responder) # filter (\<lambda>(i, _). i \<noteq> rid) (responders r)\<rparr>) w))) w)))))"

definition EnableTestingMode :: "world \<Rightarrow> world res" where
  "EnableTestingMode = access (\<lambda>r w.
     Inr (set_router (\<lambda>r. r\<lparr>testing_mode := True,
       connector := (connector r)\<lparr>enforce_errors := False\<rparr>\<rparr>) w))"

definition set_incoming_receiver :: "bool \<Rightarrow> world \<Rightarrow> world res" where
  "set_incoming_receiver b = access (\<lambda>r w. Inr (set_router (\<lambda>r. r\<lparr>incoming_receiver := b\<rparr>) w))"

subsection \<open>ResponderThunk\<close>

text \<open>
  The world has \<^verbatim>\<open>accept_was_invoked_\<close> of each thunk, \<^term>\<open>None\<close> once the thunk is deleted. Thunks share
  the cell \<^verbatim>\<open>weak_self_\<close>, which the destructor of the router empties.
\<close>

definition ResponderThunk_delete :: "nat \<Rightarrow> world \<Rightarrow> world res" where
  "ResponderThunk_delete t w =
     (case thunks w ! t of
        None \<Rightarrow> Inl BadAccess
      | Some accept_was_invoked \<Rightarrow>
          let w = w\<lparr>thunks := (thunks w)[t := None]\<rparr> in
          if \<not> accept_was_invoked \<and> weak_self w then CloseMessagePipe w else Inr w)"

definition ResponderThunk_Accept ::
  "bool \<Rightarrow> nat \<Rightarrow> mem \<Rightarrow> Message \<Rightarrow> world \<Rightarrow> (bool \<times> world) res"
where
  "ResponderThunk_Accept dbg t m msg w =
     (case thunks w ! t of
        None \<Rightarrow> Inl BadAccess
      | Some _ \<Rightarrow>
          let w = w\<lparr>thunks := (thunks w)[t := Some True]\<rparr> in
          bindR (if dbg then has_flag m msg kMessageIsResponse else Inr True) (\<lambda>response.
          MOJO_DCHECK dbg response (
          if weak_self w then bindR (Router_Accept dbg m msg w) (\<lambda>((result, _), w). Inr (result, w))
          else Inr (False, w))))"

definition ResponderThunk_IsValid :: "world \<Rightarrow> bool res" where
  "ResponderThunk_IsValid w =
     (if \<not> weak_self w then Inr False
      else on_connector (\<lambda>c w. Inr (\<not> conn_error c \<and> message_pipe c \<noteq> MOJO_HANDLE_INVALID)) w)"

subsection \<open>Incoming messages\<close>

definition HandleIncomingMessage :: "bool \<Rightarrow> MessageValidator list \<Rightarrow> client_code \<Rightarrow> receiver" where
  "HandleIncomingMessage dbg validators client mm = access (\<lambda>r w.
     case mm of (m, msg) \<Rightarrow>
     bindR (RunValidatorsOnMessage validators m msg) (\<lambda>result.
     if result \<noteq> NONE then Inr (False, w)
     else bindR (has_flag m msg kMessageExpectsResponse) (\<lambda>expects.
     if expects then
       if incoming_receiver r then
         let t = length (thunks w) in
         bindR (client (OnRequest t) mm (w\<lparr>thunks := thunks w @ [Some False]\<rparr>)) (\<lambda>(ok, w).
         if \<not> ok then bindR (ResponderThunk_delete t w) (\<lambda>w. Inr (ok, w)) else Inr (ok, w))
       else bindR (CloseMessagePipe w) (\<lambda>w. Inr (False, w))
     else bindR (has_flag m msg kMessageIsResponse) (\<lambda>response.
     if response then
       bindR (request_id dbg m msg) (\<lambda>rid.
       case map_of (responders r) rid of
         None \<Rightarrow> MOJO_DCHECK dbg (testing_mode r) (Inr (False, w))
       | Some responder \<Rightarrow>
           let w = emit (Answered rid responder)
             (set_router (\<lambda>r. r\<lparr>responders := filter (\<lambda>(i, _). i \<noteq> rid) (responders r)\<rparr>) w) in
           bindR (client (OnResponse responder) mm w) (\<lambda>(ok, w).
           Inr (ok, emit (Deleted responder) w)))
     else if incoming_receiver r then client OnMessage mm w
     else Inr (False, w)))))"

subsection \<open>Construction and destruction\<close>

definition Router_new :: "MojoHandle \<Rightarrow> world \<Rightarrow> world res" where
  "Router_new h w =
     WaitToReadMore (w\<lparr>weak_self := True, router := Some \<lparr>
       connector = (Connector_new h)\<lparr>incoming_thunk := True\<rparr>, incoming_receiver = False,
       responders = [], next_request_id = 0, testing_mode = False\<rparr>\<rparr>)"

definition drop_responder :: "u64 \<times> nat \<Rightarrow> world \<Rightarrow> world" where
  "drop_responder p w = emit (Deleted (snd p)) (emit (Dropped (fst p) (snd p)) w)"

definition Router_destroy :: "world \<Rightarrow> world res" where
  "Router_destroy = access (\<lambda>r w.
     bindR (Connector_destroy (fold drop_responder (sort_key fst (responders r))
       (w\<lparr>weak_self := False\<rparr>))) (\<lambda>w. Inr (w\<lparr>router := None\<rparr>)))"

section \<open>Clients\<close>

text \<open>
  The calls a client makes. \<open>Deliver\<close> is a round of the run loop: the waiter calls back for a wait it
  holds. A client does not call a router it has destroyed or a thunk it has deleted, sends only while
  the pipe is bound or has failed (\<^verbatim>\<open>is_valid\<close>, \<^verbatim>\<open>encountered_error\<close>), and does not live to send its
  \<open>2 ^ 64 - 1\<close>st request.
\<close>

datatype action =
    Send mem Message
  | Request mem Message nat
  | Respond nat mem Message
  | DropThunk nat
  | ClosePipe
  | PassPipe
  | WaitIncoming
  | Deliver u32
  | SetReceiver bool
  | TestingMode
  | Destroy

definition bound :: "world \<Rightarrow> bool" where
  "bound w \<longleftrightarrow> (case router w of None \<Rightarrow> False | Some r \<Rightarrow>
     conn_error (connector r) \<or> message_pipe (connector r) \<noteq> MOJO_HANDLE_INVALID)"

definition live_thunk :: "nat \<Rightarrow> world \<Rightarrow> bool" where
  "live_thunk t w \<longleftrightarrow> t < length (thunks w) \<and> thunks w ! t \<noteq> None"

fun enabled :: "action \<Rightarrow> world \<Rightarrow> bool" where
  "enabled (Send m msg) w \<longleftrightarrow> bound w"
| "enabled (Request m msg responder) w \<longleftrightarrow> bound w \<and> next_request_id (the (router w)) \<noteq> - 1"
| "enabled (Respond t m msg) w \<longleftrightarrow> live_thunk t w \<and> (weak_self w \<longrightarrow> bound w)"
| "enabled (DropThunk t) w \<longleftrightarrow> live_thunk t w"
| "enabled (Deliver result) w \<longleftrightarrow> waits w \<noteq> []"
| "enabled _ w \<longleftrightarrow> router w \<noteq> None"

fun perform :: "nat \<Rightarrow> bool \<Rightarrow> MessageValidator list \<Rightarrow> client_code \<Rightarrow> action \<Rightarrow> world \<Rightarrow> world res" where
  "perform n dbg vs client (Send m msg) w = map_sum id snd (Router_Accept dbg m msg w)"
| "perform n dbg vs client (Request m msg responder) w =
     map_sum id snd (AcceptWithResponder dbg m msg responder w)"
| "perform n dbg vs client (Respond t m msg) w = map_sum id snd (ResponderThunk_Accept dbg t m msg w)"
| "perform n dbg vs client (DropThunk t) w = ResponderThunk_delete t w"
| "perform n dbg vs client ClosePipe w = CloseMessagePipe w"
| "perform n dbg vs client PassPipe w = map_sum id snd (PassMessagePipe w)"
| "perform n dbg vs client WaitIncoming w =
     map_sum id snd (WaitForIncomingMessage dbg (HandleIncomingMessage dbg vs client) client w)"
| "perform n dbg vs client (Deliver result) w =
     OnHandleReady n dbg (HandleIncomingMessage dbg vs client) client result
       (w\<lparr>waits := tl (waits w)\<rparr>)"
| "perform n dbg vs client (SetReceiver b) w = set_incoming_receiver b w"
| "perform n dbg vs client TestingMode w = EnableTestingMode w"
| "perform n dbg vs client Destroy w = Router_destroy w"

fun run :: "nat \<Rightarrow> bool \<Rightarrow> MessageValidator list \<Rightarrow> client_code \<Rightarrow> action list \<Rightarrow> world \<Rightarrow> world res" where
  "run n dbg vs client [] w = Inr w"
| "run n dbg vs client (a # as) w =
     bindR (if enabled a w then perform n dbg vs client a w else Inr w) (run n dbg vs client as)"

text \<open>
  A script gives the calls of each callback, and the result it returns, for the state in which it is
  called. A client that has deleted the thunk of a request owns it, and returns true. The first
  argument bounds the nesting of callbacks.
\<close>

type_synonym script = "callback \<Rightarrow> mem \<times> Message \<Rightarrow> world \<Rightarrow> action list \<times> bool"

definition callback_result :: "callback \<Rightarrow> bool \<Rightarrow> world \<Rightarrow> bool" where
  "callback_result cb ok w \<longleftrightarrow> ok \<or> (case cb of OnRequest t \<Rightarrow> \<not> live_thunk t w | _ \<Rightarrow> False)"

primrec script_client :: "nat \<Rightarrow> bool \<Rightarrow> MessageValidator list \<Rightarrow> script \<Rightarrow> client_code" where
  "script_client 0 dbg vs script cb mm w = Inl OutOfFuel"
| "script_client (Suc n) dbg vs script cb mm w =
     (case script cb mm w of (calls, ok) \<Rightarrow>
        bindR (run n dbg vs (script_client n dbg vs script) calls w) (\<lambda>w.
        Inr (callback_result cb ok w, w)))"

end
