(* ===== verification/Cpp_RouterSafety.thy ===== *)
theory Cpp_RouterSafety
  imports Cpp_Router "HOL-Library.Multiset"
begin

text \<open>
  The router and its clients. \<open>router_inv\<close> ties the router to its surroundings: at most one
  asynchronous wait is outstanding, on the pipe the router is bound to; the flags on the stack tell
  every active call of \<^verbatim>\<open>ReadSingleMessage\<close> whether the router still exists; and every responder that
  was registered is in the map, or was answered or dropped, once.

  The locale \<open>router_client\<close> is the contract of client code: whatever it calls inside a callback,
  it keeps the invariant. Inside the locale every operation is shown to keep it in turn, whichever
  callbacks it runs. Since the operations are all a script can call, scripts of any nesting depth
  meet the contract.
\<close>

section \<open>Events\<close>

definition registered :: "world \<Rightarrow> (u64 \<times> nat) list" where
  "registered w = concat (map (\<lambda>e. case e of Registered i r \<Rightarrow> [(i, r)] | _ \<Rightarrow> []) (event_log w))"

definition answered :: "world \<Rightarrow> (u64 \<times> nat) list" where
  "answered w = concat (map (\<lambda>e. case e of Answered i r \<Rightarrow> [(i, r)] | _ \<Rightarrow> []) (event_log w))"

definition dropped :: "world \<Rightarrow> (u64 \<times> nat) list" where
  "dropped w = concat (map (\<lambda>e. case e of Dropped i r \<Rightarrow> [(i, r)] | _ \<Rightarrow> []) (event_log w))"

definition deleted :: "world \<Rightarrow> nat list" where
  "deleted w = concat (map (\<lambda>e. case e of Deleted r \<Rightarrow> [r] | _ \<Rightarrow> []) (event_log w))"

definition outstanding :: "world \<Rightarrow> (u64 \<times> nat) list" where
  "outstanding w = (case router w of None \<Rightarrow> [] | Some r \<Rightarrow> responders r)"

lemmas event_defs = registered_def answered_def dropped_def deleted_def emit_def

section \<open>The invariant\<close>

definition waiting :: "world \<Rightarrow> bool" where
  "waiting w \<longleftrightarrow> (case router w of
     None \<Rightarrow> waits w = []
   | Some r \<Rightarrow> if async_wait_id (connector r) = 0 then waits w = []
       else waits w = [(async_wait_id (connector r), message_pipe (connector r))] \<and>
            message_pipe (connector r) \<noteq> MOJO_HANDLE_INVALID)"

definition flagged :: "world \<Rightarrow> bool" where
  "flagged w \<longleftrightarrow> (case router w of
     None \<Rightarrow> stack_flags w \<noteq> [] \<longrightarrow> last (stack_flags w)
   | Some r \<Rightarrow> destroyed_flag (connector r) =
         (if stack_flags w = [] then None else Some (length (stack_flags w) - 1)) \<and>
       True \<notin> set (stack_flags w))"

definition linked :: "world \<Rightarrow> bool" where
  "linked w \<longleftrightarrow> (weak_self w \<longleftrightarrow> router w \<noteq> None) \<and>
     (\<forall>r. router w = Some r \<longrightarrow> conn_error (connector r) \<longrightarrow>
        message_pipe (connector r) = MOJO_HANDLE_INVALID)"

definition system_ok :: "world \<Rightarrow> bool" where
  "system_ok w \<longleftrightarrow> (\<forall>n. waiter w n \<noteq> 0) \<and> MOJO_SYSTEM_RESULT_BUSY \<notin> set (writes w) \<and>
     ReadFails MOJO_RESULT_OK \<notin> set (reads w) \<and>
     ReadFails MOJO_SYSTEM_RESULT_RESOURCE_EXHAUSTED \<notin> set (reads w) \<and>
     (\<forall>m msg. Incoming m msg \<in> set (reads w) \<longrightarrow> placed m msg)"

definition accounted :: "world \<Rightarrow> bool" where
  "accounted w \<longleftrightarrow>
     mset (registered w) = mset (outstanding w) + mset (answered w) + mset (dropped w) \<and>
     distinct (map fst (registered w)) \<and> 0 \<notin> fst ` set (registered w) \<and>
     (\<forall>r. router w = Some r \<longrightarrow> (\<forall>i \<in> fst ` set (registered w). i < next_request_id r))"

definition router_inv :: "world \<Rightarrow> bool" where
  "router_inv w \<longleftrightarrow> waiting w \<and> flagged w \<and> linked w \<and> system_ok w \<and> accounted w"

definition idle :: "world \<Rightarrow> bool" where
  "idle w \<longleftrightarrow> (case router w of None \<Rightarrow> True | Some r \<Rightarrow> async_wait_id (connector r) = 0)"

definition settled :: "world \<Rightarrow> world \<Rightarrow> bool" where
  "settled w w' \<longleftrightarrow> mset (map snd (answered w' @ dropped w')) + mset (deleted w) =
     mset (map snd (answered w @ dropped w)) + mset (deleted w')"

definition preserves :: "world \<Rightarrow> world \<Rightarrow> bool" where
  "preserves w w' \<longleftrightarrow> length (stack_flags w') = length (stack_flags w) \<and> (idle w \<longrightarrow> idle w') \<and>
     (router w = None \<longrightarrow> router w' = None) \<and> length (thunks w) \<le> length (thunks w') \<and> settled w w'"

definition safe :: "bool \<Rightarrow> world \<Rightarrow> world res \<Rightarrow> bool" where
  "safe dbg w x \<longleftrightarrow> (case x of
     Inl e \<Rightarrow> e = OutOfFuel \<or> dbg \<and> e = AssertFailed
   | Inr w' \<Rightarrow> router_inv w' \<and> preserves w w')"

lemmas router_inv_defs = router_inv_def waiting_def flagged_def linked_def system_ok_def accounted_def outstanding_def

lemma preserves_refl [simp]: "preserves w w"
  by (simp add: preserves_def settled_def)

lemma settled_trans: "settled u v \<Longrightarrow> settled v w \<Longrightarrow> settled u w"
proof -
  have "a' + d = a + d' \<Longrightarrow> a'' + d' = a' + d'' \<Longrightarrow> a'' + d = a + d''" for a a' a'' d d' d'' :: "nat multiset"
    by (metis add.assoc add.commute add_left_cancel)
  then show "settled u v \<Longrightarrow> settled v w \<Longrightarrow> settled u w" unfolding settled_def by blast
qed

lemma preserves_trans: "preserves u v \<Longrightarrow> preserves v w \<Longrightarrow> preserves u w"
  unfolding preserves_def by (auto elim: settled_trans)

lemma safe_Inr [simp]: "safe dbg w (Inr w') \<longleftrightarrow> router_inv w' \<and> preserves w w'"
  by (simp add: safe_def)

lemma safe_OutOfFuel [simp]: "safe dbg w (Inl OutOfFuel)"
  by (simp add: safe_def)

lemma safe_trans: "preserves w w' \<Longrightarrow> safe dbg w' x \<Longrightarrow> safe dbg w x"
  by (auto simp: safe_def split: sum.splits elim: preserves_trans)

abbreviation state :: "('a \<times> world) res \<Rightarrow> world res" where
  "state x \<equiv> map_sum id snd x"

lemma safe_bind:
  assumes "safe dbg w x" and "\<And>w'. x = Inr w' \<Longrightarrow> router_inv w' \<Longrightarrow> preserves w w' \<Longrightarrow> safe dbg w' (state (f w'))"
  shows "safe dbg w (state (bindR x f))"
  using assms by (cases x) (auto simp: safe_def split: sum.splits elim: preserves_trans)

lemma safe_bindV:
  assumes "safe dbg w x" and "\<And>w'. x = Inr w' \<Longrightarrow> router_inv w' \<Longrightarrow> preserves w w' \<Longrightarrow> safe dbg w' (f w')"
  shows "safe dbg w (bindR x f)"
  using assms by (cases x) (auto simp: safe_def split: sum.splits elim: preserves_trans)

lemma safe_bind_pair:
  assumes "safe dbg w (state x)"
    and "\<And>a w'. x = Inr (a, w') \<Longrightarrow> router_inv w' \<Longrightarrow> preserves w w' \<Longrightarrow> safe dbg w' (state (f (a, w')))"
  shows "safe dbg w (state (bindR x f))"
  using assms by (cases x) (auto simp: safe_def split: sum.splits elim: preserves_trans)

lemma safe_bind_pairV:
  assumes "safe dbg w (state x)"
    and "\<And>a w'. x = Inr (a, w') \<Longrightarrow> router_inv w' \<Longrightarrow> preserves w w' \<Longrightarrow> safe dbg w' (f (a, w'))"
  shows "safe dbg w (bindR x f)"
  using assms by (cases x) (auto simp: safe_def split: sum.splits elim: preserves_trans)

section \<open>Closing the pipe\<close>

lemmas access_defs = access_def on_connector_def set_connector_def set_router_def

lemma CancelWait_eq:
  assumes "waiting w" "router w = Some r"
  shows "CancelWait w =
    Inr (w\<lparr>waits := [], router := Some (r\<lparr>connector := (connector r)\<lparr>async_wait_id := 0\<rparr>\<rparr>)\<rparr>)"
  using assms by (cases r; cases "connector r") (auto simp: CancelWait_def access_defs waiter_CancelWait_def waiting_def split: if_splits)

definition unbound :: "Router \<Rightarrow> Router" where
  "unbound r = r\<lparr>connector := (connector r)\<lparr>async_wait_id := 0, message_pipe := MOJO_HANDLE_INVALID\<rparr>\<rparr>"

lemma CloseMessagePipe_eq:
  assumes "waiting w" "router w = Some r"
  shows "CloseMessagePipe w =
    Inr ((if message_pipe (connector r) = MOJO_HANDLE_INVALID then id else emit (PipeClosed (message_pipe (connector r))))
      (w\<lparr>waits := [], router := Some (unbound r)\<rparr>))"
  using assms by (simp add: CloseMessagePipe_def CancelWait_eq access_defs MojoClose_pipe_def unbound_def)

lemma CloseMessagePipe_safe:
  assumes "router_inv w" "router w \<noteq> None"
  shows "safe dbg w (CloseMessagePipe w)"
  using assms by (auto simp: CloseMessagePipe_eq router_inv_defs preserves_def idle_def settled_def event_defs unbound_def)


section \<open>Sending\<close>

lemmas preserve_defs = preserves_def idle_def settled_def event_defs

lemma Connector_Accept_safe:
  assumes "router_inv w" "bound w"
  shows "safe dbg w (state (Connector_Accept m msg w))"
proof -
  obtain r where r: "router w = Some r" "conn_error (connector r) \<or> message_pipe (connector r) \<noteq> MOJO_HANDLE_INVALID"
    using assms(2) by (auto simp: bound_def split: option.splits)
  show ?thesis
  proof (cases "writes w")
    case Nil
    with assms(1) r show ?thesis
      by (auto simp: Connector_Accept_def access_defs WriteMessageRaw_def assertC_def)
        (auto simp: router_inv_defs preserve_defs)
  next
    case (Cons rv rvs)
    moreover from this assms(1) have "rv \<noteq> 0x19" by (auto simp: router_inv_def system_ok_def)
    ultimately show ?thesis
      using assms(1) r
      by (auto simp: Connector_Accept_def access_defs WriteMessageRaw_def assertC_def)
        (auto simp: router_inv_defs preserve_defs)
  qed
qed


text \<open>The messages a careful client sends.\<close>

fun wf_action :: "action \<Rightarrow> bool" where
  "wf_action (Send m msg) \<longleftrightarrow> mapped m (msg_data msg + 12) 4 \<and> \<not> expects_response m (msg_data msg)"
| "wf_action (Request m msg responder) \<longleftrightarrow> mapped m (msg_data msg) 24 \<and>
     peek32 m (msg_data msg + 4) \<ge> 1 \<and> expects_response m (msg_data msg)"
| "wf_action (Respond t m msg) \<longleftrightarrow> mapped m (msg_data msg + 12) 4 \<and>
     is_response m (msg_data msg) \<and> \<not> expects_response m (msg_data msg)"
| "wf_action _ \<longleftrightarrow> True"

lemma has_flag_eq:
  "mapped m (msg_data msg + 12) 4 \<Longrightarrow>
     has_flag m msg kMessageExpectsResponse = Inr (expects_response m (msg_data msg))"
  "mapped m (msg_data msg + 12) 4 \<Longrightarrow>
     has_flag m msg kMessageIsResponse = Inr (is_response m (msg_data msg))"
  by (simp_all add: has_flag_def load32_eq cpp_flag_bits expects_response_def is_response_def)

lemma Router_Accept_eq:
  assumes "mapped m (msg_data msg + 12) 4" "\<not> expects_response m (msg_data msg)" "router w \<noteq> None"
  shows "Router_Accept dbg m msg w = Connector_Accept m msg w"
  using assms by (auto simp: Router_Accept_def access_def has_flag_eq)

lemma next_id_bounds:
  assumes "next_id n = (i, n')" "n \<noteq> - 1"
  shows "n \<le> i" "i < n'" "i \<noteq> 0" "n \<le> n'"
proof -
  have "unat n \<noteq> 18446744073709551615" using assms(2) by (simp add: word_unat_eq_iff unsigned_minus_1_eq_mask mask_eq_exp_minus_1)
  then have "unat (n + 1) = Suc (unat n)" using unat_u64_bound [of n] by (simp add: unat_word_ariths(1))
  then have "n < n + 1" by (simp add: word_less_nat_alt)
  with assms show "n \<le> i" "i < n'" "i \<noteq> 0" "n \<le> n'"
    by (auto simp: next_id_def split: if_splits)
qed

lemma set_request_id_eq:
  assumes "mapped m (msg_data msg) 24" "peek32 m (msg_data msg + 4) \<ge> 1"
  shows "set_request_id dbg m msg i = Inr (poke m (msg_data msg + 16) (bytes_of_word 8 i))"
proof -
  have "mapped m (msg_data msg + 4) 4" "mapped m (msg_data msg + 16) 8"
    by (rule mapped_sub [OF assms(1)]; simp)+
  with assms(2) show ?thesis
    by (simp add: set_request_id_def has_request_id_def layout_defs load32_eq store64_eq)
qed

lemma Connector_Accept_keeps:
  assumes "Connector_Accept m msg w = Inr (a, w')" "router w = Some r"
  shows "\<exists>r'. router w' = Some r' \<and> next_request_id r' = next_request_id r \<and> responders r' = responders r"
    and "registered w' = registered w"
  using assms
  by (auto simp: Connector_Accept_def access_defs WriteMessageRaw_def event_defs assertC_def
      split: option.splits if_splits list.splits)

lemma register_safe:
  assumes inv: "router_inv w" and r: "router w = Some r"
    and fresh: "i \<noteq> 0" "i < next_request_id r" "i \<notin> fst ` set (registered w)"
  shows "safe dbg w (Inr (emit (Registered i responder)
    (set_router (\<lambda>r. r\<lparr>responders := (i, responder) # filter (\<lambda>(j, _). j \<noteq> i) (responders r)\<rparr>) w)))"
proof -
  have "set (responders r) \<subseteq> set (registered w)"
    using inv r by (auto simp: router_inv_def accounted_def outstanding_def dest!: arg_cong [where f = set_mset])
  then have "filter (\<lambda>(j, _). j \<noteq> i) (responders r) = responders r"
    using fresh(3) by (intro filter_True) force
  with assms show ?thesis
    by (auto simp: router_inv_defs set_router_def preserve_defs)
qed

lemma AcceptWithResponder_safe:
  assumes inv: "router_inv w" and "bound w" "next_request_id (the (router w)) \<noteq> - 1"
    and wf: "wf_action (Request m msg responder)"
  shows "safe dbg w (state (AcceptWithResponder dbg m msg responder w))"
proof -
  obtain r where r: "router w = Some r" using assms(2) by (auto simp: bound_def split: option.splits)
  obtain i n' where id: "next_id (next_request_id r) = (i, n')" by fastforce
  have b: "next_request_id r \<le> i" "i < n'" "i \<noteq> 0" "next_request_id r \<le> n'"
    using next_id_bounds [OF id] assms(3) r by auto
  have fresh: "i \<notin> fst ` set (registered w)"
    using inv r b(1) by (auto simp: router_inv_def accounted_def)
  define w1 where "w1 = set_router (\<lambda>r. r\<lparr>next_request_id := n'\<rparr>) w"
  have w1: "router_inv w1" "preserves w w1" "bound w1" "registered w1 = registered w"
    "router w1 = Some (r\<lparr>next_request_id := n'\<rparr>)"
    using inv assms(2) b r by (auto simp: w1_def router_inv_defs set_router_def preserve_defs bound_def)
  let ?m = "poke m (msg_data msg + 16) (bytes_of_word 8 i)"
  have "mapped m (msg_data msg + 12) 4" using wf by (auto elim: mapped_sub)
  then have eq: "AcceptWithResponder dbg m msg responder w =
      bindR (Connector_Accept ?m msg w1) (\<lambda>((ok, msg), w).
         if \<not> ok then Inr ((False, ?m, msg), w)
         else access (\<lambda>r w. Inr ((True, ?m, msg),
             emit (Registered i responder) (set_router (\<lambda>r. r\<lparr>responders :=
               (i, responder) # filter (\<lambda>(j, _). j \<noteq> i) (responders r)\<rparr>) w))) w)"
    using wf r by (simp add: AcceptWithResponder_def access_def [of _ w] has_flag_eq id set_request_id_eq w1_def)
  have "safe dbg w1 (state (AcceptWithResponder dbg m msg responder w))"
    unfolding eq
  proof (rule safe_bind_pair [OF Connector_Accept_safe [OF w1(1,3)]])
    fix a w2
    assume a: "Connector_Accept ?m msg w1 = Inr (a, w2)" and inv2: "router_inv w2"
    obtain r2 where r2: "router w2 = Some r2" "next_request_id r2 = n'" "registered w2 = registered w"
      using Connector_Accept_keeps [OF a w1(5)] w1(4) by auto
    show "safe dbg w2 (state ((\<lambda>((ok, msg), w).
        if \<not> ok then Inr ((False, ?m, msg), w)
        else access (\<lambda>r w. Inr ((True, ?m, msg),
             emit (Registered i responder) (set_router (\<lambda>r. r\<lparr>responders :=
               (i, responder) # filter (\<lambda>(j, _). j \<noteq> i) (responders r)\<rparr>) w))) w) (a, w2)))"
      using register_safe [OF inv2 r2(1), of i dbg responder] inv2 r2 b fresh
      by (cases a) (auto simp: access_def)
  qed
  with w1(2) show ?thesis by (rule safe_trans)
qed

section \<open>Responder thunks\<close>

lemma ResponderThunk_delete_safe:
  assumes "router_inv w" "live_thunk t w"
  shows "safe dbg w (ResponderThunk_delete t w)"
proof -
  define w1 where "w1 = w\<lparr>thunks := (thunks w)[t := None]\<rparr>"
  have w1: "router_inv w1" "preserves w w1" "weak_self w1 = weak_self w" "router w1 = router w"
    using assms(1) by (auto simp: w1_def router_inv_defs preserve_defs)
  then have "weak_self w \<Longrightarrow> safe dbg w1 (CloseMessagePipe w1)"
    using assms(1) by (intro CloseMessagePipe_safe) (auto simp: router_inv_def linked_def)
  with w1 assms(2) show ?thesis
    by (auto simp: ResponderThunk_delete_def live_thunk_def w1_def [symmetric] elim: safe_trans)
qed

lemma ResponderThunk_Accept_safe:
  assumes "router_inv w" "enabled (Respond t m msg) w" "wf_action (Respond t m msg)"
  shows "safe dbg w (state (ResponderThunk_Accept dbg t m msg w))"
proof -
  define w1 where "w1 = w\<lparr>thunks := (thunks w)[t := Some True]\<rparr>"
  have w1: "router_inv w1" "preserves w w1" "weak_self w1 = weak_self w" "router w1 = router w" "bound w1 = bound w"
    using assms(1) by (auto simp: w1_def router_inv_defs preserve_defs bound_def)
  have "safe dbg w1 (state (Router_Accept dbg m msg w1))" if "weak_self w"
    using that assms w1 by (subst Router_Accept_eq) (auto simp: bound_def intro!: Connector_Accept_safe split: option.splits)
  then have "safe dbg w1 (state (ResponderThunk_Accept dbg t m msg w))"
    using assms(2,3) w1(1,3)
    by (cases "weak_self w") (auto simp: ResponderThunk_Accept_def live_thunk_def w1_def [symmetric] Let_def has_flag_eq
        intro!: safe_bind_pair [where w = w1])
  with w1(2) show ?thesis by (rule safe_trans)
qed


section \<open>Destruction\<close>

lemma fold_drop_responder:
  "fold drop_responder xs w = w\<lparr>event_log := event_log w @
     concat (map (\<lambda>p. [Dropped (fst p) (snd p), Deleted (snd p)]) xs)\<rparr>"
  by (induction xs arbitrary: w) (simp_all add: drop_responder_def emit_def)

lemma drop_events:
  "concat (map (\<lambda>e. case e of Registered i r \<Rightarrow> [(i, r)] | _ \<Rightarrow> [])
     (concat (map (\<lambda>p. [Dropped (fst p) (snd p), Deleted (snd p)]) xs))) = []"
  "concat (map (\<lambda>e. case e of Answered i r \<Rightarrow> [(i, r)] | _ \<Rightarrow> [])
     (concat (map (\<lambda>p. [Dropped (fst p) (snd p), Deleted (snd p)]) xs))) = []"
  "concat (map (\<lambda>e. case e of Dropped i r \<Rightarrow> [(i, r)] | _ \<Rightarrow> [])
     (concat (map (\<lambda>p. [Dropped (fst p) (snd p), Deleted (snd p)]) xs))) = xs"
  "concat (map (\<lambda>e. case e of Deleted r \<Rightarrow> [r] | _ \<Rightarrow> [])
     (concat (map (\<lambda>p. [Dropped (fst p) (snd p), Deleted (snd p)]) xs))) = map snd xs"
  by (induction xs) simp_all

lemma Router_destroy_safe:
  assumes inv: "router_inv w" and r: "router w = Some r"
  shows "safe dbg w (Router_destroy w)"
proof -
  let ?c = "connector r"
  define xs where "xs = sort_key fst (responders r)"
  have xs: "mset xs = mset (responders r)" by (simp add: xs_def)
  define w1 where "w1 = w\<lparr>weak_self := False, event_log := event_log w @
    concat (map (\<lambda>p. [Dropped (fst p) (snd p), Deleted (snd p)]) xs),
    stack_flags := (case destroyed_flag ?c of None \<Rightarrow> stack_flags w | Some f \<Rightarrow> (stack_flags w)[f := True])\<rparr>"
  have "waiting w1" "router w1 = Some r" using inv r by (auto simp: w1_def router_inv_def waiting_def)
  note close = CancelWait_eq [OF this]
  define w2 where "w2 = (if message_pipe ?c = MOJO_HANDLE_INVALID then id else emit (PipeClosed (message_pipe ?c)))
    (w1\<lparr>waits := [], router := None\<rparr>)"
  have "Router_destroy w = Inr w2"
    using r close
    by (cases "destroyed_flag ?c")
      (simp_all add: Router_destroy_def Connector_destroy_def access_def on_connector_def fold_drop_responder
        xs_def [symmetric] w1_def MojoClose_pipe_def emit_def w2_def)
  moreover have "router_inv w2" "preserves w w2"
    using inv r xs by (auto simp: w2_def w1_def router_inv_defs preserve_defs drop_events last_list_update)
  ultimately show ?thesis by simp
qed

section \<open>Dispatch\<close>

lemma request_id_accepted:
  assumes "placed m msg" "accepted_header m msg" "is_response m (msg_data msg)"
  shows "request_id dbg m msg = Inr (peek64 m (msg_data msg + 16))"
proof -
  have v: "peek32 m (msg_data msg + 4) \<noteq> 0"
    using assms(2,3) by (auto simp: header_ok_def Let_def)
  have "24 \<le> unat (msg_num_bytes msg)"
    using header_ok_sizes(3,4) [OF assms(2)] v by simp
  then have "mapped m (msg_data msg + 4) 4" "mapped m (msg_data msg + 16) 8"
    using assms(1) by (auto simp: placed_def elim!: mapped_sub)
  moreover have "peek32 m (msg_data msg + 4) \<ge> 1"
    using v by (simp add: word_le_nat_alt word_unat_eq_iff)
  ultimately show ?thesis
    by (simp add: request_id_def has_request_id_def layout_defs load32_eq load64_eq)
qed

lemma mset_filter_key:
  "distinct (map fst xs) \<Longrightarrow> map_of xs k = Some v \<Longrightarrow>
     mset xs = add_mset (k, v) (mset (filter (\<lambda>(i, _). i \<noteq> k) xs))"
proof (induction xs)
  case (Cons p xs)
  have "k \<notin> fst ` set xs \<Longrightarrow> filter (\<lambda>(i, _). i \<noteq> k) xs = xs" by (intro filter_True) force
  with Cons show ?case by (cases p) (auto simp del: mset_filter)
qed simp

text \<open>Taking the responder of a response out of the map, before it is called.\<close>

definition answer :: "u64 \<Rightarrow> nat \<Rightarrow> world \<Rightarrow> world" where
  "answer rid responder w = emit (Answered rid responder)
     (set_router (\<lambda>r. r\<lparr>responders := filter (\<lambda>(i, _). i \<noteq> rid) (responders r)\<rparr>) w)"

lemma answer_inv:
  assumes "router_inv w" "router w = Some r" "map_of (responders r) rid = Some responder"
  shows "router_inv (answer rid responder w)"
proof -
  have "mset (registered w) = mset (responders r @ answered w @ dropped w)"
    using assms(1,2) by (simp add: router_inv_def accounted_def outstanding_def)
  then have "mset (map fst (registered w)) = mset (map fst (responders r @ answered w @ dropped w))"
    by (metis mset_map)
  then have "distinct (map fst (responders r @ answered w @ dropped w))"
    using assms(1) by (metis accounted_def mset_eq_imp_distinct_iff router_inv_def)
  then have "distinct (map fst (responders r))" by simp
  from mset_filter_key [OF this assms(3)] show ?thesis
    using assms(1,2) by (auto simp: answer_def router_inv_defs set_router_def event_defs)
qed

lemma Deleted_inv [simp]: "router_inv (emit (Deleted responder) w) \<longleftrightarrow> router_inv w"
  by (cases "router w") (simp_all add: router_inv_defs event_defs)

lemma answer_settled:
  assumes "preserves (answer rid responder w) w'"
  shows "preserves w (emit (Deleted responder) w')"
  using assms by (auto simp: answer_def preserve_defs set_router_def split: option.splits)

text \<open>
  The contract between the library and a client: whatever the client calls in a callback, it leaves
  the invariant in place and the frames of the calls that are active as they are.
\<close>

locale router_client =
  fixes dbg :: bool and validators :: "MessageValidator list" and client :: client_code
  assumes validators_total: "placed m msg \<Longrightarrow>
      \<exists>result. RunValidatorsOnMessage validators m msg = Inr result \<and>
        (result = NONE \<longrightarrow> accepted_header m msg)"
    and client_safe: "router_inv w \<Longrightarrow> safe dbg w (state (client cb mm w))"
    and client_keeps_thunk: "router_inv w \<Longrightarrow> live_thunk t w \<Longrightarrow>
      client (OnRequest t) mm w = Inr (False, w') \<Longrightarrow> live_thunk t w'"
begin

lemma NotifyError_safe:
  assumes "router_inv w" "router w = Some r"
  shows "safe dbg w (NotifyError client w)"
proof -
  define w1 where "w1 = set_connector ((connector r)\<lparr>conn_error := True\<rparr>) w"
  have r1: "waiting w1" "router w1 = Some (r\<lparr>connector := (connector r)\<lparr>conn_error := True\<rparr>\<rparr>)"
    using assms by (auto simp: w1_def set_connector_def router_inv_def waiting_def)
  define w2 where "w2 = (if message_pipe (connector r) = MOJO_HANDLE_INVALID then id
    else emit (PipeClosed (message_pipe (connector r)))) (w1\<lparr>waits := [],
      router := Some (unbound (r\<lparr>connector := (connector r)\<lparr>conn_error := True\<rparr>\<rparr>))\<rparr>)"
  have w2: "CloseMessagePipe w1 = Inr w2" by (simp add: CloseMessagePipe_eq [OF r1] w2_def)
  have w2': "router_inv (emit ErrorNotified w2)" "preserves w (emit ErrorNotified w2)"
    using assms by (auto simp: w2_def w1_def router_inv_defs preserve_defs unbound_def set_connector_def)
  have "safe dbg (emit ErrorNotified w2) (bindR (client OnError (Map.empty, Message_new) (emit ErrorNotified w2)) (\<lambda>(_, w). Inr w))"
    by (rule safe_bind_pairV [OF client_safe [OF w2'(1)]]) simp
  then show ?thesis
    using assms(2) w2 w2'(2) by (simp add: NotifyError_def on_connector_def access_def w1_def [symmetric] safe_trans)
qed

lemma HandleIncomingMessage_safe:
  assumes inv: "router_inv w" and r: "router w = Some r" and "placed m msg"
  shows "safe dbg w (state (HandleIncomingMessage dbg validators client (m, msg) w))"
proof -
  obtain result where v: "RunValidatorsOnMessage validators m msg = Inr result"
    "result = NONE \<Longrightarrow> accepted_header m msg"
    using validators_total [OF assms(3)] by blast
  show ?thesis
  proof (cases "result = NONE")
    case False
    with inv r v show ?thesis by (simp add: HandleIncomingMessage_def access_def)
  next
    case True
    then have hdr: "accepted_header m msg" using v by simp
    then have flags: "mapped m (msg_data msg + 12) 4"
      using header_ok_sizes(1) [OF hdr] assms(3) by (auto simp: placed_def elim!: mapped_sub)
    let ?h = "HandleIncomingMessage dbg validators client (m, msg) w"
    consider (request) "expects_response m (msg_data msg)" "incoming_receiver r"
      | (unwanted) "expects_response m (msg_data msg)" "\<not> incoming_receiver r"
      | (response) "\<not> expects_response m (msg_data msg)" "is_response m (msg_data msg)"
      | (oneway) "\<not> expects_response m (msg_data msg)" "\<not> is_response m (msg_data msg)"
      by blast
    then show ?thesis
    proof cases
      case request
      define w1 where "w1 = w\<lparr>thunks := thunks w @ [Some False]\<rparr>"
      let ?t = "length (thunks w)"
      have w1: "router_inv w1" "preserves w w1" "live_thunk ?t w1"
        using inv by (auto simp: w1_def router_inv_defs preserve_defs live_thunk_def)
      have "?h = bindR (client (OnRequest ?t) (m, msg) w1) (\<lambda>(ok, w).
          if \<not> ok then bindR (ResponderThunk_delete ?t w) (\<lambda>w. Inr (ok, w)) else Inr (ok, w))"
        using r v True request by (simp add: HandleIncomingMessage_def access_def has_flag_eq flags w1_def Let_def)
      moreover have "safe dbg w1 (state (bindR (client (OnRequest ?t) (m, msg) w1) (\<lambda>(ok, w).
          if \<not> ok then bindR (ResponderThunk_delete ?t w) (\<lambda>w. Inr (ok, w)) else Inr (ok, w))))"
        by (rule safe_bind_pair [OF client_safe [OF w1(1)]])
          (auto intro!: safe_bind ResponderThunk_delete_safe client_keeps_thunk [OF w1(1,3)])
      ultimately show ?thesis using w1(2) by (auto elim: safe_trans)
    next
      case unwanted
      have "safe dbg w (CloseMessagePipe w)" using inv r by (simp add: CloseMessagePipe_safe)
      then show ?thesis
        using r v True unwanted
        by (auto simp: HandleIncomingMessage_def access_def has_flag_eq flags intro!: safe_bind)
    next
      case response
      obtain rid where rid: "request_id dbg m msg = Inr rid"
        using request_id_accepted [OF assms(3) hdr response(2)] by blast
      show ?thesis
      proof (cases "map_of (responders r) rid")
        case None
        with inv r v True response rid flags show ?thesis
          by (auto simp: HandleIncomingMessage_def access_def has_flag_eq MOJO_DCHECK_def assertC_def safe_def)
      next
        case (Some responder)
        have "?h = bindR (client (OnResponse responder) (m, msg) (answer rid responder w)) (\<lambda>(ok, w).
            Inr (ok, emit (Deleted responder) w))"
          using r v True response rid flags Some
          by (simp add: HandleIncomingMessage_def access_def has_flag_eq answer_def)
        moreover have "safe dbg (answer rid responder w)
            (state (client (OnResponse responder) (m, msg) (answer rid responder w)))"
          by (rule client_safe [OF answer_inv [OF inv r Some]])
        ultimately show ?thesis
          by (cases "client (OnResponse responder) (m, msg) (answer rid responder w)")
            (auto simp: safe_def answer_settled)
      qed
    next
      case oneway
      with inv r v True flags show ?thesis
        by (auto simp: HandleIncomingMessage_def access_def has_flag_eq intro!: client_safe)
    qed
  qed
qed

lemma ReadAndDispatchMessage_safe:
  assumes inv: "router_inv w" and r: "router w = Some r"
  shows "safe dbg w (state (ReadAndDispatchMessage dbg h (if b then Some (HandleIncomingMessage dbg validators client) else None) w))"
proof (cases "h = MOJO_HANDLE_INVALID \<or> reads w = []")
  case True
  with inv show ?thesis
    by (auto simp: ReadAndDispatchMessage_def ReadMessage_def ReadMessageRaw_size_def MOJO_DCHECK_def
        assertC_def safe_def)
next
  case False
  then obtain p rs where rs: "reads w = p # rs" "h \<noteq> MOJO_HANDLE_INVALID" by (cases "reads w") auto
  define w1 where "w1 = w\<lparr>reads := rs\<rparr>"
  have w1: "router_inv w1" "preserves w w1" "router w1 = Some r"
    using inv r rs by (auto simp: w1_def router_inv_defs preserve_defs)
  show ?thesis
  proof (cases p)
    case (ReadFails rv)
    then have "rv \<noteq> 0" "rv \<noteq> 8" using inv rs by (auto simp: router_inv_def system_ok_def)
    with ReadFails rs w1 show ?thesis
      by (cases b) (auto simp: ReadAndDispatchMessage_def ReadMessage_def ReadMessageRaw_size_def w1_def)
  next
    case (Incoming m msg)
    have dispatch: "safe dbg w1 (state (bindR (HandleIncomingMessage dbg validators client mm w1)
        (\<lambda>(result, w). Inr ((0, result), w))))" if "placed (fst mm) (snd mm)" for mm
      using HandleIncomingMessage_safe [OF w1(1,3) that] by (cases mm) (auto intro: safe_bind_pair)
    have "placed m msg" using Incoming inv rs by (auto simp: router_inv_def system_ok_def)
    moreover have "placed Map.empty Message_new" by (simp add: placed_def Message_new_def)
    ultimately show ?thesis
      using rs Incoming w1 dispatch [of "(m, msg)"] dispatch [of "(Map.empty, Message_new)"]
      by (cases b; cases "empty_message msg")
        (auto simp: ReadAndDispatchMessage_def ReadMessage_def ReadMessageRaw_size_def ReadMessageRaw_def
          w1_def elim: safe_trans)
  qed
qed

text \<open>
  Pushing and popping the frame of \<^verbatim>\<open>ReadSingleMessage\<close>: when the innermost flag is set the router is
  gone and the flag of the caller gets set; when it is not, the router is there.
\<close>

lemma push_frame:
  assumes "router_inv w" "router w = Some r"
  shows "router_inv (set_connector ((connector r)\<lparr>destroyed_flag := Some (length (stack_flags w))\<rparr>)
    (w\<lparr>stack_flags := stack_flags w @ [False]\<rparr>))"
  using assms by (auto simp: router_inv_defs set_connector_def event_defs)

lemma pop_frame:
  assumes "router_inv w" "router w = Some r"
    and "router_inv w'" "length (stack_flags w') = Suc (length (stack_flags w))"
  shows "stack_flags w' ! length (stack_flags w) \<longleftrightarrow> router w' = None"
    and "router w' = None \<Longrightarrow> router_inv (let v = w'\<lparr>stack_flags := take (length (stack_flags w)) (stack_flags w')\<rparr> in
      case destroyed_flag (connector r) of None \<Rightarrow> v | Some f \<Rightarrow> v\<lparr>stack_flags := (stack_flags v)[f := True]\<rparr>)"
    and "router w' = Some r' \<Longrightarrow> router_inv (set_connector ((connector r')\<lparr>destroyed_flag := destroyed_flag (connector r)\<rparr>)
      (w'\<lparr>stack_flags := take (length (stack_flags w)) (stack_flags w')\<rparr>))"
proof -
  obtain fs f where fs: "stack_flags w' = fs @ [f]" "length fs = length (stack_flags w)"
    using assms(4) by (metis length_append_singleton length_Suc_conv_rev nat.inject)
  have d: "destroyed_flag (connector r) = (if fs = [] then None else Some (length fs - 1))"
    using assms(1,2) fs(2) by (auto simp: router_inv_def flagged_def)
  show "stack_flags w' ! length (stack_flags w) \<longleftrightarrow> router w' = None"
    using assms(3) fs by (cases "router w'") (auto simp: router_inv_def flagged_def nth_append)
  show "router_inv (let v = w'\<lparr>stack_flags := take (length (stack_flags w)) (stack_flags w')\<rparr> in
      case destroyed_flag (connector r) of None \<Rightarrow> v | Some f \<Rightarrow> v\<lparr>stack_flags := (stack_flags v)[f := True]\<rparr>)"
    if "router w' = None"
    using that assms(3) fs d by (auto simp: router_inv_defs event_defs last_list_update)
  show "router_inv (set_connector ((connector r')\<lparr>destroyed_flag := destroyed_flag (connector r)\<rparr>)
      (w'\<lparr>stack_flags := take (length (stack_flags w)) (stack_flags w')\<rparr>))"
    if "router w' = Some r'"
    using that assms(3) fs d by (auto simp: router_inv_defs event_defs set_connector_def)
qed

lemma ReadSingleMessage_safe:
  assumes inv: "router_inv w" and r: "router w = Some r"
  shows "safe dbg w (state (ReadSingleMessage dbg (HandleIncomingMessage dbg validators client) client w))"
proof -
  let ?n = "length (stack_flags w)"
  define w1 where "w1 = set_connector ((connector r)\<lparr>destroyed_flag := Some ?n\<rparr>)
    (w\<lparr>stack_flags := stack_flags w @ [False]\<rparr>)"
  have w1: "router_inv w1" using push_frame [OF inv r] by (simp add: w1_def)
  obtain r1 where r1: "router w1 = Some r1" by (simp add: w1_def set_connector_def r)
  let ?read = "ReadAndDispatchMessage dbg (message_pipe (connector r))
    (if incoming_thunk (connector r) then Some (HandleIncomingMessage dbg validators client) else None) w1"
  have read: "safe dbg w1 (state ?read)" by (rule ReadAndDispatchMessage_safe [OF w1 r1])
  show ?thesis
  proof (cases ?read)
    case (Inl e)
    with read r show ?thesis
      by (auto simp: ReadSingleMessage_def on_connector_def access_def w1_def safe_def Let_def)
  next
    case (Inr p)
    obtain rv receiver_result w2 where p: "p = ((rv, receiver_result), w2)" by (metis prod.exhaust)
    with Inr read have w2: "router_inv w2" "preserves w1 w2" by (auto simp: safe_def)
    then have len: "length (stack_flags w2) = Suc ?n" by (simp add: preserves_def w1_def set_connector_def)
    note pop = pop_frame [OF inv r w2(1) len]
    have w12: "idle w1 = idle w" "thunks w1 = thunks w" "settled w w2" "router w2 = None \<or> preserves w1 w2"
      using w2(2) by (auto simp: w1_def set_connector_def idle_def r preserves_def settled_def event_defs)
    show ?thesis
    proof (cases "router w2")
      case None
      with pop(1,2) Inr p r w12 len w2(2) show ?thesis
        by (auto simp: ReadSingleMessage_def on_connector_def access_def w1_def [symmetric] Let_def
            preserves_def idle_def settled_def event_defs split: option.splits)
    next
      case (Some r2)
      define w3 where "w3 = set_connector ((connector r2)\<lparr>destroyed_flag := destroyed_flag (connector r)\<rparr>)
        (w2\<lparr>stack_flags := take ?n (stack_flags w2)\<rparr>)"
      have w3: "router_inv w3" "preserves w w3" "\<exists>r3. router w3 = Some r3"
        using pop(3) [OF Some] w2(2) w12 Some len r
        by (auto simp: w3_def preserves_def idle_def set_connector_def settled_def event_defs)
      then have "safe dbg w3 (NotifyError client w3)" using NotifyError_safe by blast
      then have "safe dbg w3 (state (bindR (NotifyError client w3) (\<lambda>w. Inr ((False, rv), w))))"
        by (rule safe_bind) simp
      with w3 pop(1) Inr p r Some show ?thesis
        by (auto simp: ReadSingleMessage_def on_connector_def access_def w1_def [symmetric] w3_def [symmetric]
            Let_def elim: safe_trans)
    qed
  qed
qed

lemma ReadAndDispatchMessage_should_wait:
  assumes "ReadAndDispatchMessage dbg h rcv w = Inr ((MOJO_SYSTEM_RESULT_SHOULD_WAIT, b), w')"
  shows "h \<noteq> MOJO_HANDLE_INVALID \<and> router w' = router w"
  using assms
  by (auto simp: ReadAndDispatchMessage_def ReadMessage_def ReadMessageRaw_size_def ReadMessageRaw_def
      res_simps split: if_splits option.splits list.splits pipe_read.splits)

lemma ReadSingleMessage_should_wait:
  assumes "ReadSingleMessage dbg rcv client w = Inr ((True, MOJO_SYSTEM_RESULT_SHOULD_WAIT), w')"
  shows "\<exists>r'. router w' = Some r' \<and> message_pipe (connector r') \<noteq> MOJO_HANDLE_INVALID"
proof -
  obtain r where r: "router w = Some r"
    using assms by (auto simp: ReadSingleMessage_def on_connector_def access_def split: option.splits)
  with assms show ?thesis
    by (auto simp: ReadSingleMessage_def on_connector_def access_def Let_def res_simps set_connector_def
        split: option.splits if_splits dest!: ReadAndDispatchMessage_should_wait [simplified])
qed

lemma ReadSingleMessage_again:
  assumes "ReadSingleMessage dbg rcv client w = Inr ((True, rv), w')"
  shows "router w' \<noteq> None"
  using assms by (auto simp: ReadSingleMessage_def on_connector_def access_def Let_def res_simps set_connector_def
        split: option.splits if_splits)

text \<open>
  Only a round of the run loop arms a new wait, and it starts when the waiter has taken the old one:
  the states below are compared with a state \<open>v\<close> in which a wait was outstanding.
\<close>

lemma WaitToReadMore_safe:
  assumes "router_inv w" "router w = Some r" "message_pipe (connector r) \<noteq> MOJO_HANDLE_INVALID" "idle w"
    and "preserves v w" "\<not> idle v"
  shows "safe dbg v (WaitToReadMore w)"
  using assms by (auto simp: WaitToReadMore_def on_connector_def access_def idle_def waiter_AsyncWait_def Let_def
      set_connector_def router_inv_defs event_defs preserves_def settled_def)

lemma ReadAllAvailableMessages_safe:
  assumes "router_inv w" "router w \<noteq> None" "idle w" "preserves v w" "\<not> idle v"
  shows "safe dbg v (ReadAllAvailableMessages n dbg (HandleIncomingMessage dbg validators client) client w)"
  using assms
proof (induction n arbitrary: w)
  case 0
  then show ?case by simp
next
  case (Suc n)
  let ?h = "HandleIncomingMessage dbg validators client"
  obtain r where r: "router w = Some r" using Suc.prems(2) by auto
  have read: "safe dbg w (state (ReadSingleMessage dbg ?h client w))"
    using Suc.prems(1) r by (rule ReadSingleMessage_safe)
  show ?case
  proof (cases "ReadSingleMessage dbg ?h client w")
    case (Inl e)
    with read r Suc.prems show ?thesis by (auto simp: on_connector_def access_def safe_def)
  next
    case (Inr p)
    obtain again rv w' where p: "p = ((again, rv), w')" by (metis prod.exhaust)
    with Inr read have w': "router_inv w'" "preserves w w'" by auto
    then have v: "preserves v w'" "idle w'" using Suc.prems(3,4) by (auto simp: preserves_def elim: settled_trans)
    have "safe dbg v (WaitToReadMore w')" if "again" "rv = MOJO_SYSTEM_RESULT_SHOULD_WAIT"
      using ReadSingleMessage_should_wait [of ?h w w'] Inr p that w'(1) v Suc.prems(5)
      by (auto intro: WaitToReadMore_safe)
    moreover have "safe dbg v (ReadAllAvailableMessages n dbg ?h client w')" if "again"
      using ReadSingleMessage_again [of ?h w rv w'] Inr p that w'(1) v Suc by auto
    ultimately show ?thesis
      using Inr p r w'(1) v Suc.prems by (auto simp: on_connector_def access_def)
  qed
qed

lemma Deliver_safe:
  assumes inv: "router_inv w" and "waits w \<noteq> []"
  shows "safe dbg w (OnHandleReady n dbg (HandleIncomingMessage dbg validators client) client result
    (w\<lparr>waits := tl (waits w)\<rparr>))"
proof -
  obtain r where r: "router w = Some r" "async_wait_id (connector r) \<noteq> 0" "length (waits w) = 1"
    using assms by (auto simp: router_inv_def waiting_def split: option.splits if_splits)
  define w1 where "w1 = set_connector ((connector r)\<lparr>async_wait_id := 0\<rparr>) (w\<lparr>waits := tl (waits w)\<rparr>)"
  have w1: "router_inv w1" "\<exists>r1. router w1 = Some r1" "preserves w w1" "idle w1" "\<not> idle w"
    using inv r by (auto simp: w1_def router_inv_defs preserve_defs set_connector_def)
  then have "safe dbg w1 (NotifyError client w1)" using NotifyError_safe by blast
  then have "safe dbg w (NotifyError client w1)" using w1(3) by (rule safe_trans [rotated])
  moreover have "safe dbg w (ReadAllAvailableMessages n dbg (HandleIncomingMessage dbg validators client) client w1)"
    using w1 by (intro ReadAllAvailableMessages_safe) auto
  ultimately show ?thesis
    using r by (simp add: OnHandleReady_def on_connector_def access_def w1_def [symmetric] Let_def)
qed

lemma WaitForIncomingMessage_safe:
  assumes inv: "router_inv w" and r: "router w = Some r"
  shows "safe dbg w (state (WaitForIncomingMessage dbg (HandleIncomingMessage dbg validators client) client w))"
proof -
  obtain rv w1 where w1: "Wait_readable (message_pipe (connector r)) w = (rv, w1)" by fastforce
  then have w1': "router_inv w1" "preserves w w1" "router w1 = Some r"
    using inv r by (auto simp: Wait_readable_def router_inv_defs preserve_defs split: if_splits list.splits)
  have "safe dbg w1 (state (bindR (NotifyError client w1) (\<lambda>w. Inr (False, w))))"
    by (rule safe_bind [OF NotifyError_safe [OF w1'(1,3)]]) simp
  moreover have "safe dbg w1 (state (bindR (ReadSingleMessage dbg (HandleIncomingMessage dbg validators client) client w1)
      (\<lambda>((_, rv), w). Inr (rv = MOJO_RESULT_OK, w))))"
    by (rule safe_bind_pair [OF ReadSingleMessage_safe [OF w1'(1,3)]]) auto
  ultimately show ?thesis
    using inv r w1 w1' by (auto simp: WaitForIncomingMessage_def on_connector_def access_def elim: safe_trans)
qed

text \<open>Every call of a careful client keeps the invariant.\<close>

lemma settings_safe:
  assumes "router_inv w" "router w \<noteq> None"
  shows "safe dbg w (set_incoming_receiver b w)" "safe dbg w (EnableTestingMode w)"
  using assms by (auto simp: set_incoming_receiver_def EnableTestingMode_def access_def set_router_def
      router_inv_defs preserve_defs)

lemma perform_safe:
  assumes inv: "router_inv w" and "enabled a w" "wf_action a"
  shows "safe dbg w (perform n dbg validators client a w)"
proof (cases a)
  case (Send m msg)
  with assms show ?thesis
    by (auto simp: Router_Accept_eq bound_def intro!: Connector_Accept_safe split: option.splits)
next
  case (Request m msg responder)
  with assms show ?thesis by (auto intro!: AcceptWithResponder_safe)
next
  case (Respond t m msg)
  with assms ResponderThunk_Accept_safe [OF inv, of t m msg dbg] show ?thesis by simp
next
  case PassPipe
  with assms show ?thesis
    by (auto simp: PassMessagePipe_def router_inv_def CancelWait_eq on_connector_def access_def set_connector_def)
      (auto simp: router_inv_defs preserve_defs)
qed (use assms in \<open>auto intro!: settings_safe ResponderThunk_delete_safe CloseMessagePipe_safe Deliver_safe WaitForIncomingMessage_safe Router_destroy_safe\<close>)

lemma run_safe:
  assumes "router_inv w" and "\<forall>a \<in> set as. wf_action a"
  shows "safe dbg w (run n dbg validators client as w)"
  using assms
proof (induction as arbitrary: w)
  case Nil
  then show ?case by simp
next
  case (Cons a as)
  have "safe dbg w (if enabled a w then perform n dbg validators client a w else Inr w)"
    using Cons.prems perform_safe [of w a n] by simp
  then show ?case using Cons by (auto intro: safe_bindV)
qed

end

section \<open>Scripts are clients\<close>

definition validators_ok :: "MessageValidator list \<Rightarrow> bool" where
  "validators_ok vs \<longleftrightarrow> (\<forall>m msg. placed m msg \<longrightarrow>
     (\<exists>result. RunValidatorsOnMessage vs m msg = Inr result \<and> (result = NONE \<longrightarrow> accepted_header m msg)))"

definition careful :: "script \<Rightarrow> bool" where
  "careful script \<longleftrightarrow> (\<forall>cb mm w. \<forall>a \<in> set (fst (script cb mm w)). wf_action a)"

lemma header_validator_ok: "validators_ok [MessageHeaderValidator_Validate dbg]"
  unfolding validators_ok_def
proof (intro allI impI)
  fix m msg
  assume "placed m msg"
  then obtain r where "MessageHeaderValidator_Validate dbg m msg = Inr r" "r = NONE \<longleftrightarrow> accepted_header m msg"
    using MessageHeaderValidator_accepts by blast
  then show "\<exists>result. RunValidatorsOnMessage [MessageHeaderValidator_Validate dbg] m msg = Inr result \<and>
      (result = NONE \<longrightarrow> accepted_header m msg)" by simp
qed

lemma script_client_contract:
  assumes "validators_ok vs" "careful script"
  shows "router_client dbg vs (script_client n dbg vs script)"
proof (induction n)
  case 0
  show ?case using assms(1) by unfold_locales (auto simp: validators_ok_def)
next
  case (Suc n)
  show ?case
  proof unfold_locales
    fix w cb mm
    assume w: "router_inv w"
    obtain calls ok where c: "script cb mm w = (calls, ok)" by fastforce
    then have "\<forall>a \<in> set calls. wf_action a" using assms(2) by (metis careful_def fst_conv)
    then have "safe dbg w (run n dbg vs (script_client n dbg vs script) calls w)"
      by (rule router_client.run_safe [OF Suc w])
    then show "safe dbg w (state (script_client (Suc n) dbg vs script cb mm w))"
      by (auto simp: c intro!: safe_bind)
  qed (use assms(1) in \<open>auto simp: validators_ok_def callback_result_def res_simps split: prod.splits\<close>)
qed

text \<open>Any script becomes a careful one by leaving out the calls with ill-formed messages.\<close>

definition cautious :: "script \<Rightarrow> script" where
  "cautious script cb mm w = apfst (filter wf_action) (script cb mm w)"

lemma careful_cautious: "careful (cautious script)"
  by (simp add: careful_def cautious_def)

interpretation scripted: router_client dbg "[MessageHeaderValidator_Validate dbg]"
  "script_client n dbg [MessageHeaderValidator_Validate dbg] (cautious script)" for dbg n script
  by (rule script_client_contract [OF header_validator_ok careful_cautious])

section \<open>Runs\<close>

definition fresh :: "world \<Rightarrow> bool" where
  "fresh w \<longleftrightarrow> router w = None \<and> stack_flags w = [] \<and> thunks w = [] \<and> waits w = [] \<and>
     event_log w = [] \<and> system_ok w"

text \<open>A program: a router is made for a pipe, and calls are made on it.\<close>

definition session ::
  "nat \<Rightarrow> bool \<Rightarrow> MessageValidator list \<Rightarrow> script \<Rightarrow> MojoHandle \<Rightarrow> action list \<Rightarrow> world \<Rightarrow> world res"
where
  "session n dbg vs script h calls w =
     bindR (Router_new h w) (run n dbg vs (script_client n dbg vs script) calls)"

lemma Router_new_inv:
  assumes "fresh w" "h \<noteq> MOJO_HANDLE_INVALID"
  shows "\<exists>w0. Router_new h w = Inr w0 \<and> router_inv w0 \<and> event_log w0 = []"
  using assms by (auto simp: fresh_def Router_new_def WaitToReadMore_def on_connector_def access_def
      Connector_new_def waiter_AsyncWait_def Let_def set_connector_def router_inv_defs event_defs)

lemma session_safe:
  assumes "validators_ok vs" "careful script" "fresh w" "h \<noteq> MOJO_HANDLE_INVALID"
    and "\<forall>a \<in> set calls. wf_action a"
  shows "session n dbg vs script h calls w = Inl e \<Longrightarrow> e = OutOfFuel \<or> dbg \<and> e = AssertFailed"
    and "session n dbg vs script h calls w = Inr w' \<Longrightarrow> router_inv w' \<and>
      mset (deleted w') = mset (map snd (answered w' @ dropped w'))"
proof -
  obtain w0 where w0: "Router_new h w = Inr w0" "router_inv w0" "event_log w0 = []"
    using Router_new_inv [OF assms(3,4)] by blast
  have s: "safe dbg w0 (session n dbg vs script h calls w)"
    using router_client.run_safe [OF script_client_contract [OF assms(1,2)] w0(2) assms(5)] w0(1)
    by (simp add: session_def)
  show "session n dbg vs script h calls w = Inl e \<Longrightarrow> e = OutOfFuel \<or> dbg \<and> e = AssertFailed"
    using s by (simp add: safe_def)
  show "session n dbg vs script h calls w = Inr w' \<Longrightarrow> router_inv w' \<and>
      mset (deleted w') = mset (map snd (answered w' @ dropped w'))"
    using s w0(3) by (auto simp: preserves_def settled_def event_defs)
qed


text \<open>A client that destroys the router in the callback of a response.\<close>

definition sample_response :: mem where
  "sample_response = mem_of 64
     [24, 0, 0, 0, 1, 0, 0, 0, 7, 0, 0, 0, 2, 0, 0, 0, 1, 0, 0, 0, 0, 0, 0, 0]"

definition sample_message :: Message where
  "sample_message = \<lparr>msg_num_bytes = 24, msg_data = 64, msg_handles = []\<rparr>"

definition sample_world :: world where
  "sample_world = \<lparr>router = None, weak_self = False, stack_flags = [], thunks = [], waits = [],
     waits_made = 0, waiter = \<lambda>_. 5, reads = [Incoming sample_response sample_message], writes = [],
     wait_results = [], event_log = []\<rparr>"

definition destroying :: script where
  "destroying cb mm w = (case cb of OnResponse _ \<Rightarrow> ([Destroy], True) | _ \<Rightarrow> ([], True))"

definition sample_calls :: "action list" where
  "sample_calls = [Request sample_request sample_message 7, Request sample_request sample_message 8,
     Deliver MOJO_RESULT_OK]"

lemma sample_session:
  "map_sum id (\<lambda>w. (router w = None, waits w, answered w, dropped w, deleted w))
     (session 3 True [MessageHeaderValidator_Validate True] destroying 9 sample_calls sample_world) =
   Inr (True, [], [(1, 7)], [(2, 8)], [8, 7])"
  by code_simp

lemma sample_hypotheses:
  "validators_ok [MessageHeaderValidator_Validate True]" "careful destroying" "fresh sample_world"
  "(9 :: MojoHandle) \<noteq> MOJO_HANDLE_INVALID" "\<forall>a \<in> set sample_calls. wf_action a"
proof -
  show "validators_ok [MessageHeaderValidator_Validate True]" by (rule header_validator_ok)
  show "careful destroying" by (auto simp: careful_def destroying_def split: callback.splits)
  show "fresh sample_world"
    by (simp add: fresh_def sample_world_def system_ok_def placed_def sample_response_def
        sample_message_def mapped_mem_of)
  show "(9 :: MojoHandle) \<noteq> MOJO_HANDLE_INVALID" by (simp add: MOJO_HANDLE_INVALID_def)
  have "peek32 sample_request 68 = 1" "expects_response sample_request 64" by code_simp+
  then show "\<forall>a \<in> set sample_calls. wf_action a"
    by (simp add: sample_calls_def sample_message_def mapped_mem_of sample_request_def)
qed


text \<open>
  Claim C25. A responder is never lost and never used twice: over any run, whatever the clients do in the
  callbacks, the responders that were registered are exactly those still waiting, those whose
  response arrived and those dropped with the router, each once; the request identifiers are
  distinct and not 0, so that a response can answer only the request it belongs to; and the
  responders that were answered or dropped are exactly those deleted, each once.
\<close>

theorem router_responders_once:
  assumes "validators_ok vs" "careful script" "fresh w" "h \<noteq> MOJO_HANDLE_INVALID"
    and "\<forall>a \<in> set calls. wf_action a"
    and "session n dbg vs script h calls w = Inr w'"
  shows "mset (registered w') = mset (outstanding w') + mset (answered w') + mset (dropped w') \<and>
    distinct (map fst (registered w')) \<and> 0 \<notin> fst ` set (registered w') \<and>
    mset (deleted w') = mset (map snd (answered w' @ dropped w'))"
  using session_safe(2) [OF assms] by (simp add: router_inv_def accounted_def)

theorem router_responders_once_witness:
  "\<exists>w'. session 3 True [MessageHeaderValidator_Validate True] destroying 9 sample_calls sample_world = Inr w' \<and>
     mset (registered w') = {#(1, 7), (2, 8)#} \<and> mset (deleted w') = {#7, 8#} \<and>
     distinct (map fst (registered w'))"
proof (cases "session 3 True [MessageHeaderValidator_Validate True] destroying 9 sample_calls sample_world")
  case (Inr w')
  with router_responders_once [OF sample_hypotheses Inr] sample_session show ?thesis
    by (auto simp: outstanding_def)
qed (use sample_session in simp)

end
