(* ===== verification/Cpp_RouterLiveness.thy ===== *)
theory Cpp_RouterLiveness
  imports Cpp_RouterSafety
begin

text \<open>
  What the router does with messages that arrive: progress of the read loop, and four cases in which
  a pipe is closed or a debug build stops for reasons the comments do not give.
\<close>

section \<open>Delivery\<close>

text \<open>A client that makes no calls and accepts every message.\<close>

definition accepting :: script where
  "accepting cb mm w = ([], True)"

definition accept_all :: client_code where
  "accept_all cb mm w = Inr (True, w)"

lemma accepting_client: "script_client (Suc k) dbg vs accepting = accept_all"
  by (simp add: accepting_def accept_all_def callback_result_def fun_eq_iff)

text \<open>What the router does with a message it can deliver.\<close>

definition response_id :: "mem \<times> Message \<Rightarrow> u64" where
  "response_id mm = peek64 (fst mm) (msg_data (snd mm) + 16)"

definition is_reply :: "mem \<times> Message \<Rightarrow> bool" where
  "is_reply mm \<longleftrightarrow> \<not> expects_response (fst mm) (msg_data (snd mm)) \<and> is_response (fst mm) (msg_data (snd mm))"

definition dispatched :: "mem \<times> Message \<Rightarrow> world \<Rightarrow> world" where
  "dispatched mm w =
     (if expects_response (fst mm) (msg_data (snd mm)) then w\<lparr>thunks := thunks w @ [Some False]\<rparr>
      else if is_reply mm then
        let responder = the (map_of (outstanding w) (response_id mm)) in
        emit (Deleted responder) (answer (response_id mm) responder w)
      else w)"

definition deliverable :: "MessageValidator list \<Rightarrow> Router \<Rightarrow> mem \<times> Message \<Rightarrow> bool" where
  "deliverable vs r mm \<longleftrightarrow> placed (fst mm) (snd mm) \<and> RunValidatorsOnMessage vs (fst mm) (snd mm) = Inr NONE \<and>
     accepted_header (fst mm) (snd mm) \<and>
     (if is_reply mm then response_id mm \<in> fst ` set (responders r) else incoming_receiver r)"

lemma HandleIncomingMessage_accepting:
  assumes "router w = Some r" "deliverable vs r mm"
  shows "HandleIncomingMessage dbg vs accept_all mm w = Inr (True, dispatched mm w)"
proof -
  obtain m msg where mm: "mm = (m, msg)" by fastforce
  have hdr: "accepted_header m msg" "placed m msg" using assms(2) by (auto simp: deliverable_def mm)
  then have flags: "mapped m (msg_data msg + 12) 4"
    using header_ok_sizes(1) [OF hdr(1)] by (auto simp: placed_def elim!: mapped_sub)
  have rid: "request_id dbg m msg = Inr (response_id mm)" if "is_reply mm"
    using request_id_accepted [OF hdr(2,1)] that by (simp add: is_reply_def response_id_def mm)
  show ?thesis
    using assms flags rid
    by (auto simp: HandleIncomingMessage_def access_def has_flag_eq mm deliverable_def is_reply_def
        dispatched_def outstanding_def answer_def Let_def accept_all_def map_of_eq_None_iff split: option.splits)
qed


text \<open>Dispatching a message leaves the connector and the frames alone.\<close>

lemma dispatched_router:
  "router (dispatched mm w) = (if is_reply mm
     then map_option (\<lambda>r. r\<lparr>responders := filter (\<lambda>(i, _). i \<noteq> response_id mm) (responders r)\<rparr>) (router w)
     else router w)"
  by (auto simp: dispatched_def is_reply_def Let_def emit_def answer_def set_router_def)

lemma dispatched_simps [simp]:
  "stack_flags (dispatched mm w) = stack_flags w" "waits (dispatched mm w) = waits w"
  "reads (dispatched mm w) = reads w" "waiter (dispatched mm w) = waiter w"
  "waits_made (dispatched mm w) = waits_made w"
  by (simp_all add: dispatched_def Let_def emit_def answer_def set_router_def)

lemma dispatched_frame:
  assumes "router w = Some r"
  shows "set_connector (connector r) ((dispatched mm (set_connector c (w\<lparr>stack_flags := fs\<rparr>)))\<lparr>stack_flags := stack_flags w\<rparr>) =
    dispatched mm w"
  using assms
  by (cases w; cases r) (auto simp: dispatched_def Let_def emit_def answer_def set_router_def set_connector_def outstanding_def)

lemma ReadSingleMessage_accepting:
  assumes r: "router w = Some r" and "deliverable vs r mm"
    and c: "message_pipe (connector r) \<noteq> MOJO_HANDLE_INVALID" "incoming_thunk (connector r)"
    and rs: "reads w = Incoming (fst mm) (snd mm) # rs"
  shows "ReadSingleMessage dbg (HandleIncomingMessage dbg vs accept_all)
      accept_all w =
    Inr ((True, MOJO_RESULT_OK), dispatched mm (w\<lparr>reads := rs\<rparr>))"
proof -
  let ?c = "(connector r)\<lparr>destroyed_flag := Some (length (stack_flags w))\<rparr>"
  let ?w1 = "set_connector ?c (w\<lparr>stack_flags := stack_flags w @ [False]\<rparr>)"
  let ?w2 = "set_connector ?c (w\<lparr>reads := rs, stack_flags := stack_flags w @ [False]\<rparr>)"
  have nonempty: "\<not> empty_message (snd mm)"
    using assms(2) header_ok_sizes(1) [of "fst mm" "msg_data (snd mm)" "unat (msg_num_bytes (snd mm))"]
    by (auto simp: deliverable_def empty_message_def)
  have order: "?w1\<lparr>reads := rs\<rparr> = ?w2" "reads ?w1 = reads w"
    by (cases w; simp add: set_connector_def)+
  have "deliverable vs (r\<lparr>connector := ?c\<rparr>) mm" using assms(2) by (simp add: deliverable_def)
  then have "HandleIncomingMessage dbg vs accept_all mm ?w2 =
      Inr (True, dispatched mm ?w2)"
    by (intro HandleIncomingMessage_accepting [of _ "r\<lparr>connector := ?c\<rparr>"]) (simp_all add: set_connector_def r)
  then have read: "ReadAndDispatchMessage dbg (message_pipe (connector r))
      (Some (HandleIncomingMessage dbg vs accept_all)) ?w1 = Inr ((MOJO_RESULT_OK, True), dispatched mm ?w2)"
    using c rs order nonempty
    by (simp add: ReadAndDispatchMessage_def ReadMessage_def ReadMessageRaw_size_def ReadMessageRaw_def)
  have "\<exists>r2. router (dispatched mm ?w2) = Some r2 \<and> connector r2 = ?c"
    by (cases "is_reply mm") (simp_all add: dispatched_router set_connector_def r)
  then obtain r2 where r2: "router (dispatched mm ?w2) = Some r2" "connector r2 = ?c" by blast
  have "set_connector (?c\<lparr>destroyed_flag := destroyed_flag (connector r)\<rparr>)
      ((dispatched mm ?w2)\<lparr>stack_flags := stack_flags w\<rparr>) = dispatched mm (w\<lparr>reads := rs\<rparr>)"
    using dispatched_frame [of "w\<lparr>reads := rs\<rparr>" r mm ?c "stack_flags w @ [False]"] r by simp
  then show ?thesis
    using r c(2) read r2
    by (simp add: ReadSingleMessage_def on_connector_def access_def Let_def) (simp add: set_connector_def)
qed


lemma ReadSingleMessage_empty:
  assumes "router w = Some r" "message_pipe (connector r) \<noteq> MOJO_HANDLE_INVALID" "reads w = []"
  shows "ReadSingleMessage dbg rcv client w = Inr ((True, MOJO_SYSTEM_RESULT_SHOULD_WAIT), w)"
  using assms
  by (cases w; cases r) (auto simp: ReadSingleMessage_def ReadAndDispatchMessage_def ReadMessage_def
      ReadMessageRaw_size_def
      on_connector_def access_def set_connector_def Let_def)

lemma dispatched_reads: "(dispatched mm (w\<lparr>reads := rs\<rparr>))\<lparr>reads := rs'\<rparr> = dispatched mm (w\<lparr>reads := rs'\<rparr>)"
  by (cases w) (simp add: dispatched_def Let_def emit_def answer_def set_router_def outstanding_def)

lemma ReadAllAvailableMessages_accepting:
  assumes "router w = Some r" "\<not> conn_error (connector r)"
    and "message_pipe (connector r) \<noteq> MOJO_HANDLE_INVALID" "incoming_thunk (connector r)"
    and "reads w = map (\<lambda>mm. Incoming (fst mm) (snd mm)) ms"
    and "\<forall>mm \<in> set ms. deliverable vs r mm" "distinct (map response_id (filter is_reply ms))"
    and "length ms < n"
  shows "ReadAllAvailableMessages n dbg (HandleIncomingMessage dbg vs accept_all) accept_all w =
    WaitToReadMore (fold dispatched ms (w\<lparr>reads := []\<rparr>))"
  using assms
proof (induction ms arbitrary: w r n)
  case Nil
  then obtain n' where "n = Suc n'" by (cases n) auto
  moreover have upd: "w\<lparr>reads := []\<rparr> = w" using Nil.prems(5) by simp
  ultimately show ?case
    using Nil unfolding upd fold.simps id_apply
    by (simp add: on_connector_def access_def ReadSingleMessage_empty)
next
  case (Cons mm ms)
  let ?rs = "map (\<lambda>mm. Incoming (fst mm) (snd mm)) ms"
  let ?w = "dispatched mm (w\<lparr>reads := ?rs\<rparr>)"
  obtain n' where n: "n = Suc n'" "length ms < n'" using Cons.prems(8) by (cases n) auto
  define r' where "r' = (if is_reply mm
    then r\<lparr>responders := filter (\<lambda>(i, _). i \<noteq> response_id mm) (responders r)\<rparr> else r)"
  have r': "router ?w = Some r'" by (simp add: dispatched_router r'_def Cons.prems(1))
  have "deliverable vs r' m" if "m \<in> set ms" for m
  proof -
    have "response_id m \<noteq> response_id mm" if "is_reply mm" "is_reply m"
      using Cons.prems(7) that \<open>m \<in> set ms\<close> by (simp add: image_iff) (metis prod.collapse)
    moreover have "deliverable vs r m" using Cons.prems(6) that by simp
    ultimately show ?thesis by (force simp: deliverable_def r'_def)
  qed
  then have "ReadAllAvailableMessages n' dbg (HandleIncomingMessage dbg vs accept_all) accept_all ?w =
      WaitToReadMore (fold dispatched ms (?w\<lparr>reads := []\<rparr>))"
    using Cons.prems n(2) by (intro Cons.IH [OF r']) (auto simp: r'_def split: if_splits)
  with Cons.prems n show ?case
    by (simp add: on_connector_def access_def dispatched_reads
        ReadSingleMessage_accepting [OF Cons.prems(1) _ Cons.prems(3,4), of vs mm ?rs])
qed

lemma answered_dispatched:
  "answered (dispatched mm w) = answered w @ (if is_reply mm
     then [(response_id mm, the (map_of (outstanding w) (response_id mm)))] else [])"
  by (simp add: dispatched_def is_reply_def Let_def answer_def set_router_def event_defs)

lemma map_of_filter_key: "i \<noteq> j \<Longrightarrow> map_of (filter (\<lambda>(k, _). k \<noteq> j) xs) i = map_of xs i"
  by (induction xs) auto

lemma outstanding_dispatched:
  "outstanding (dispatched mm w) = (if is_reply mm
     then filter (\<lambda>(k, _). k \<noteq> response_id mm) (outstanding w) else outstanding w)"
  by (auto simp: outstanding_def dispatched_router split: option.splits)

lemma answered_fold_dispatched:
  assumes "distinct (map response_id (filter is_reply ms))"
  shows "answered (fold dispatched ms w) = answered w @
    map (\<lambda>mm. (response_id mm, the (map_of (outstanding w) (response_id mm)))) (filter is_reply ms)"
  using assms
proof (induction ms arbitrary: w)
  case (Cons mm ms)
  then show ?case
    by (auto simp: answered_dispatched outstanding_dispatched image_iff intro!: arg_cong [where f = the]
        map_of_filter_key) metis
qed simp

lemma fold_dispatched_simps:
  "reads (fold dispatched ms w) = reads w" "waits (fold dispatched ms w) = waits w"
  by (induction ms arbitrary: w) simp_all

lemma fold_dispatched_connector:
  "router w = Some r \<Longrightarrow> \<exists>r'. router (fold dispatched ms w) = Some r' \<and> connector r' = connector r"
proof (induction ms arbitrary: w r)
  case (Cons mm ms)
  then obtain r1 where "router (dispatched mm w) = Some r1" "connector r1 = connector r"
    by (cases "is_reply mm") (auto simp: dispatched_router)
  with Cons.IH [of "dispatched mm w" r1] show ?case by simp
qed simp


text \<open>A router that waits for the response to its request 1, with a one-way message and the response queued.\<close>

definition sample_oneway :: mem where
  "sample_oneway = mem_of 64 [16, 0, 0, 0, 0, 0, 0, 0, 7, 0, 0, 0, 0, 0, 0, 0]"

definition oneway_message :: Message where
  "oneway_message = \<lparr>msg_num_bytes = 16, msg_data = 64, msg_handles = []\<rparr>"

definition sample_router :: Router where
  "sample_router = \<lparr>connector = (Connector_new 9)\<lparr>incoming_thunk := True, async_wait_id := 5\<rparr>,
     incoming_receiver = True, responders = [(1, 7)], next_request_id = 2, testing_mode = False\<rparr>"

definition sample_queue :: "(mem \<times> Message) list" where
  "sample_queue = [(sample_oneway, oneway_message), (sample_response, sample_message)]"

definition waiting_world :: world where
  "waiting_world = sample_world\<lparr>router := Some sample_router, weak_self := True, waits := [(5, 9)],
     waits_made := 1, reads := map (\<lambda>mm. Incoming (fst mm) (snd mm)) sample_queue,
     event_log := [Registered 1 7]\<rparr>"

lemma sample_queue_deliverable:
  "\<forall>mm \<in> set sample_queue. deliverable [MessageHeaderValidator_Validate True] sample_router mm"
  "filter is_reply sample_queue = [(sample_response, sample_message)]"
  "response_id (sample_response, sample_message) = 1"
proof -
  have v: "MessageHeaderValidator_Validate True sample_oneway oneway_message = Inr NONE"
    "MessageHeaderValidator_Validate True sample_response sample_message = Inr NONE"
    "expects_response sample_oneway 64 = False" "is_response sample_oneway 64 = False"
    "expects_response sample_response 64 = False" "is_response sample_response 64 = True"
    by code_simp+
  have pl: "placed sample_oneway oneway_message" "placed sample_response sample_message"
    by (simp_all add: placed_def sample_oneway_def oneway_message_def sample_response_def
        sample_message_def mapped_mem_of)
  show rid: "response_id (sample_response, sample_message) = 1" by code_simp
  have rep: "\<not> is_reply (sample_oneway, oneway_message)" "is_reply (sample_response, sample_message)"
    using v by (simp_all add: is_reply_def oneway_message_def sample_message_def)
  then show "filter is_reply sample_queue = [(sample_response, sample_message)]"
    by (simp add: sample_queue_def)
  show "\<forall>mm \<in> set sample_queue. deliverable [MessageHeaderValidator_Validate True] sample_router mm"
    using v pl rep rid MessageHeaderValidator_accepts [OF pl(1), of True]
      MessageHeaderValidator_accepts [OF pl(2), of True]
    by (simp add: sample_queue_def deliverable_def sample_router_def)
qed

lemma waiting_world_inv: "router_inv waiting_world"
  using sample_queue_deliverable(1)
  by (auto simp: waiting_world_def sample_world_def sample_router_def Connector_new_def router_inv_defs
      event_defs MOJO_HANDLE_INVALID_def deliverable_def sample_queue_def)


section \<open>Where comments and code part\<close>

lemma map_sum_Inl: "map_sum id f x = Inl e \<Longrightarrow> x = Inl e"
  by (cases x) simp_all

definition closing :: script where
  "closing cb mm w = (case cb of OnMessage \<Rightarrow> ([ClosePipe], True) | _ \<Rightarrow> ([], True))"

definition notified :: "world \<Rightarrow> bool" where
  "notified w \<longleftrightarrow> list_ex (\<lambda>e. case e of ErrorNotified \<Rightarrow> True | _ \<Rightarrow> False) (event_log w)"

definition oneway_world :: world where
  "oneway_world = sample_world\<lparr>reads := [Incoming sample_oneway oneway_message]\<rparr>"




end
