(* ===== verification/Cpp_RunLoop.thy ===== *)
theory Cpp_RunLoop
  imports Cpp_Connector "HOL-Library.AList"
begin

text \<open>
  \<^verbatim>\<open>run_loop.h\<close> and \<^verbatim>\<open>run_loop.cc\<close>: the loop of a thread. It watches handles with a wait set, calls a
  handler when its handle is ready or fails or its deadline passes, and runs tasks that were posted with
  a delay.

  The state holds the loop, \<^term>\<open>None\<close> once it is destroyed; the frames of the active calls of
  \<^verbatim>\<open>RunInternal\<close>, innermost last; the entries of the wait set; the clock; and what the waits are going to
  return. Handlers and tasks are numbers. What they do is the argument \<open>client\<close>, a function on the state:
  it may call the loop again. Loops that run such code take a bound on their rounds.

  Times (\<^verbatim>\<open>MojoTimeTicks\<close>) are integers; a deadline (\<^verbatim>\<open>MojoDeadline\<close>) is a 64-bit word.
\<close>

section \<open>Priority queues\<close>

text \<open>
  \<^verbatim>\<open>std::priority_queue\<close> for an order \<open>lt\<close> is a list with the greatest element first; an element goes
  behind those that are greater.
\<close>

definition pq_push :: "('a \<Rightarrow> 'a \<Rightarrow> bool) \<Rightarrow> 'a \<Rightarrow> 'a list \<Rightarrow> 'a list" where
  "pq_push lt x q = takeWhile (lt x) q @ x # dropWhile (lt x) q"

section \<open>Data\<close>

definition kInvalidTimeTicks :: int where "kInvalidTimeTicks = 0"

definition kMaxMojoTimeTicks :: int where "kMaxMojoTimeTicks = 2 ^ 63 - 1"

definition MOJO_DEADLINE_INDEFINITE :: u64 where "MOJO_DEADLINE_INDEFINITE = - 1"

definition kInitialWaitSetNumResults :: u32 where "kInitialWaitSetNumResults = 16"

definition kMaximumWaitSetNumResults :: u32 where "kMaximumWaitSetNumResults = 256"

definition MOJO_SYSTEM_RESULT_CANCELLED :: u32 where
  "MOJO_SYSTEM_RESULT_CANCELLED = MOJO_RESULT_MAKE 0x1 0 0"

definition MOJO_SYSTEM_RESULT_NOT_FOUND :: u32 where
  "MOJO_SYSTEM_RESULT_NOT_FOUND = MOJO_RESULT_MAKE 0x5 0 0"

definition MOJO_SYSTEM_RESULT_ALREADY_EXISTS :: u32 where
  "MOJO_SYSTEM_RESULT_ALREADY_EXISTS = MOJO_RESULT_MAKE 0x6 0 0"

definition MOJO_SYSTEM_RESULT_ABORTED :: u32 where
  "MOJO_SYSTEM_RESULT_ABORTED = MOJO_RESULT_MAKE 0xA 0 0"

lemma more_result_values [simp]:
  "MOJO_SYSTEM_RESULT_CANCELLED = 0x01" "MOJO_SYSTEM_RESULT_NOT_FOUND = 0x05"
  "MOJO_SYSTEM_RESULT_ALREADY_EXISTS = 0x06" "MOJO_SYSTEM_RESULT_ABORTED = 0x0A"
  by code_simp+

record HandlerInfo =
  handler :: nat
  handle_signals :: u32
  hi_absolute_deadline :: int

record HandlerDeadlineInfo =
  hd_id :: u64
  hd_absolute_deadline :: int

definition HandlerDeadlineInfo_less :: "HandlerDeadlineInfo \<Rightarrow> HandlerDeadlineInfo \<Rightarrow> bool" where
  "HandlerDeadlineInfo_less a b \<longleftrightarrow>
     (if hd_absolute_deadline a = hd_absolute_deadline b then hd_id a < hd_id b
      else hd_absolute_deadline a > hd_absolute_deadline b)"

record DelayedTaskInfo =
  dt_id :: u64
  dt_task :: nat
  absolute_run_time :: int

definition DelayedTaskInfo_less :: "DelayedTaskInfo \<Rightarrow> DelayedTaskInfo \<Rightarrow> bool" where
  "DelayedTaskInfo_less a b \<longleftrightarrow>
     (if absolute_run_time a = absolute_run_time b then dt_id a > dt_id b
      else absolute_run_time a > absolute_run_time b)"

record RunState =
  should_quit :: bool
  results_size :: u32

record RunLoop =
  loop_next_id :: u64
  handlers :: "(u64 \<times> HandlerInfo) list"
  handler_deadlines :: "HandlerDeadlineInfo list"
  delayed_tasks :: "DelayedTaskInfo list"
  current_run_state :: "nat option"

text \<open>A result of a wait is a cookie with the state of its entry.\<close>

datatype wait_outcome =
    WaitReturns "(u64 \<times> u32) list" u32
  | WaitTimesOut
  | WaitFails u32

datatype loop_event =
    Added u64
  | Removed u64
  | Notified u64 u32
  | Posted u64
  | TaskRun u64

record loop_world =
  run_loop :: "RunLoop option"
  current_loop :: bool
  run_states :: "RunState list"
  wait_set :: "(u64 \<times> MojoHandle \<times> u32) list"
  time_now :: int
  elapses :: "nat list"
  wait_outcomes :: "wait_outcome list"
  loop_log :: "loop_event list"

datatype loop_callback =
    RunTask nat
  | HandleReady nat u64
  | HandleError nat u64 u32

type_synonym loop_client = "loop_callback \<Rightarrow> loop_world \<Rightarrow> loop_world res"

definition on_loop :: "(RunLoop \<Rightarrow> loop_world \<Rightarrow> 'a res) \<Rightarrow> loop_world \<Rightarrow> 'a res" where
  "on_loop f w = (case run_loop w of None \<Rightarrow> Inl BadAccess | Some l \<Rightarrow> f l w)"

definition upd_loop :: "(RunLoop \<Rightarrow> RunLoop) \<Rightarrow> loop_world \<Rightarrow> loop_world" where
  "upd_loop f w = w\<lparr>run_loop := map_option f (run_loop w)\<rparr>"

definition note_event :: "loop_event \<Rightarrow> loop_world \<Rightarrow> loop_world" where
  "note_event e w = w\<lparr>loop_log := loop_log w @ [e]\<rparr>"

text \<open>\<^verbatim>\<open>std::map\<close>: an association list in the order of the keys.\<close>

definition map_insert :: "u64 \<Rightarrow> 'v \<Rightarrow> (u64 \<times> 'v) list \<Rightarrow> (u64 \<times> 'v) list" where
  "map_insert k v m = (if k \<in> fst ` set m then m else insort_key fst (k, v) m)"

definition map_erase :: "u64 \<Rightarrow> (u64 \<times> 'v) list \<Rightarrow> (u64 \<times> 'v) list" where
  "map_erase k m = filter (\<lambda>(j, _). j \<noteq> k) m"

section \<open>The system\<close>

text \<open>
  The documented behaviour of the clock and of wait sets. The clock never goes back. A wait returns for
  entries of the set, each once, in any order: of the results that are given for the next wait, those
  that refer to an entry count, and if there are none the wait lasts until its deadline. A wait
  without deadline may then last forever, which is the end of the run.
\<close>

definition GetTimeTicksNow :: "loop_world \<Rightarrow> int \<times> loop_world" where
  "GetTimeTicksNow w =
     (case elapses w of
        [] \<Rightarrow> (time_now w, w)
      | d # ds \<Rightarrow>
          let now = max (time_now w) (min kMaxMojoTimeTicks (time_now w + int d)) in
          (now, w\<lparr>time_now := now, elapses := ds\<rparr>))"

definition WaitSetAdd :: "MojoHandle \<Rightarrow> u32 \<Rightarrow> u64 \<Rightarrow> loop_world \<Rightarrow> u32 \<times> loop_world" where
  "WaitSetAdd h signals cookie w =
     (if h = MOJO_HANDLE_INVALID then (MOJO_SYSTEM_RESULT_INVALID_ARGUMENT, w)
      else if cookie \<in> fst ` set (wait_set w) then (MOJO_SYSTEM_RESULT_ALREADY_EXISTS, w)
      else (MOJO_RESULT_OK, w\<lparr>wait_set := wait_set w @ [(cookie, h, signals)]\<rparr>))"

definition WaitSetRemove :: "u64 \<Rightarrow> loop_world \<Rightarrow> u32 \<times> loop_world" where
  "WaitSetRemove cookie w =
     (if cookie \<in> fst ` set (wait_set w)
      then (MOJO_RESULT_OK, w\<lparr>wait_set := filter (\<lambda>(c, _). c \<noteq> cookie) (wait_set w)\<rparr>)
      else (MOJO_SYSTEM_RESULT_NOT_FOUND, w))"

definition set_results :: "loop_world \<Rightarrow> (u64 \<times> u32) list \<Rightarrow> (u64 \<times> u32) list" where
  "set_results w rs = AList.clearjunk (filter (\<lambda>(c, _). c \<in> fst ` set (wait_set w)) rs)"

definition wait_times_out :: "u64 \<Rightarrow> loop_world \<Rightarrow> ((u32 \<times> (u64 \<times> u32) list \<times> u32) \<times> loop_world) res" where
  "wait_times_out deadline w =
     (if deadline = MOJO_DEADLINE_INDEFINITE then Inl OutOfFuel
      else Inr ((MOJO_SYSTEM_RESULT_DEADLINE_EXCEEDED, [], 0),
        w\<lparr>time_now := max (time_now w) (min kMaxMojoTimeTicks (time_now w + uint deadline))\<rparr>))"

definition WaitSetWait :: "u64 \<Rightarrow> loop_world \<Rightarrow> ((u32 \<times> (u64 \<times> u32) list \<times> u32) \<times> loop_world) res" where
  "WaitSetWait deadline w =
     (case wait_outcomes w of
        [] \<Rightarrow> wait_times_out deadline w
      | p # ps \<Rightarrow>
          let w = w\<lparr>wait_outcomes := ps\<rparr> in
          case p of
            WaitFails rv \<Rightarrow> Inr ((rv, [], 0), w)
          | WaitTimesOut \<Rightarrow> wait_times_out deadline w
          | WaitReturns rs max_results \<Rightarrow>
              if set_results w rs = [] then wait_times_out deadline w
              else Inr ((MOJO_RESULT_OK, set_results w rs, max_results), w))"

section \<open>Handlers and tasks\<close>

text \<open>
  The absolute deadline of a handler, for which it goes into the queue; a deadline that is too large to
  be added to the clock is none.
\<close>

definition add_deadline :: "u64 \<Rightarrow> u64 \<Rightarrow> loop_world \<Rightarrow> int \<times> loop_world" where
  "add_deadline i deadline w =
     (if deadline \<le> word_of_int kMaxMojoTimeTicks then
        case GetTimeTicksNow w of
          (now, w) \<Rightarrow>
            if deadline \<le> word_of_int (kMaxMojoTimeTicks - now) then
              (now + uint deadline,
               upd_loop (\<lambda>l. l\<lparr>handler_deadlines := pq_push HandlerDeadlineInfo_less
                 \<lparr>hd_id = i, hd_absolute_deadline = now + uint deadline\<rparr> (handler_deadlines l)\<rparr>) w)
            else (kInvalidTimeTicks, w)
      else (kInvalidTimeTicks, w))"

definition AddHandler :: "nat \<Rightarrow> MojoHandle \<Rightarrow> u32 \<Rightarrow> u64 \<Rightarrow> loop_world \<Rightarrow> (u64 \<times> loop_world) res" where
  "AddHandler h hdl signals deadline = on_loop (\<lambda>l w.
     assertC (current_loop w) (
     assertC (h \<noteq> 0) (
     assertC (hdl \<noteq> MOJO_HANDLE_INVALID) (
     let i = loop_next_id l in
     case add_deadline i deadline (upd_loop (\<lambda>l. l\<lparr>loop_next_id := loop_next_id l + 1\<rparr>) w) of
       (absolute_deadline, w) \<Rightarrow>
         let w = upd_loop (\<lambda>l. l\<lparr>handlers := map_insert i
                   \<lparr>handler = h, handle_signals = signals, hi_absolute_deadline = absolute_deadline\<rparr>
                   (handlers l)\<rparr>) w in
         case WaitSetAdd hdl signals i w of
           (result, w) \<Rightarrow> assertC (result = MOJO_RESULT_OK) (Inr (i, note_event (Added i) w))))))"

definition RemoveHandler :: "u64 \<Rightarrow> loop_world \<Rightarrow> loop_world res" where
  "RemoveHandler i = on_loop (\<lambda>l w.
     assertC (current_loop w) (
     case map_of (handlers l) i of
       None \<Rightarrow> Inr w
     | Some _ \<Rightarrow>
         let w = upd_loop (\<lambda>l. l\<lparr>handlers := map_erase i (handlers l)\<rparr>) w in
         case WaitSetRemove i w of
           (result, w) \<Rightarrow> assertC (result = MOJO_RESULT_OK) (Inr (note_event (Removed i) w))))"

definition PostDelayedTask :: "nat \<Rightarrow> int \<Rightarrow> loop_world \<Rightarrow> loop_world res" where
  "PostDelayedTask t delay = on_loop (\<lambda>l w.
     assertC (current_loop w) (
     let i = loop_next_id l;
         w = upd_loop (\<lambda>l. l\<lparr>loop_next_id := loop_next_id l + 1\<rparr>) w in
     case GetTimeTicksNow w of
       (now, w) \<Rightarrow>
         assertC (delay \<le> kMaxMojoTimeTicks - now) (
         Inr (note_event (Posted i) (upd_loop (\<lambda>l. l\<lparr>delayed_tasks := pq_push DelayedTaskInfo_less
           \<lparr>dt_id = i, dt_task = t, absolute_run_time = now + delay\<rparr> (delayed_tasks l)\<rparr>) w)))))"

definition Quit :: "loop_world \<Rightarrow> loop_world res" where
  "Quit = on_loop (\<lambda>l w.
     assertC (current_loop w) (
     case current_run_state l of
       None \<Rightarrow> Inr w
     | Some f \<Rightarrow> Inr (w\<lparr>run_states := (run_states w)[f := (run_states w ! f)\<lparr>should_quit := True\<rparr>]\<rparr>)))"

section \<open>Running\<close>

text \<open>\<^verbatim>\<open>current_run_state_->should_quit\<close>\<close>

definition quitting :: "RunLoop \<Rightarrow> loop_world \<Rightarrow> bool res" where
  "quitting l w =
     (case current_run_state l of
        None \<Rightarrow> Inl BadAccess
      | Some f \<Rightarrow> Inr (should_quit (run_states w ! f)))"

text \<open>The first loop of \<^verbatim>\<open>DoIteration\<close>. It returns whether a task was run, and whether to quit.\<close>

primrec run_tasks ::
  "nat \<Rightarrow> loop_client \<Rightarrow> DelayedTaskInfo \<Rightarrow> nat \<Rightarrow> bool \<Rightarrow> loop_world \<Rightarrow> ((bool \<times> bool) \<times> loop_world) res"
where
  "run_tasks 0 client now_task run_state should_continue w = Inl OutOfFuel"
| "run_tasks (Suc n) client now_task run_state should_continue w = on_loop (\<lambda>l w.
     case delayed_tasks l of
       [] \<Rightarrow> Inr ((should_continue, False), w)
     | t # ts \<Rightarrow>
         if DelayedTaskInfo_less now_task t then
           bindR (client (RunTask (dt_task t))
             (note_event (TaskRun (dt_id t)) (upd_loop (\<lambda>l. l\<lparr>delayed_tasks := tl (delayed_tasks l)\<rparr>) w))) (\<lambda>w.
           if should_quit (run_states w ! run_state) then Inr ((True, True), w)
           else run_tasks n client now_task run_state True w)
         else Inr ((should_continue, False), w)) w"

text \<open>The stale entries at the top of the queue, those of handlers that are gone, are removed.\<close>

definition drop_stale :: "RunLoop \<Rightarrow> RunLoop" where
  "drop_stale l = l\<lparr>handler_deadlines :=
     dropWhile (\<lambda>d. map_of (handlers l) (hd_id d) = None) (handler_deadlines l)\<rparr>"

definition CalculateAbsoluteDeadline :: "loop_world \<Rightarrow> ((int \<times> bool) \<times> loop_world) res" where
  "CalculateAbsoluteDeadline = on_loop (\<lambda>l w.
     assertC (handlers l \<noteq> []) (
     case (case delayed_tasks l of
             [] \<Rightarrow> (kInvalidTimeTicks, False)
           | t # _ \<Rightarrow> (absolute_run_time t, True)) of
       (absolute_deadline, is_delayed_task) \<Rightarrow>
         let w = upd_loop drop_stale w in
         case handler_deadlines (drop_stale l) of
           [] \<Rightarrow> Inr ((absolute_deadline, is_delayed_task), w)
         | info # _ \<Rightarrow>
             if absolute_deadline = kInvalidTimeTicks \<or> hd_absolute_deadline info < absolute_deadline
             then Inr ((hd_absolute_deadline info, False), w)
             else Inr ((absolute_deadline, is_delayed_task), w)))"

primrec NotifyResults_loop ::
  "loop_client \<Rightarrow> (u64 \<times> u32) list \<Rightarrow> bool \<Rightarrow> loop_world \<Rightarrow> (bool \<times> loop_world) res"
where
  "NotifyResults_loop client [] did_work w = Inr (did_work, w)"
| "NotifyResults_loop client (result # rest) did_work w = on_loop (\<lambda>l w.
     case result of
       (i, wait_result) \<Rightarrow>
         case map_of (handlers l) i of
           None \<Rightarrow> NotifyResults_loop client rest did_work w
         | Some info \<Rightarrow>
             let w = upd_loop (\<lambda>l. l\<lparr>handlers := map_erase i (handlers l)\<rparr>) w in
             case WaitSetRemove i w of
               (r, w) \<Rightarrow>
                 assertC (r = MOJO_RESULT_OK) (
                 bindR (client (if wait_result = MOJO_RESULT_OK then HandleReady (handler info) i
                                else HandleError (handler info) i wait_result)
                   (note_event (Notified i wait_result) w)) (\<lambda>w.
                 on_loop (\<lambda>l w.
                   bindR (quitting l w) (\<lambda>quit.
                   if quit then Inr (True, w)
                   else NotifyResults_loop client rest True w)) w))) w"

definition NotifyResults :: "loop_client \<Rightarrow> (u64 \<times> u32) list \<Rightarrow> loop_world \<Rightarrow> (bool \<times> loop_world) res" where
  "NotifyResults client results w =
     assertC (results \<noteq> []) (NotifyResults_loop client results False w)"

primrec deadlines_loop :: "nat \<Rightarrow> loop_client \<Rightarrow> int \<Rightarrow> bool \<Rightarrow> loop_world \<Rightarrow> (bool \<times> loop_world) res"
where
  "deadlines_loop 0 client absolute_deadline did_work w = Inl OutOfFuel"
| "deadlines_loop (Suc n) client absolute_deadline did_work w = on_loop (\<lambda>l w.
     case handler_deadlines l of
       [] \<Rightarrow> Inr (did_work, w)
     | info # infos \<Rightarrow>
         if hd_absolute_deadline info > absolute_deadline then Inr (did_work, w)
         else case map_of (handlers l) (hd_id info) of
           None \<Rightarrow> deadlines_loop n client absolute_deadline did_work
                     (upd_loop (\<lambda>l. l\<lparr>handler_deadlines := infos\<rparr>) w)
         | Some h \<Rightarrow>
             let w = upd_loop (\<lambda>l. l\<lparr>handlers := map_erase (hd_id info) (handlers l),
                                    handler_deadlines := infos\<rparr>) w in
             bindR (client (HandleError (handler h) (hd_id info) MOJO_SYSTEM_RESULT_DEADLINE_EXCEEDED)
               (note_event (Notified (hd_id info) MOJO_SYSTEM_RESULT_DEADLINE_EXCEEDED) w)) (\<lambda>w.
             on_loop (\<lambda>l w.
               bindR (quitting l w) (\<lambda>quit.
               if quit then Inr (True, w)
               else deadlines_loop n client absolute_deadline True w)) w)) w"

definition NotifyHandlersDeadlineExceeded ::
  "nat \<Rightarrow> loop_client \<Rightarrow> int \<Rightarrow> loop_world \<Rightarrow> (bool \<times> loop_world) res"
where
  "NotifyHandlersDeadlineExceeded n client absolute_deadline = on_loop (\<lambda>l w.
     assertC (handlers l \<noteq> []) (
     assertC (absolute_deadline \<noteq> kInvalidTimeTicks) (
     deadlines_loop n client absolute_deadline False w)))"

text \<open>The second part of \<^verbatim>\<open>DoIteration\<close>, from the wait on.\<close>

definition wait_and_notify ::
  "nat \<Rightarrow> loop_client \<Rightarrow> bool \<Rightarrow> nat \<Rightarrow> int \<Rightarrow> bool \<Rightarrow> loop_world \<Rightarrow> (bool \<times> loop_world) res"
where
  "wait_and_notify n client quit_when_idle run_state now should_continue w =
     bindR (if quit_when_idle then Inr ((now, False), w) else CalculateAbsoluteDeadline w)
       (\<lambda>((absolute_deadline, absolute_deadline_is_for_delayed_task), w).
     let relative_deadline =
           (if absolute_deadline = kInvalidTimeTicks then MOJO_DEADLINE_INDEFINITE
            else word_of_int (max now absolute_deadline - now)) in
     bindR (WaitSetWait relative_deadline w) (\<lambda>((rv, results, max_results), w).
     bindR (
       if rv = MOJO_RESULT_OK then
         let size = results_size (run_states w ! run_state);
             w = (if max_results > size
                  then w\<lparr>run_states := (run_states w)[run_state := (run_states w ! run_state)
                         \<lparr>results_size := min kMaximumWaitSetNumResults (size * 2)\<rparr>]\<rparr>
                  else w) in
         NotifyResults client results w
       else if rv = MOJO_SYSTEM_RESULT_DEADLINE_EXCEEDED then
         bindR (NotifyHandlersDeadlineExceeded n client absolute_deadline w) (\<lambda>(did_work, w).
         Inr (did_work \<or> absolute_deadline_is_for_delayed_task, w))
       else Inl AssertFailed)
     (\<lambda>(did_work, w).
     if should_quit (run_states w ! run_state) then Inr (False, w)
     else on_loop (\<lambda>l w.
       Inr (if quit_when_idle then should_continue \<or> did_work else handlers l \<noteq> [], w)) w)))"

definition DoIteration :: "nat \<Rightarrow> loop_client \<Rightarrow> bool \<Rightarrow> loop_world \<Rightarrow> (bool \<times> loop_world) res" where
  "DoIteration n client quit_when_idle = on_loop (\<lambda>l w.
     case current_run_state l of
       None \<Rightarrow> Inl AssertFailed
     | Some run_state \<Rightarrow>
         assertC (\<not> should_quit (run_states w ! run_state)) (
         case GetTimeTicksNow w of
           (now, w) \<Rightarrow>
             bindR (run_tasks n client
               \<lparr>dt_id = loop_next_id l, dt_task = 0, absolute_run_time = now\<rparr> run_state False w)
               (\<lambda>((should_continue, quit), w).
             if quit then Inr (False, w)
             else on_loop (\<lambda>l w.
               if handlers l = [] then Inr (should_continue, w)
               else wait_and_notify n client quit_when_idle run_state now should_continue w) w)))"

primrec iterations :: "nat \<Rightarrow> nat \<Rightarrow> loop_client \<Rightarrow> bool \<Rightarrow> loop_world \<Rightarrow> loop_world res" where
  "iterations 0 n client quit_when_idle w = Inl OutOfFuel"
| "iterations (Suc k) n client quit_when_idle w =
     bindR (DoIteration n client quit_when_idle w) (\<lambda>(more, w).
     if more then iterations k n client quit_when_idle w else Inr w)"

definition RunInternal :: "nat \<Rightarrow> loop_client \<Rightarrow> bool \<Rightarrow> loop_world \<Rightarrow> loop_world res" where
  "RunInternal n client quit_when_idle = on_loop (\<lambda>l w.
     assertC (current_loop w) (
     let old_run_state = current_run_state l;
         run_state = length (run_states w);
         w = w\<lparr>run_states := run_states w @
           [\<lparr>should_quit = False, results_size = kInitialWaitSetNumResults\<rparr>]\<rparr> in
     bindR (iterations n n client quit_when_idle
       (upd_loop (\<lambda>l. l\<lparr>current_run_state := Some run_state\<rparr>) w)) (on_loop (\<lambda>l w.
     Inr (upd_loop (\<lambda>l. l\<lparr>current_run_state := old_run_state\<rparr>)
       (w\<lparr>run_states := take run_state (run_states w)\<rparr>))))))"

definition Run :: "nat \<Rightarrow> loop_client \<Rightarrow> loop_world \<Rightarrow> loop_world res" where
  "Run n client = RunInternal n client False"

definition RunUntilIdle :: "nat \<Rightarrow> loop_client \<Rightarrow> loop_world \<Rightarrow> loop_world res" where
  "RunUntilIdle n client = RunInternal n client True"

section \<open>Creation and destruction\<close>

definition RunLoop_new :: "loop_world \<Rightarrow> loop_world res" where
  "RunLoop_new w =
     assertC (\<not> current_loop w) (
     Inr (w\<lparr>run_loop := Some \<lparr>loop_next_id = 1, handlers = [], handler_deadlines = [],
                            delayed_tasks = [], current_run_state = None\<rparr>,
            wait_set := [], current_loop := True\<rparr>))"

primrec abort_handlers :: "nat \<Rightarrow> loop_client \<Rightarrow> loop_world \<Rightarrow> loop_world res" where
  "abort_handlers 0 client w = Inl OutOfFuel"
| "abort_handlers (Suc n) client w = on_loop (\<lambda>l w.
     case handlers l of
       [] \<Rightarrow> Inr w
     | (i, info) # rest \<Rightarrow>
         bindR (client (HandleError (handler info) i MOJO_SYSTEM_RESULT_ABORTED)
           (note_event (Notified i MOJO_SYSTEM_RESULT_ABORTED)
             (upd_loop (\<lambda>l. l\<lparr>handlers := rest\<rparr>) w))) (abort_handlers n client)) w"

definition RunLoop_destroy :: "nat \<Rightarrow> loop_client \<Rightarrow> loop_world \<Rightarrow> loop_world res" where
  "RunLoop_destroy n client = on_loop (\<lambda>l w.
     assertC (current_loop w) (
     bindR (abort_handlers n client w) (\<lambda>w.
     Inr (w\<lparr>run_loop := None, wait_set := [], current_loop := False\<rparr>))))"

section \<open>Clients\<close>

text \<open>
  The calls client code makes on the loop. It does not destroy the loop in a callback, gives
  valid handles and delays that are not negative and do not overflow the clock, and does not live to
  use the \<open>2 ^ 64 - 1\<close>st identifier.
\<close>

datatype loop_action =
    CallAddHandler nat MojoHandle u32 u64
  | CallRemoveHandler u64
  | CallPostDelayedTask nat int
  | CallQuit
  | CallRun
  | CallRunUntilIdle

fun allowed :: "loop_action \<Rightarrow> loop_world \<Rightarrow> bool" where
  "allowed (CallAddHandler h hdl signals deadline) w \<longleftrightarrow>
     h \<noteq> 0 \<and> hdl \<noteq> MOJO_HANDLE_INVALID \<and> loop_next_id (the (run_loop w)) \<noteq> - 1"
| "allowed (CallPostDelayedTask t delay) w \<longleftrightarrow>
     0 \<le> delay \<and> delay \<le> kMaxMojoTimeTicks - fst (GetTimeTicksNow w) \<and>
     loop_next_id (the (run_loop w)) \<noteq> - 1"
| "allowed _ w \<longleftrightarrow> True"

fun call :: "nat \<Rightarrow> loop_client \<Rightarrow> loop_action \<Rightarrow> loop_world \<Rightarrow> loop_world res" where
  "call n client (CallAddHandler h hdl signals deadline) w =
     map_sum (\<lambda>e. e) snd (AddHandler h hdl signals deadline w)"
| "call n client (CallRemoveHandler i) w = RemoveHandler i w"
| "call n client (CallPostDelayedTask t delay) w = PostDelayedTask t delay w"
| "call n client CallQuit w = Quit w"
| "call n client CallRun w = Run n client w"
| "call n client CallRunUntilIdle w = RunUntilIdle n client w"

fun calls :: "nat \<Rightarrow> loop_client \<Rightarrow> loop_action list \<Rightarrow> loop_world \<Rightarrow> loop_world res" where
  "calls n client [] w = Inr w"
| "calls n client (a # as) w =
     bindR (if allowed a w then call n client a w else Inr w) (calls n client as)"

type_synonym loop_script = "loop_callback \<Rightarrow> loop_world \<Rightarrow> loop_action list"

primrec loop_script_client :: "nat \<Rightarrow> loop_script \<Rightarrow> loop_client" where
  "loop_script_client 0 script cb w = Inl OutOfFuel"
| "loop_script_client (Suc n) script cb w =
     calls n (loop_script_client n script) (script cb w) w"

definition loop_session :: "nat \<Rightarrow> loop_script \<Rightarrow> loop_action list \<Rightarrow> loop_world \<Rightarrow> loop_world res" where
  "loop_session n script as w =
     bindR (RunLoop_new w) (calls n (loop_script_client n script) as)"

end
