(* ===== verification/Cpp_RunLoopSafety.thy ===== *)
theory Cpp_RunLoopSafety
  imports Cpp_RunLoop "HOL-Library.Multiset"
begin

text \<open>
  The state of the run loop stays well formed whatever handlers and tasks do. \<open>loop_inv\<close> says that every
  handler has an entry in the wait set and, if it has a deadline, one in the queue of deadlines; that
  the queues are in order; that identifiers are unique; that \<^verbatim>\<open>current_run_state_\<close> is the innermost frame;
  and that each handler and each task is accounted for once.

  The locale \<open>loop_user\<close> is the contract of the code the loop calls, which may call the loop again.
  Each operation keeps the invariant if that code does, so scripts of any nesting depth do.
\<close>

section \<open>Priority queues\<close>

text \<open>What \<^verbatim>\<open>std::priority_queue\<close> requires of \<^verbatim>\<open>operator<\<close>: a strict weak order.\<close>

locale priority_order =
  fixes lt :: "'a \<Rightarrow> 'a \<Rightarrow> bool"
  assumes asym: "lt a b \<Longrightarrow> \<not> lt b a"
    and not_less_trans: "\<not> lt a b \<Longrightarrow> \<not> lt b c \<Longrightarrow> \<not> lt a c"
begin

lemma pq_push_sorted:
  assumes "sorted_wrt (\<lambda>a b. \<not> lt a b) q"
  shows "sorted_wrt (\<lambda>a b. \<not> lt a b) (pq_push lt x q)"
proof -
  have q: "sorted_wrt (\<lambda>a b. \<not> lt a b) (takeWhile (lt x) q @ dropWhile (lt x) q)"
    using assms by simp
  moreover have "\<forall>y \<in> set (takeWhile (lt x) q). \<not> lt y x"
    by (auto dest: set_takeWhileD asym)
  moreover have "\<forall>z \<in> set (dropWhile (lt x) q). \<not> lt x z"
  proof (cases "dropWhile (lt x) q")
    case (Cons z0 zs)
    moreover from Cons have "\<not> lt x z0" by (metis hd_dropWhile list.distinct(1) list.sel(1))
    ultimately show ?thesis
      using q
      by (auto simp: sorted_wrt_append dest: not_less_trans)
  qed (metis empty_iff list.set(1))
  ultimately show ?thesis
    by (simp add: pq_push_def sorted_wrt_append del: takeWhile_dropWhile_id)
qed

end

lemma mset_pq_push [simp]: "mset (pq_push lt x q) = add_mset x (mset q)"
  by (simp add: pq_push_def) (metis mset_append takeWhile_dropWhile_id)

lemma set_pq_push [simp]: "set (pq_push lt x q) = insert x (set q)"
  by (metis mset_pq_push set_mset_add_mset_insert set_mset_mset)

interpretation deadline_queue: priority_order HandlerDeadlineInfo_less
  by unfold_locales (auto simp: HandlerDeadlineInfo_less_def split: if_splits)

interpretation task_queue: priority_order DelayedTaskInfo_less
  by unfold_locales (auto simp: DelayedTaskInfo_less_def split: if_splits)

text \<open>Maps in the order of their keys.\<close>

lemma map_of_eq_None: "map_of m k = None \<longleftrightarrow> k \<notin> fst ` set m"
  by (simp add: map_of_eq_None_iff)

lemma mset_map_insert: "k \<notin> fst ` set m \<Longrightarrow> mset (map_insert k v m) = add_mset (k, v) (mset m)"
  by (simp add: map_insert_def)

lemma set_map_insert: "k \<notin> fst ` set m \<Longrightarrow> set (map_insert k v m) = insert (k, v) (set m)"
  by (simp add: map_insert_def set_insort_key)

lemma set_map_erase [simp]: "set (map_erase k m) = {p \<in> set m. fst p \<noteq> k}"
  by (auto simp: map_erase_def)

lemma keys_map_erase: "fst ` set (map_erase k m) = fst ` set m - {k}"
  by (auto simp: map_erase_def image_iff)

lemma sorted_map_erase:
  "sorted_wrt (<) (map fst m) \<Longrightarrow> sorted_wrt (<) (map fst (map_erase k m))"
  by (induction m) (auto simp: map_erase_def)

lemma sorted_map_insert:
  assumes "sorted_wrt (<) (map fst m)" "\<forall>j \<in> fst ` set m. j < k"
  shows "sorted_wrt (<) (map fst (map_insert k v m))"
proof -
  have "k \<notin> fst ` set m" using assms(2) by auto
  moreover have "insort_key fst (k, v) m = m @ [(k, v)]"
    using assms(2) by (induction m) auto
  ultimately show ?thesis using assms by (simp add: map_insert_def sorted_wrt_append)
qed

lemma mset_map_erase:
  assumes "sorted_wrt (<) (map fst m)" "map_of m k = Some v"
  shows "add_mset k (mset (map fst (map_erase k m))) = mset (map fst m)"
  using assms
proof (induction m)
  case (Cons p m)
  show ?case
  proof (cases "fst p = k")
    case True
    then have "map_erase k (p # m) = m" using Cons.prems(1) by (cases p) (auto simp: map_erase_def filter_id_conv)
    then show ?thesis using True by simp
  next
    case False
    with Cons show ?thesis by (cases p) (auto simp: map_erase_def)
  qed
qed simp

section \<open>The invariant\<close>

definition added :: "loop_event list \<Rightarrow> u64 list" where
  "added es = concat (map (\<lambda>e. case e of Added i \<Rightarrow> [i] | _ \<Rightarrow> []) es)"

definition removed :: "loop_event list \<Rightarrow> u64 list" where
  "removed es = concat (map (\<lambda>e. case e of Removed i \<Rightarrow> [i] | _ \<Rightarrow> []) es)"

definition notified_ids :: "loop_event list \<Rightarrow> u64 list" where
  "notified_ids es = concat (map (\<lambda>e. case e of Notified i _ \<Rightarrow> [i] | _ \<Rightarrow> []) es)"

definition posted :: "loop_event list \<Rightarrow> u64 list" where
  "posted es = concat (map (\<lambda>e. case e of Posted i \<Rightarrow> [i] | _ \<Rightarrow> []) es)"

definition tasks_run :: "loop_event list \<Rightarrow> u64 list" where
  "tasks_run es = concat (map (\<lambda>e. case e of TaskRun i \<Rightarrow> [i] | _ \<Rightarrow> []) es)"

lemmas log_defs = added_def removed_def notified_ids_def posted_def tasks_run_def

lemma log_append [simp]:
  "added (es @ fs) = added es @ added fs" "removed (es @ fs) = removed es @ removed fs"
  "notified_ids (es @ fs) = notified_ids es @ notified_ids fs"
  "posted (es @ fs) = posted es @ posted fs" "tasks_run (es @ fs) = tasks_run es @ tasks_run fs"
  by (simp_all add: log_defs)

lemma log_single [simp]:
  "added [e] = (case e of Added i \<Rightarrow> [i] | _ \<Rightarrow> [])" "removed [e] = (case e of Removed i \<Rightarrow> [i] | _ \<Rightarrow> [])"
  "notified_ids [e] = (case e of Notified i _ \<Rightarrow> [i] | _ \<Rightarrow> [])"
  "posted [e] = (case e of Posted i \<Rightarrow> [i] | _ \<Rightarrow> [])" "tasks_run [e] = (case e of TaskRun i \<Rightarrow> [i] | _ \<Rightarrow> [])"
  by (simp_all add: log_defs)

lemma log_Nil [simp]:
  "added [] = []" "removed [] = []" "notified_ids [] = []" "posted [] = []" "tasks_run [] = []"
  by (simp_all add: log_defs)

definition wf_handlers :: "RunLoop \<Rightarrow> (u64 \<times> MojoHandle \<times> u32) list \<Rightarrow> bool" where
  "wf_handlers l es \<longleftrightarrow> sorted_wrt (<) (map fst (handlers l)) \<and>
     fst ` set (handlers l) \<subseteq> fst ` set es \<and>
     (\<forall>i \<in> fst ` set es. i < loop_next_id l) \<and>
     (\<forall>i info. (i, info) \<in> set (handlers l) \<longrightarrow> hi_absolute_deadline info \<noteq> kInvalidTimeTicks \<longrightarrow>
        \<lparr>hd_id = i, hd_absolute_deadline = hi_absolute_deadline info\<rparr> \<in> set (handler_deadlines l))"

definition wf_queues :: "RunLoop \<Rightarrow> bool" where
  "wf_queues l \<longleftrightarrow>
     sorted_wrt (\<lambda>a b. \<not> HandlerDeadlineInfo_less a b) (handler_deadlines l) \<and>
     sorted_wrt (\<lambda>a b. \<not> DelayedTaskInfo_less a b) (delayed_tasks l) \<and>
     (\<forall>d \<in> set (handler_deadlines l). hd_id d < loop_next_id l \<and> 0 < hd_absolute_deadline d) \<and>
     (\<forall>t \<in> set (delayed_tasks l). dt_id t < loop_next_id l \<and> 0 < absolute_run_time t)"

definition wf_frames :: "RunLoop \<Rightarrow> RunState list \<Rightarrow> bool" where
  "wf_frames l frames \<longleftrightarrow> current_run_state l =
     (if frames = [] then None else Some (length frames - 1))"

definition wf_system :: "loop_world \<Rightarrow> bool" where
  "wf_system w \<longleftrightarrow> 0 < time_now w \<and> time_now w \<le> kMaxMojoTimeTicks \<and>
     (\<forall>rv. WaitFails rv \<notin> set (wait_outcomes w))"

definition wf_log :: "RunLoop \<Rightarrow> loop_event list \<Rightarrow> bool" where
  "wf_log l es \<longleftrightarrow>
     mset (added es) = mset (map fst (handlers l)) + mset (notified_ids es) + mset (removed es) \<and>
     mset (posted es) = mset (map dt_id (delayed_tasks l)) + mset (tasks_run es) \<and>
     distinct (added es @ posted es) \<and> (\<forall>i \<in> set (added es @ posted es). i < loop_next_id l)"

definition loop_inv :: "loop_world \<Rightarrow> bool" where
  "loop_inv w \<longleftrightarrow> current_loop w \<and> wf_system w \<and> run_loop w \<noteq> None \<and>
     wf_handlers (the (run_loop w)) (wait_set w) \<and> wf_queues (the (run_loop w)) \<and>
     wf_frames (the (run_loop w)) (run_states w) \<and> wf_log (the (run_loop w)) (loop_log w)"

definition loop_keeps :: "loop_world \<Rightarrow> loop_world \<Rightarrow> bool" where
  "loop_keeps w w' \<longleftrightarrow> length (run_states w') = length (run_states w) \<and> time_now w \<le> time_now w'"

definition loop_safe :: "loop_world \<Rightarrow> loop_world res \<Rightarrow> bool" where
  "loop_safe w x \<longleftrightarrow> (case x of
     Inl e \<Rightarrow> e = OutOfFuel
   | Inr w' \<Rightarrow> loop_inv w' \<and> loop_keeps w w')"

lemmas loop_inv_defs = loop_inv_def wf_handlers_def wf_queues_def wf_frames_def wf_system_def wf_log_def

lemma loop_invE:
  assumes "loop_inv w"
  obtains l where "run_loop w = Some l" "current_loop w" "wf_system w" "wf_handlers l (wait_set w)"
    "wf_queues l" "wf_frames l (run_states w)" "wf_log l (loop_log w)"
  using assms by (auto simp: loop_inv_def)

lemma loop_inv_run_loop: "loop_inv w \<Longrightarrow> \<exists>l. run_loop w = Some l"
  by (auto simp: loop_inv_def)

lemma loop_keeps_refl [simp]: "loop_keeps w w"
  by (simp add: loop_keeps_def)

lemma loop_keeps_trans: "loop_keeps u v \<Longrightarrow> loop_keeps v w \<Longrightarrow> loop_keeps u w"
  by (auto simp: loop_keeps_def)

lemma loop_safe_Inr [simp]: "loop_safe w (Inr w') \<longleftrightarrow> loop_inv w' \<and> loop_keeps w w'"
  by (simp add: loop_safe_def)

lemma loop_safe_OutOfFuel [simp]: "loop_safe w (Inl OutOfFuel)"
  by (simp add: loop_safe_def)

lemma loop_safe_trans: "loop_keeps w w' \<Longrightarrow> loop_safe w' x \<Longrightarrow> loop_safe w x"
  by (auto simp: loop_safe_def split: sum.splits elim: loop_keeps_trans)

abbreviation loop_state :: "('a \<times> loop_world) res \<Rightarrow> loop_world res" where
  "loop_state x \<equiv> map_sum (\<lambda>e. e) snd x"

lemma loop_safe_bind:
  assumes "loop_safe w x"
    and "\<And>w'. x = Inr w' \<Longrightarrow> loop_inv w' \<Longrightarrow> loop_keeps w w' \<Longrightarrow> loop_safe w' (loop_state (f w'))"
  shows "loop_safe w (loop_state (bindR x f))"
  using assms by (cases x) (auto simp: loop_safe_def split: sum.splits elim: loop_keeps_trans)

lemma loop_safe_bindV:
  assumes "loop_safe w x"
    and "\<And>w'. x = Inr w' \<Longrightarrow> loop_inv w' \<Longrightarrow> loop_keeps w w' \<Longrightarrow> loop_safe w' (f w')"
  shows "loop_safe w (bindR x f)"
  using assms by (cases x) (auto simp: loop_safe_def split: sum.splits elim: loop_keeps_trans)

lemma loop_safe_bind_pair:
  assumes "loop_safe w (loop_state x)"
    and "\<And>a w'. x = Inr (a, w') \<Longrightarrow> loop_inv w' \<Longrightarrow> loop_keeps w w' \<Longrightarrow> loop_safe w' (loop_state (f (a, w')))"
  shows "loop_safe w (loop_state (bindR x f))"
  using assms by (cases x) (auto simp: loop_safe_def split: sum.splits elim: loop_keeps_trans)

lemma loop_safe_bind_pairV:
  assumes "loop_safe w (loop_state x)"
    and "\<And>a w'. x = Inr (a, w') \<Longrightarrow> loop_inv w' \<Longrightarrow> loop_keeps w w' \<Longrightarrow> loop_safe w' (f (a, w'))"
  shows "loop_safe w (bindR x f)"
  using assms by (cases x) (auto simp: loop_safe_def split: sum.splits elim: loop_keeps_trans)

section \<open>Operations without callbacks\<close>

lemma GetTimeTicksNow_fields:
  assumes "GetTimeTicksNow w = (now, w')"
  shows "\<exists>ds. w' = w\<lparr>time_now := now, elapses := ds\<rparr> \<and> time_now w \<le> now \<and>
    (time_now w \<le> kMaxMojoTimeTicks \<longrightarrow> now \<le> kMaxMojoTimeTicks)"
  using assms by (cases "elapses w"; cases w) (auto simp: GetTimeTicksNow_def Let_def)

lemma loop_inv_time:
  assumes "loop_inv w" "time_now w \<le> now" "now \<le> kMaxMojoTimeTicks"
  shows "loop_inv (w\<lparr>time_now := now, elapses := ds\<rparr>)"
  using assms by (simp add: loop_inv_def wf_system_def)

lemma GetTimeTicksNow_keeps:
  assumes "GetTimeTicksNow w = (now, w')" "loop_inv w"
  shows "loop_inv w'" "loop_keeps w w'" "0 < now" "now \<le> kMaxMojoTimeTicks"
    "run_loop w' = run_loop w" "run_states w' = run_states w"
  using GetTimeTicksNow_fields [OF assms(1)] assms(2)
  by (auto simp: loop_inv_time loop_keeps_def loop_inv_def wf_system_def)

lemma fresh_id:
  assumes "(n :: u64) \<noteq> - 1"
  shows "n < n + 1" "i < n \<Longrightarrow> i < n + 1"
proof -
  have "unat n \<noteq> 18446744073709551615"
    using assms by (simp add: word_unat_eq_iff unsigned_minus_1_eq_mask mask_eq_exp_minus_1)
  then have "unat (n + 1) = Suc (unat n)" using unat_u64_bound [of n] by (simp add: unat_word_ariths(1))
  then show "n < n + 1" "i < n \<Longrightarrow> i < n + 1" by (simp_all add: word_less_nat_alt)
qed

definition fresh_for :: "u64 \<Rightarrow> loop_world \<Rightarrow> bool" where
  "fresh_for i w \<longleftrightarrow> (\<forall>j \<in> fst ` set (wait_set w) \<union> set (added (loop_log w) @ posted (loop_log w)). j < i)"

text \<open>Taking an identifier is the first step of adding a handler and of posting a task.\<close>

lemma take_id_inv:
  assumes "loop_inv w" "run_loop w = Some l" "loop_next_id l \<noteq> - 1"
  shows "loop_inv (w\<lparr>run_loop := Some (l\<lparr>loop_next_id := loop_next_id l + 1\<rparr>)\<rparr>)"
    and "fresh_for (loop_next_id l) (w\<lparr>run_loop := Some (l\<lparr>loop_next_id := loop_next_id l + 1\<rparr>)\<rparr>)"
  using assms fresh_id(2) [OF assms(3)]
  by (auto simp: loop_inv_defs fresh_for_def)

lemma push_deadline_inv:
  assumes "loop_inv w" "run_loop w = Some l" "hd_id d < loop_next_id l" "0 < hd_absolute_deadline d"
  shows "loop_inv (w\<lparr>run_loop := Some (l\<lparr>handler_deadlines :=
    pq_push HandlerDeadlineInfo_less d (handler_deadlines l)\<rparr>)\<rparr>)"
  using assms by (auto simp: loop_inv_defs deadline_queue.pq_push_sorted)

lemma insert_handler_inv:
  assumes "loop_inv w" "run_loop w = Some l" "fresh_for i w" "i < loop_next_id l"
    and "hi_absolute_deadline info \<noteq> kInvalidTimeTicks \<Longrightarrow>
      \<lparr>hd_id = i, hd_absolute_deadline = hi_absolute_deadline info\<rparr> \<in> set (handler_deadlines l)"
  shows "loop_inv (note_event (Added i) (w\<lparr>run_loop := Some (l\<lparr>handlers :=
    map_insert i info (handlers l)\<rparr>), wait_set := wait_set w @ [(i, x)]\<rparr>))"
proof -
  have "fst ` set (handlers l) \<subseteq> fst ` set (wait_set w)"
    using assms(1,2) by (simp add: loop_inv_def wf_handlers_def)
  then have below: "\<forall>j \<in> fst ` set (handlers l). j < i"
    using assms(3) unfolding fresh_for_def by blast
  then have "i \<notin> fst ` set (handlers l)" by auto
  moreover have "sorted_wrt (<) (map fst (map_insert i info (handlers l)))"
    using assms(1,2) below by (intro sorted_map_insert) (auto simp: loop_inv_defs)
  ultimately have "wf_handlers (l\<lparr>handlers := map_insert i info (handlers l)\<rparr>) (wait_set w @ [(i, x)])"
    and "wf_log (l\<lparr>handlers := map_insert i info (handlers l)\<rparr>) (loop_log w @ [Added i])"
    using assms by (auto simp: loop_inv_defs set_map_insert mset_map_insert fresh_for_def)
  then show ?thesis
    using assms(1,2) by (simp add: loop_inv_def wf_queues_def wf_frames_def wf_system_def note_event_def)
qed

lemma add_deadline_inv:
  assumes inv: "loop_inv w" and l: "run_loop w = Some l" and i: "i < loop_next_id l" "fresh_for i w"
    and eq: "add_deadline i deadline w = (ad, w')"
  shows "\<exists>l'. loop_inv w' \<and> run_loop w' = Some l' \<and> loop_next_id l' = loop_next_id l \<and> fresh_for i w' \<and>
    loop_keeps w w' \<and> (ad \<noteq> kInvalidTimeTicks \<longrightarrow>
      \<lparr>hd_id = i, hd_absolute_deadline = ad\<rparr> \<in> set (handler_deadlines l'))"
proof (cases "deadline \<le> word_of_int kMaxMojoTimeTicks")
  case False
  then show ?thesis using assms by (simp add: add_deadline_def)
next
  case True
  obtain now v where now: "GetTimeTicksNow w = (now, v)" by fastforce
  note v = GetTimeTicksNow_keeps [OF now inv]
  have f: "fresh_for i v"
    using GetTimeTicksNow_fields [OF now] i(2) unfolding fresh_for_def by (elim exE conjE) simp
  show ?thesis
  proof (cases "deadline \<le> word_of_int (kMaxMojoTimeTicks - now)")
    case False
    then show ?thesis using True eq now v f l by (simp add: add_deadline_def)
  next
    case fits: True
    define d where "d = \<lparr>hd_id = i, hd_absolute_deadline = now + uint deadline\<rparr>"
    have "hd_id d < loop_next_id l" "0 < hd_absolute_deadline d"
      using i v(3) by (simp_all add: d_def add_pos_nonneg)
    from push_deadline_inv [OF v(1) _ this] show ?thesis
      using True fits eq now v l f by (auto simp: add_deadline_def upd_loop_def d_def fresh_for_def loop_keeps_def)
  qed
qed

lemma AddHandler_safe:
  assumes inv: "loop_inv w" and "allowed (CallAddHandler h hdl signals deadline) w"
  shows "loop_safe w (loop_state (AddHandler h hdl signals deadline w))"
proof -
  obtain l where l: "run_loop w = Some l" "current_loop w" using inv by (auto elim: loop_invE)
  then have ok: "h \<noteq> 0" "hdl \<noteq> MOJO_HANDLE_INVALID" "loop_next_id l \<noteq> - 1" using assms(2) by auto
  define i where "i = loop_next_id l"
  define w1 where "w1 = w\<lparr>run_loop := Some (l\<lparr>loop_next_id := i + 1\<rparr>)\<rparr>"
  have w1: "loop_inv w1" "fresh_for i w1" "i < i + 1" "loop_keeps w w1" "run_loop w1 = Some (l\<lparr>loop_next_id := i + 1\<rparr>)"
    using take_id_inv [OF inv l(1) ok(3)] fresh_id(1) [OF ok(3)] by (auto simp: i_def w1_def loop_keeps_def)
  obtain ad w2 where ad: "add_deadline i deadline w1 = (ad, w2)" by fastforce
  obtain l2 where l2: "loop_inv w2" "run_loop w2 = Some l2" "loop_next_id l2 = i + 1" "fresh_for i w2" "loop_keeps w1 w2"
    "ad \<noteq> kInvalidTimeTicks \<Longrightarrow> \<lparr>hd_id = i, hd_absolute_deadline = ad\<rparr> \<in> set (handler_deadlines l2)"
    using add_deadline_inv [OF w1(1,5) _ w1(2) ad] w1(3) by auto
  have "i \<notin> fst ` set (wait_set w2)" using l2(4) by (auto simp: fresh_for_def)
  moreover have "upd_loop (\<lambda>l. l\<lparr>loop_next_id := loop_next_id l + 1\<rparr>) w = w1"
    using l by (simp add: upd_loop_def w1_def i_def)
  ultimately have "AddHandler h hdl signals deadline w = Inr (i, note_event (Added i) (w2\<lparr>run_loop := Some (l2\<lparr>handlers :=
      map_insert i \<lparr>handler = h, handle_signals = signals, hi_absolute_deadline = ad\<rparr> (handlers l2)\<rparr>),
      wait_set := wait_set w2 @ [(i, hdl, signals)]\<rparr>))"
    using l ok ad l2(2) by (simp add: AddHandler_def on_loop_def Let_def i_def [symmetric] WaitSetAdd_def upd_loop_def)
  then show ?thesis
    using insert_handler_inv [OF l2(1,2,4), of "\<lparr>handler = h, handle_signals = signals, hi_absolute_deadline = ad\<rparr>"]
      l2(3,5,6) w1(3,4) by (simp add: loop_keeps_def note_event_def)
qed

lemma erase_handler_inv:
  assumes inv: "loop_inv w" and l: "run_loop w = Some l" and "map_of (handlers l) i = Some info"
    and e: "e = Removed i \<or> (\<exists>rv. e = Notified i rv)"
    and ws: "fst ` set ws \<subseteq> fst ` set (wait_set w)" "fst ` set (wait_set w) - {i} \<subseteq> fst ` set ws"
  shows "loop_inv (note_event e (w\<lparr>run_loop := Some (l\<lparr>handlers := map_erase i (handlers l)\<rparr>), wait_set := ws\<rparr>))"
proof -
  let ?l = "l\<lparr>handlers := map_erase i (handlers l)\<rparr>"
  have h: "wf_handlers l (wait_set w)" "wf_log l (loop_log w)" using inv l by (auto simp: loop_inv_def)
  have sub: "fst ` set (handlers l) \<subseteq> fst ` set (wait_set w)" using h(1) by (simp only: wf_handlers_def)
  have "fst ` set (handlers ?l) = fst ` set (handlers l) - {i}" using keys_map_erase [of i "handlers l"] by simp
  then have "fst ` set (handlers ?l) \<subseteq> fst ` set (wait_set w) - {i}" using Diff_mono [OF sub order_refl] by simp
  then have "fst ` set (handlers ?l) \<subseteq> fst ` set ws" using ws(2) by (rule order_trans)
  moreover have "\<forall>j \<in> fst ` set (wait_set w). j < loop_next_id l" using h(1) unfolding wf_handlers_def by (elim conjE)
  then have "\<forall>j \<in> fst ` set ws. j < loop_next_id l" using ws(1) by (meson subsetD)
  moreover have "sorted_wrt (<) (map fst (handlers ?l))" "set (handlers ?l) \<subseteq> set (handlers l)"
    using h(1) by (auto simp: wf_handlers_def intro: sorted_map_erase)
  moreover have "\<forall>j info. (j, info) \<in> set (handlers l) \<longrightarrow> hi_absolute_deadline info \<noteq> kInvalidTimeTicks \<longrightarrow>
      \<lparr>hd_id = j, hd_absolute_deadline = hi_absolute_deadline info\<rparr> \<in> set (handler_deadlines l)"
    using h(1) by (simp add: wf_handlers_def)
  ultimately have "wf_handlers ?l ws" unfolding wf_handlers_def by simp
  moreover have "mset (map fst (handlers l)) = add_mset i (mset (map fst (handlers ?l)))"
    using mset_map_erase [of "handlers l" i info] h(1) assms(3) by (simp add: wf_handlers_def)
  then have "wf_log ?l (loop_log w @ [e])" using h(2) e by (auto simp: wf_log_def simp del: mset_map)
  ultimately show ?thesis
    using inv l by (simp add: loop_inv_def wf_queues_def wf_frames_def wf_system_def note_event_def)
qed

lemma first_handler_inv:
  assumes inv: "loop_inv w" and l: "run_loop w = Some l" and h: "handlers l = (i, info) # rest"
  shows "loop_inv (note_event (Notified i rv) (w\<lparr>run_loop := Some (l\<lparr>handlers := rest\<rparr>)\<rparr>))"
proof -
  have "sorted_wrt (<) (map fst (handlers l))" using inv l by (simp add: loop_inv_def wf_handlers_def)
  then have "map_erase i (handlers l) = rest" using h by (auto simp: map_erase_def filter_id_conv)
  with erase_handler_inv [OF inv l, of i info "Notified i rv" "wait_set w"] h show ?thesis by simp
qed

lemma WaitSetRemove_ok:
  assumes "loop_inv w" "run_loop w = Some l" "map_of (handlers l) i = Some info"
  shows "WaitSetRemove i (w\<lparr>run_loop := x\<rparr>) =
    (MOJO_RESULT_OK, w\<lparr>run_loop := x, wait_set := filter (\<lambda>(c, _). c \<noteq> i) (wait_set w)\<rparr>)"
proof -
  have "i \<in> fst ` set (handlers l)" using assms(3) by (force dest: map_of_SomeD)
  then show ?thesis using assms(1,2) by (auto simp: loop_inv_def wf_handlers_def WaitSetRemove_def)
qed

lemma erase_filtered:
  "fst ` set (filter (\<lambda>(c, _). c \<noteq> i) es) \<subseteq> fst ` set es" "fst ` set es - {i} \<subseteq> fst ` set (filter (\<lambda>(c, _). c \<noteq> i) es)"
  by force+

lemma RemoveHandler_safe:
  assumes inv: "loop_inv w"
  shows "loop_safe w (RemoveHandler i w)"
proof -
  obtain l where l: "run_loop w = Some l" "current_loop w" using inv by (auto elim: loop_invE)
  show ?thesis
  proof (cases "map_of (handlers l) i")
    case None
    with l inv show ?thesis by (simp add: RemoveHandler_def on_loop_def)
  next
    case (Some info)
    with l WaitSetRemove_ok [OF inv l(1) Some]
      erase_handler_inv [OF inv l(1) Some, of "Removed i", OF _ erase_filtered]
    show ?thesis by (simp add: RemoveHandler_def on_loop_def upd_loop_def Let_def loop_keeps_def note_event_def)
  qed
qed

lemma PostDelayedTask_safe:
  assumes inv: "loop_inv w" and "allowed (CallPostDelayedTask t delay) w"
  shows "loop_safe w (PostDelayedTask t delay w)"
proof -
  obtain l where l: "run_loop w = Some l" "current_loop w" using inv by (auto elim: loop_invE)
  define i where "i = loop_next_id l"
  define w1 where "w1 = w\<lparr>run_loop := Some (l\<lparr>loop_next_id := i + 1\<rparr>)\<rparr>"
  obtain now w2 where now: "GetTimeTicksNow w1 = (now, w2)" by fastforce
  have "fst (GetTimeTicksNow w) = now"
    using now by (simp add: GetTimeTicksNow_def w1_def Let_def split: list.splits)
  then have ok: "0 \<le> delay" "delay \<le> kMaxMojoTimeTicks - now" "i \<noteq> - 1" using assms(2) l by (auto simp: i_def)
  have w1: "loop_inv w1" "fresh_for i w1" "i < i + 1" "loop_keeps w w1"
    using take_id_inv [OF inv l(1)] fresh_id(1) [OF ok(3)] ok(3) by (auto simp: i_def w1_def loop_keeps_def)
  note w2 = GetTimeTicksNow_keeps [OF now w1(1)]
  have f: "fresh_for i w2"
    using GetTimeTicksNow_fields [OF now] w1(2) unfolding fresh_for_def by (elim exE conjE) simp
  define d where "d = \<lparr>dt_id = i, dt_task = t, absolute_run_time = now + delay\<rparr>"
  define l2 where "l2 = l\<lparr>loop_next_id := i + 1, delayed_tasks := pq_push DelayedTaskInfo_less d (delayed_tasks l)\<rparr>"
  have r2: "run_loop w2 = Some (l\<lparr>loop_next_id := i + 1\<rparr>)" using w2(5) by (simp add: w1_def)
  have "wf_queues l2" using w2(1,3) r2 ok(1) w1(3)
    by (auto simp: loop_inv_def l2_def wf_queues_def task_queue.pq_push_sorted d_def)
  moreover have "wf_log l2 (loop_log w2 @ [Posted i])"
    using w2(1) r2 f w1(3) by (auto simp: loop_inv_def l2_def wf_log_def d_def fresh_for_def)
  ultimately have "loop_inv (note_event (Posted i) (w2\<lparr>run_loop := Some l2\<rparr>))"
    using w2(1) r2 by (simp add: loop_inv_def l2_def wf_handlers_def wf_frames_def wf_system_def note_event_def)
  moreover have "upd_loop (\<lambda>l. l\<lparr>loop_next_id := loop_next_id l + 1\<rparr>) w = w1"
    using l by (simp add: upd_loop_def w1_def i_def)
  ultimately show ?thesis
    using l now ok(2) r2 w1(4) w2(2)
    by (simp add: PostDelayedTask_def on_loop_def Let_def i_def [symmetric] upd_loop_def l2_def d_def loop_keeps_def note_event_def)
qed

lemma Quit_safe:
  assumes "loop_inv w"
  shows "loop_safe w (Quit w)"
  using assms by (elim loop_invE)
    (auto simp: Quit_def on_loop_def loop_keeps_def loop_inv_def wf_frames_def wf_system_def split: option.splits)

lemma pop_task_inv:
  assumes "loop_inv w" "run_loop w = Some l" "delayed_tasks l = t # ts"
  shows "loop_inv (note_event (TaskRun (dt_id t)) (w\<lparr>run_loop := Some (l\<lparr>delayed_tasks := ts\<rparr>)\<rparr>))"
  using assms by (auto simp: loop_inv_defs note_event_def)

lemma pop_deadline_inv:
  assumes "loop_inv w" "run_loop w = Some l" "handler_deadlines l = d # ds" "hd_id d \<notin> fst ` set (handlers l)"
  shows "loop_inv (w\<lparr>run_loop := Some (l\<lparr>handler_deadlines := ds\<rparr>)\<rparr>)"
proof -
  have "\<lparr>hd_id = i, hd_absolute_deadline = a\<rparr> \<noteq> d" if "(i, info) \<in> set (handlers l)" for i info a
    using assms(4) that by force
  with assms(1-3) have "wf_handlers (l\<lparr>handler_deadlines := ds\<rparr>) (wait_set w)"
    by (simp add: loop_inv_def wf_handlers_def)
  with assms(1-3) show ?thesis
    by (simp add: loop_inv_def wf_queues_def wf_frames_def wf_system_def wf_log_def)
qed

lemma in_dropWhile: "x \<in> set q \<Longrightarrow> \<not> P x \<Longrightarrow> x \<in> set (dropWhile P q)"
  by (induction q) auto

lemma sorted_dropWhile: "sorted_wrt P q \<Longrightarrow> sorted_wrt P (dropWhile Q q)"
  by (induction q) auto

lemma drop_stale_inv:
  assumes "loop_inv w" "run_loop w = Some l"
  shows "loop_inv (w\<lparr>run_loop := Some (drop_stale l)\<rparr>)"
proof -
  have "wf_handlers (drop_stale l) (wait_set w)"
    using assms by (auto simp: loop_inv_def wf_handlers_def drop_stale_def map_of_eq_None intro!: in_dropWhile) force
  moreover have "wf_queues (drop_stale l)"
    using assms by (auto simp: loop_inv_def wf_queues_def drop_stale_def sorted_dropWhile dest: set_dropWhileD)
  ultimately show ?thesis
    using assms by (simp add: loop_inv_def wf_frames_def wf_system_def wf_log_def drop_stale_def)
qed

lemma wait_times_out_safe:
  assumes "loop_inv w"
  shows "wait_times_out d w = Inl e \<Longrightarrow> e = OutOfFuel"
    and "wait_times_out d w = Inr ((rv, results, mx), w') \<Longrightarrow> loop_inv w' \<and> loop_keeps w w' \<and>
      run_loop w' = run_loop w \<and> rv = MOJO_SYSTEM_RESULT_DEADLINE_EXCEEDED \<and> d \<noteq> MOJO_DEADLINE_INDEFINITE"
  using assms by (auto simp: wait_times_out_def loop_inv_def wf_system_def loop_keeps_def add_pos_nonneg split: if_splits)

lemma WaitSetWait_safe:
  assumes "loop_inv w"
  shows "WaitSetWait d w = Inl e \<Longrightarrow> e = OutOfFuel"
    and "WaitSetWait d w = Inr ((rv, results, mx), w') \<Longrightarrow> loop_inv w' \<and> loop_keeps w w' \<and>
      run_loop w' = run_loop w \<and> (rv = MOJO_RESULT_OK \<and> results \<noteq> [] \<or>
        rv = MOJO_SYSTEM_RESULT_DEADLINE_EXCEEDED \<and> d \<noteq> MOJO_DEADLINE_INDEFINITE)"
proof -
  have rest: "loop_inv (w\<lparr>wait_outcomes := ps\<rparr>)" "loop_keeps w (w\<lparr>wait_outcomes := ps\<rparr>)"
    if "wait_outcomes w = p # ps" for p ps
    using assms that by (auto simp: loop_inv_def wf_system_def loop_keeps_def)
  show "WaitSetWait d w = Inl e \<Longrightarrow> e = OutOfFuel"
    using wait_times_out_safe(1) [OF assms] wait_times_out_safe(1) [OF rest(1)]
    by (auto simp: WaitSetWait_def Let_def split: list.splits wait_outcome.splits if_splits)
  show "WaitSetWait d w = Inr ((rv, results, mx), w') \<Longrightarrow> loop_inv w' \<and> loop_keeps w w' \<and>
      run_loop w' = run_loop w \<and> (rv = MOJO_RESULT_OK \<and> results \<noteq> [] \<or>
        rv = MOJO_SYSTEM_RESULT_DEADLINE_EXCEEDED \<and> d \<noteq> MOJO_DEADLINE_INDEFINITE)"
  proof (cases "wait_outcomes w")
    case Nil
    then show "WaitSetWait d w = Inr ((rv, results, mx), w') \<Longrightarrow> ?thesis"
      using wait_times_out_safe(2) [OF assms] by (simp add: WaitSetWait_def)
  next
    case (Cons p ps)
    have "p \<noteq> WaitFails rv" for rv using assms Cons by (auto simp: loop_inv_def wf_system_def)
    then show "WaitSetWait d w = Inr ((rv, results, mx), w') \<Longrightarrow> ?thesis"
      using Cons wait_times_out_safe(2) [OF rest(1) [OF Cons]] rest [OF Cons] loop_keeps_trans [OF rest(2) [OF Cons]]
      by (cases p) (auto simp: WaitSetWait_def Let_def split: if_splits)
  qed
qed

lemma CalculateAbsoluteDeadline_safe:
  assumes "loop_inv w" "run_loop w = Some l" "handlers l \<noteq> []"
  shows "\<exists>ad b w' l'. CalculateAbsoluteDeadline w = Inr ((ad, b), w') \<and> loop_inv w' \<and> loop_keeps w w' \<and>
    run_loop w' = Some l' \<and> handlers l' = handlers l"
  using assms drop_stale_inv [OF assms(1,2)]
  by (auto simp: CalculateAbsoluteDeadline_def on_loop_def upd_loop_def Let_def loop_keeps_def
      split: list.splits) (auto simp: drop_stale_def)

section \<open>Running, with callbacks\<close>

abbreviation top_frame :: "loop_world \<Rightarrow> nat" where
  "top_frame w \<equiv> length (run_states w) - 1"

lemma quitting_top:
  assumes "loop_inv w" "run_loop w = Some l" "run_states w \<noteq> []"
  shows "quitting l w = Inr (should_quit (run_states w ! top_frame w))"
  using assms by (simp add: quitting_def loop_inv_def wf_frames_def)

lemma loop_keeps_frames: "loop_keeps w w' \<Longrightarrow> run_states w' = [] \<longleftrightarrow> run_states w = []"
  by (auto simp: loop_keeps_def)

text \<open>The contract of the code the loop calls.\<close>

locale loop_user =
  fixes client :: loop_client
  assumes client_safe: "loop_inv w \<Longrightarrow> loop_safe w (client cb w)"
begin

lemma run_tasks_safe:
  assumes "loop_inv w"
  shows "loop_safe w (loop_state (run_tasks n client now_task f c w))"
  using assms
proof (induction n arbitrary: w c)
  case 0
  then show ?case by simp
next
  case (Suc n)
  obtain l where l: "run_loop w = Some l" using Suc.prems by (auto elim: loop_invE)
  show ?case
  proof (cases "delayed_tasks l")
    case Nil
    with l Suc.prems show ?thesis by (simp add: on_loop_def)
  next
    case (Cons t ts)
    define w1 where "w1 = note_event (TaskRun (dt_id t)) (w\<lparr>run_loop := Some (l\<lparr>delayed_tasks := ts\<rparr>)\<rparr>)"
    have w1: "loop_inv w1" "loop_keeps w w1"
      using pop_task_inv [OF Suc.prems l Cons] by (auto simp: w1_def loop_keeps_def note_event_def)
    have "loop_safe w1 (loop_state (bindR (client (RunTask (dt_task t)) w1) (\<lambda>w.
        if should_quit (run_states w ! f) then Inr ((True, True), w)
        else run_tasks n client now_task f True w)))"
      by (rule loop_safe_bind [OF client_safe [OF w1(1)]]) (auto intro: Suc.IH)
    then have "loop_safe w (loop_state (bindR (client (RunTask (dt_task t)) w1) (\<lambda>w.
        if should_quit (run_states w ! f) then Inr ((True, True), w)
        else run_tasks n client now_task f True w)))"
      by (rule loop_safe_trans [OF w1(2)])
    with l Cons Suc.prems show ?thesis by (simp add: on_loop_def upd_loop_def w1_def)
  qed
qed

lemma NotifyResults_loop_safe:
  assumes "loop_inv w" "run_states w \<noteq> []"
  shows "loop_safe w (loop_state (NotifyResults_loop client rs b w))"
  using assms
proof (induction rs arbitrary: w b)
  case Nil
  then show ?case by simp
next
  case (Cons r rs)
  obtain l where l: "run_loop w = Some l" using Cons.prems by (auto elim: loop_invE)
  obtain i rv where r: "r = (i, rv)" by fastforce
  show ?case
  proof (cases "map_of (handlers l) i")
    case None
    with l r Cons show ?thesis by (simp add: on_loop_def)
  next
    case (Some info)
    define w1 where "w1 = note_event (Notified i rv) (w\<lparr>run_loop := Some (l\<lparr>handlers := map_erase i (handlers l)\<rparr>),
      wait_set := filter (\<lambda>(c, _). c \<noteq> i) (wait_set w)\<rparr>)"
    have w1: "loop_inv w1" "loop_keeps w w1" "run_states w1 \<noteq> []"
      using erase_handler_inv [OF Cons.prems(1) l Some, of "Notified i rv", OF _ erase_filtered] Cons.prems(2)
      by (auto simp: w1_def loop_keeps_def note_event_def)
    define cb where "cb = (if rv = MOJO_RESULT_OK then HandleReady (handler info) i else HandleError (handler info) i rv)"
    let ?rest = "on_loop (\<lambda>l w. bindR (quitting l w) (\<lambda>quit.
        if quit then Inr (True, w) else NotifyResults_loop client rs True w))"
    have "loop_safe w1 (loop_state (bindR (client cb w1) ?rest))"
    proof (rule loop_safe_bind [OF client_safe [OF w1(1)]])
      fix w2 assume w2: "loop_inv w2" "loop_keeps w1 w2"
      then have "run_states w2 \<noteq> []" using w1(3) loop_keeps_frames by blast
      then show "loop_safe w2 (loop_state (?rest w2))"
        using w2(1) Cons.IH by (elim loop_invE [of w2]) (auto simp: on_loop_def quitting_top w2(1))
    qed
    then have "loop_safe w (loop_state (bindR (client cb w1) ?rest))" by (rule loop_safe_trans [OF w1(2)])
    with l r Some show ?thesis
      by (simp add: on_loop_def [of _ w] upd_loop_def Let_def WaitSetRemove_ok [OF Cons.prems(1) l Some] w1_def cb_def)
  qed
qed

lemma deadlines_loop_safe:
  assumes "loop_inv w" "run_states w \<noteq> []"
  shows "loop_safe w (loop_state (deadlines_loop n client ad b w))"
  using assms
proof (induction n arbitrary: w b)
  case 0
  then show ?case by simp
next
  case (Suc n)
  obtain l where l: "run_loop w = Some l" using Suc.prems by (auto elim: loop_invE)
  show ?case
  proof (cases "\<exists>d ds. handler_deadlines l = d # ds \<and> hd_absolute_deadline d \<le> ad")
    case False
    with l Suc.prems show ?thesis by (auto simp: on_loop_def split: list.splits)
  next
    case True
    then obtain d ds where d: "handler_deadlines l = d # ds" "hd_absolute_deadline d \<le> ad" by blast
    show ?thesis
    proof (cases "map_of (handlers l) (hd_id d)")
      case None
      define w1 where "w1 = w\<lparr>run_loop := Some (l\<lparr>handler_deadlines := ds\<rparr>)\<rparr>"
      have "loop_inv w1" "loop_keeps w w1" "run_states w1 \<noteq> []"
        using pop_deadline_inv [OF Suc.prems(1) l d(1)] None Suc.prems(2)
        by (auto simp: w1_def loop_keeps_def map_of_eq_None)
      with Suc.IH [of w1 b] have "loop_safe w (loop_state (deadlines_loop n client ad b w1))"
        by (auto intro: loop_safe_trans)
      with l d None show ?thesis by (simp add: on_loop_def upd_loop_def w1_def)
    next
      case (Some info)
      let ?e = "Notified (hd_id d) MOJO_SYSTEM_RESULT_DEADLINE_EXCEEDED"
      define w1 where "w1 = note_event ?e (w\<lparr>run_loop :=
        Some (l\<lparr>handlers := map_erase (hd_id d) (handlers l), handler_deadlines := ds\<rparr>)\<rparr>)"
      have "loop_inv (note_event ?e (w\<lparr>run_loop := Some (l\<lparr>handlers := map_erase (hd_id d) (handlers l)\<rparr>)\<rparr>))"
        using erase_handler_inv [OF Suc.prems(1) l Some, of ?e "wait_set w"] by simp
      from pop_deadline_inv [OF this, of _ d ds] d(1) keys_map_erase [of "hd_id d" "handlers l"]
      have "loop_inv ((note_event ?e w)\<lparr>run_loop :=
        Some (l\<lparr>handlers := map_erase (hd_id d) (handlers l), handler_deadlines := ds\<rparr>)\<rparr>)"
        by (simp add: note_event_def)
      then have w1: "loop_inv w1" "loop_keeps w w1" "run_states w1 \<noteq> []"
        using Suc.prems(2) by (cases w; auto simp: w1_def loop_keeps_def note_event_def)+
      define cb where "cb = HandleError (handler info) (hd_id d) MOJO_SYSTEM_RESULT_DEADLINE_EXCEEDED"
      let ?rest = "on_loop (\<lambda>l w. bindR (quitting l w) (\<lambda>quit.
          if quit then Inr (True, w) else deadlines_loop n client ad True w))"
      have "loop_safe w1 (loop_state (bindR (client cb w1) ?rest))"
      proof (rule loop_safe_bind [OF client_safe [OF w1(1)]])
        fix w2 assume w2: "loop_inv w2" "loop_keeps w1 w2"
        then have "run_states w2 \<noteq> []" using w1(3) loop_keeps_frames by blast
        then show "loop_safe w2 (loop_state (?rest w2))"
          using w2(1) Suc.IH by (elim loop_invE [of w2]) (auto simp: on_loop_def quitting_top w2(1))
      qed
      then have "loop_safe w (loop_state (bindR (client cb w1) ?rest))" by (rule loop_safe_trans [OF w1(2)])
      with l d Some show ?thesis by (simp add: on_loop_def [of _ w] upd_loop_def Let_def w1_def cb_def)
    qed
  qed
qed

lemma wait_and_notify_safe:
  assumes inv: "loop_inv w" and l: "run_loop w = Some l" "handlers l \<noteq> []" and "run_states w \<noteq> []" "0 < now"
  shows "loop_safe w (loop_state (wait_and_notify n client q f now c w))"
proof -
  obtain ad b w1 l1 where w1: "(if q then Inr ((now, False), w) else CalculateAbsoluteDeadline w) = Inr ((ad, b), w1)"
    "loop_inv w1" "loop_keeps w w1" "run_loop w1 = Some l1" "handlers l1 \<noteq> []"
  proof (cases q)
    case True
    with inv l that [of now False w l] show ?thesis by simp
  next
    case False
    with CalculateAbsoluteDeadline_safe [OF inv l] l(2) that show ?thesis by auto
  qed
  define rd where "rd = (if ad = kInvalidTimeTicks then MOJO_DEADLINE_INDEFINITE else word_of_int (max now ad - now))"
  let ?finish = "\<lambda>(did_work, w). if should_quit (run_states w ! f) then Inr (False, w)
     else on_loop (\<lambda>l w. Inr (if q then c \<or> did_work else handlers l \<noteq> [], w)) w"
  have finish: "loop_safe w (loop_state (bindR x ?finish))" if "loop_safe w (loop_state x)" for w x
    using that by (rule loop_safe_bind_pair) (auto simp: on_loop_def split: option.splits dest: loop_inv_run_loop)
  show ?thesis
  proof (cases "WaitSetWait rd w1")
    case (Inl e)
    with w1(1) WaitSetWait_safe(1) [OF w1(2) Inl] show ?thesis
      by (simp add: wait_and_notify_def Let_def rd_def [symmetric])
  next
    case (Inr r)
    obtain rv rs mx w2 where r: "r = ((rv, rs, mx), w2)" by (metis prod.exhaust)
    note w2 = WaitSetWait_safe(2) [OF w1(2) Inr [unfolded r]]
    have frames: "loop_keeps w w2" "run_states w2 \<noteq> []"
      using w2 loop_keeps_trans [OF w1(3)] loop_keeps_frames assms(4) by blast+
    have eq: "wait_and_notify n client q f now c w = bindR (
       if rv = MOJO_RESULT_OK then NotifyResults client rs
         (if mx > results_size (run_states w2 ! f)
          then w2\<lparr>run_states := (run_states w2)[f := (run_states w2 ! f)
                 \<lparr>results_size := min kMaximumWaitSetNumResults (results_size (run_states w2 ! f) * 2)\<rparr>]\<rparr>
          else w2)
       else if rv = MOJO_SYSTEM_RESULT_DEADLINE_EXCEEDED then
         bindR (NotifyHandlersDeadlineExceeded n client ad w2) (\<lambda>(did_work, w). Inr (did_work \<or> b, w))
       else Inl AssertFailed) ?finish"
      using w1(1) Inr r by (simp add: wait_and_notify_def Let_def rd_def [symmetric])
    show ?thesis
    proof (cases "rv = MOJO_RESULT_OK")
      case True
      define w3 where "w3 = (if mx > results_size (run_states w2 ! f)
          then w2\<lparr>run_states := (run_states w2)[f := (run_states w2 ! f)
                 \<lparr>results_size := min kMaximumWaitSetNumResults (results_size (run_states w2 ! f) * 2)\<rparr>]\<rparr>
          else w2)"
      have w3: "loop_inv w3" "loop_keeps w2 w3" "run_states w3 \<noteq> []"
        using w2 frames by (auto simp: w3_def loop_inv_def wf_frames_def wf_system_def loop_keeps_def)
      have "loop_safe w3 (loop_state (NotifyResults client rs w3))"
        using NotifyResults_loop_safe [OF w3(1,3)] w2 True by (simp add: NotifyResults_def)
      then have "loop_safe w (loop_state (NotifyResults client rs w3))"
        using loop_keeps_trans [OF frames(1) w3(2)] by (rule loop_safe_trans [rotated])
      with True show ?thesis unfolding eq w3_def [symmetric] by (simp add: finish)
    next
      case False
      then have rv: "rv = MOJO_SYSTEM_RESULT_DEADLINE_EXCEEDED" "rd \<noteq> MOJO_DEADLINE_INDEFINITE" using w2 by auto
      then have "ad \<noteq> kInvalidTimeTicks" by (auto simp: rd_def)
      then have "loop_safe w2 (loop_state (NotifyHandlersDeadlineExceeded n client ad w2))"
        using deadlines_loop_safe [OF _ frames(2)] w2 w1(4,5) by (simp add: NotifyHandlersDeadlineExceeded_def on_loop_def)
      then have "loop_safe w2 (loop_state (bindR (NotifyHandlersDeadlineExceeded n client ad w2)
          (\<lambda>(did_work, w). Inr (did_work \<or> b, w))))"
        by (rule loop_safe_bind_pair) simp
      then have "loop_safe w (loop_state (bindR (NotifyHandlersDeadlineExceeded n client ad w2)
          (\<lambda>(did_work, w). Inr (did_work \<or> b, w))))"
        by (rule loop_safe_trans [OF frames(1)])
      with False rv show ?thesis unfolding eq by (simp add: finish)
    qed
  qed
qed

text \<open>An iteration after which the loop goes on was not told to quit.\<close>

lemma run_tasks_not_quitting:
  "run_tasks n client now_task f c w = Inr ((c', False), w') \<Longrightarrow> \<not> should_quit (run_states w ! f) \<Longrightarrow>
    \<not> should_quit (run_states w' ! f)"
  by (induction n arbitrary: c w)
    (auto simp: on_loop_def res_simps split: option.splits list.splits if_splits)

lemma wait_and_notify_not_quitting:
  "wait_and_notify n client q f now c w = Inr (True, w') \<Longrightarrow> \<not> should_quit (run_states w' ! f)"
  by (auto simp: wait_and_notify_def Let_def on_loop_def res_simps split: prod.splits if_splits option.splits)

lemma DoIteration_safe:
  assumes inv: "loop_inv w" and "run_states w \<noteq> []" "\<not> should_quit (run_states w ! top_frame w)"
  shows "loop_safe w (loop_state (DoIteration n client q w))"
    and "DoIteration n client q w = Inr (True, w') \<Longrightarrow> \<not> should_quit (run_states w' ! top_frame w)"
proof -
  define f where "f = top_frame w"
  obtain l where l: "run_loop w = Some l" "current_run_state l = Some f" "\<not> should_quit (run_states w ! f)"
    using inv assms(2,3) by (auto simp: wf_frames_def f_def elim: loop_invE)
  obtain now w1 where now: "GetTimeTicksNow w = (now, w1)" by fastforce
  note w1 = GetTimeTicksNow_keeps [OF now inv]
  define nt where "nt = \<lparr>dt_id = loop_next_id l, dt_task = 0, absolute_run_time = now\<rparr>"
  let ?rest = "\<lambda>((should_continue, quit), v). if quit then Inr (False, v)
      else on_loop (\<lambda>l w'. if handlers l = [] then Inr (should_continue, w')
        else wait_and_notify n client q f now should_continue w') v"
  have eq: "DoIteration n client q w =
      bindR (run_tasks n client nt f False w1) ?rest"
    using l now by (simp add: DoIteration_def on_loop_def [of _ w] nt_def)
  have "loop_safe w1 (loop_state (bindR (run_tasks n client nt f False w1) ?rest))"
  proof (rule loop_safe_bind_pair [OF run_tasks_safe [OF w1(1)]])
    fix a w2 assume w2: "loop_inv w2" "loop_keeps w1 w2"
    then have "run_states w2 \<noteq> []" using w1(2) loop_keeps_frames assms(2) by blast
    then show "loop_safe w2 (loop_state (?rest (a, w2)))"
      using w2(1) wait_and_notify_safe [OF w2(1)] w1(3) loop_inv_run_loop [OF w2(1)] by (cases a) (auto simp: on_loop_def)
  qed
  then show "loop_safe w (loop_state (DoIteration n client q w))"
    unfolding eq by (rule loop_safe_trans [OF w1(2)])
  show "DoIteration n client q w = Inr (True, w') \<Longrightarrow> \<not> should_quit (run_states w' ! top_frame w)"
    unfolding f_def [symmetric] using run_tasks_not_quitting [of n nt f False w1] l(3) w1(6)
    by (auto simp: eq res_simps on_loop_def split: if_splits option.splits dest: wait_and_notify_not_quitting)
qed

lemma iterations_safe:
  assumes "loop_inv w" "run_states w \<noteq> []" "\<not> should_quit (run_states w ! top_frame w)"
  shows "loop_safe w (iterations k n client q w)"
  using assms
proof (induction k arbitrary: w)
  case 0
  then show ?case by simp
next
  case (Suc k)
  have "loop_safe w (bindR (DoIteration n client q w) (\<lambda>(more, w). if more then iterations k n client q w else Inr w))"
  proof (rule loop_safe_bind_pairV [OF DoIteration_safe(1) [OF Suc.prems]])
    fix more w' assume w': "DoIteration n client q w = Inr (more, w')" "loop_inv w'" "loop_keeps w w'"
    then show "loop_safe w' ((\<lambda>(more, w). if more then iterations k n client q w else Inr w) (more, w'))"
      using Suc.IH [of w'] DoIteration_safe(2) [OF Suc.prems] Suc.prems(2) loop_keeps_frames [OF w'(3)]
      by (auto simp: loop_keeps_def)
  qed
  then show ?case by simp
qed

lemma RunInternal_safe:
  assumes inv: "loop_inv w"
  shows "loop_safe w (RunInternal n client q w)"
proof -
  obtain l where l: "run_loop w = Some l" "current_loop w" using inv by (auto elim: loop_invE)
  define w1 where "w1 = w\<lparr>run_states := run_states w @
      [\<lparr>should_quit = False, results_size = kInitialWaitSetNumResults\<rparr>],
      run_loop := Some (l\<lparr>current_run_state := Some (length (run_states w))\<rparr>)\<rparr>"
  have w1: "loop_inv w1" "run_states w1 \<noteq> []" "\<not> should_quit (run_states w1 ! top_frame w1)"
    using inv l by (auto simp: w1_def loop_inv_defs)
  let ?rest = "on_loop (\<lambda>l' w'. Inr (upd_loop (\<lambda>l'. l'\<lparr>current_run_state := current_run_state l\<rparr>)
       (w'\<lparr>run_states := take (length (run_states w)) (run_states w')\<rparr>)))"
  have eq: "RunInternal n client q w = bindR (iterations n n client q w1) ?rest"
    using l by (simp add: RunInternal_def on_loop_def [of _ w] upd_loop_def Let_def w1_def)
  show ?thesis
  proof (cases "iterations n n client q w1")
    case (Inl e)
    with iterations_safe [OF w1, of n n q] show ?thesis by (simp add: eq loop_safe_def)
  next
    case (Inr w2)
    with iterations_safe [OF w1, of n n q] have w2: "loop_inv w2" "loop_keeps w1 w2" by auto
    then obtain l2 where l2: "run_loop w2 = Some l2" by (auto elim: loop_invE)
    have "length (run_states w2) = Suc (length (run_states w))" "time_now w \<le> time_now w2" "run_states w2 \<noteq> []"
      using w2(2) by (auto simp: loop_keeps_def w1_def)
    moreover have "wf_frames l (run_states w)" using inv l by (auto simp: loop_inv_def)
    ultimately have "loop_inv (w2\<lparr>run_states := take (length (run_states w)) (run_states w2),
        run_loop := Some (l2\<lparr>current_run_state := current_run_state l\<rparr>)\<rparr>)"
      using w2(1) l2 by (simp add: loop_inv_defs)
    then show ?thesis
      using Inr l2 \<open>length (run_states w2) = _\<close> \<open>time_now w \<le> _\<close>
      by (simp add: eq on_loop_def upd_loop_def loop_keeps_def)
  qed
qed

lemma abort_handlers_safe:
  assumes "loop_inv w"
  shows "loop_safe w (abort_handlers n client w) \<and>
    (\<forall>w'. abort_handlers n client w = Inr w' \<longrightarrow> handlers (the (run_loop w')) = [])"
  using assms
proof (induction n arbitrary: w)
  case (Suc n)
  obtain l where l: "run_loop w = Some l" using loop_inv_run_loop [OF Suc.prems] by blast
  show ?case
  proof (cases "handlers l")
    case Nil
    with l Suc.prems show ?thesis by (simp add: on_loop_def)
  next
    case (Cons p rest)
    obtain i info where p: "p = (i, info)" by fastforce
    define w1 where "w1 = note_event (Notified i MOJO_SYSTEM_RESULT_ABORTED) (w\<lparr>run_loop := Some (l\<lparr>handlers := rest\<rparr>)\<rparr>)"
    have w1: "loop_inv w1" "loop_keeps w w1"
      using first_handler_inv [OF Suc.prems l Cons [unfolded p]] by (auto simp: w1_def loop_keeps_def note_event_def)
    let ?cb = "HandleError (handler info) i MOJO_SYSTEM_RESULT_ABORTED"
    have "loop_safe w (bindR (client ?cb w1) (abort_handlers n client))"
      by (rule loop_safe_trans [OF w1(2) loop_safe_bindV [OF client_safe [OF w1(1)]]]) (simp add: Suc.IH)
    moreover have "handlers (the (run_loop w')) = []" if "bindR (client ?cb w1) (abort_handlers n client) = Inr w'" for w'
      using that Suc.IH client_safe [OF w1(1), of ?cb] by (auto simp: res_simps)
    ultimately show ?thesis using l Cons p by (simp add: on_loop_def upd_loop_def w1_def)
  qed
qed simp

lemma call_safe:
  assumes "loop_inv w" "allowed a w"
  shows "loop_safe w (call n client a w)"
  using assms by (cases a) (auto simp: Run_def RunUntilIdle_def simp del: allowed.simps
    intro!: AddHandler_safe RemoveHandler_safe PostDelayedTask_safe Quit_safe RunInternal_safe)

lemma calls_safe:
  assumes "loop_inv w"
  shows "loop_safe w (calls n client as w)"
  using assms
proof (induction as arbitrary: w)
  case Nil
  then show ?case by simp
next
  case (Cons a as)
  have "loop_safe w (if allowed a w then call n client a w else Inr w)"
    using Cons.prems call_safe by simp
  then show ?case using Cons.IH by (auto intro: loop_safe_bindV)
qed

end

section \<open>Scripts are clients\<close>

lemma script_contract: "loop_user (loop_script_client n script)"
proof (induction n)
  case 0
  show ?case by unfold_locales simp
next
  case (Suc n)
  show ?case by unfold_locales (simp add: loop_user.calls_safe [OF Suc])
qed

interpretation scripted_loop: loop_user "loop_script_client n script" for n script
  by (rule script_contract)

section \<open>Sessions\<close>

definition fresh_loop_world :: "loop_world \<Rightarrow> bool" where
  "fresh_loop_world w \<longleftrightarrow> \<not> current_loop w \<and> run_states w = [] \<and> loop_log w = [] \<and> wf_system w"

lemma RunLoop_new_inv:
  assumes "fresh_loop_world w"
  shows "\<exists>w'. RunLoop_new w = Inr w' \<and> loop_inv w' \<and> run_states w' = []"
  using assms by (auto simp: fresh_loop_world_def RunLoop_new_def loop_inv_defs)

lemma loop_session_safe:
  assumes "fresh_loop_world w"
  shows "case loop_session n script as w of Inl e \<Rightarrow> e = OutOfFuel | Inr w' \<Rightarrow> loop_inv w' \<and> run_states w' = []"
proof -
  obtain w1 where w1: "RunLoop_new w = Inr w1" "loop_inv w1" "run_states w1 = []"
    using RunLoop_new_inv [OF assms] by blast
  with scripted_loop.calls_safe [OF w1(2), of n n script as] show ?thesis
    by (auto simp: loop_session_def loop_safe_def loop_keeps_def split: sum.splits)
qed

text \<open>
  Claim C32. Whatever handlers and tasks do when the loop calls them -- add and remove handlers, post tasks, quit,
  run the loop again -- no assertion of the run loop fails and no frame of a run that has ended is
  accessed. When the calls return, every handler is in the wait set and, if it has a
  deadline, in the queue of deadlines; the keys of the handlers are in strict order; and the queues of tasks and
  deadlines are in the order of their \<^verbatim>\<open>operator<\<close>, with no identifier that has not been given out. The
  other outcome, \<open>OutOfFuel\<close>, is that of a run that does not end within \<open>n\<close> rounds and \<open>n\<close> levels of
  nesting.
\<close>

theorem run_loop_session_safe:
  assumes "fresh_loop_world w"
  shows "case loop_session n script as w of
      Inl e \<Rightarrow> e = OutOfFuel
    | Inr w' \<Rightarrow> (\<exists>l. run_loop w' = Some l \<and> run_states w' = [] \<and> current_run_state l = None \<and>
        sorted_wrt (<) (map fst (handlers l)) \<and> fst ` set (handlers l) \<subseteq> fst ` set (wait_set w') \<and>
        (\<forall>i info. (i, info) \<in> set (handlers l) \<longrightarrow> hi_absolute_deadline info \<noteq> kInvalidTimeTicks \<longrightarrow>
           \<lparr>hd_id = i, hd_absolute_deadline = hi_absolute_deadline info\<rparr> \<in> set (handler_deadlines l)) \<and>
        sorted_wrt (\<lambda>a b. \<not> HandlerDeadlineInfo_less a b) (handler_deadlines l) \<and>
        sorted_wrt (\<lambda>a b. \<not> DelayedTaskInfo_less a b) (delayed_tasks l) \<and>
        (\<forall>i \<in> fst ` set (wait_set w') \<union> hd_id ` set (handler_deadlines l) \<union> dt_id ` set (delayed_tasks l).
           i < loop_next_id l))"
proof (cases "loop_session n script as w")
  case (Inl e)
  with loop_session_safe [OF assms, of n script as] show ?thesis by simp
next
  case (Inr w')
  with loop_session_safe [OF assms, of n script as] have w': "loop_inv w'" "run_states w' = []" by auto
  then obtain l where l: "run_loop w' = Some l" "wf_handlers l (wait_set w')" "wf_queues l" "wf_frames l []"
    by (auto elim: loop_invE)
  then have "\<forall>i \<in> fst ` set (wait_set w') \<union> hd_id ` set (handler_deadlines l) \<union> dt_id ` set (delayed_tasks l).
      i < loop_next_id l" unfolding wf_handlers_def wf_queues_def by fast
  with l w'(2) Inr show ?thesis by (simp add: wf_handlers_def wf_queues_def wf_frames_def)
qed

lemma RunLoop_destroy_aborts:
  assumes "loop_inv w"
  shows "case RunLoop_destroy n (loop_script_client n script) w of
      Inl e \<Rightarrow> e = OutOfFuel
    | Inr w' \<Rightarrow> run_loop w' = None \<and>
        mset (added (loop_log w')) = mset (notified_ids (loop_log w')) + mset (removed (loop_log w'))"
proof -
  obtain l where l: "run_loop w = Some l" "current_loop w" using assms by (auto elim: loop_invE)
  show ?thesis
  proof (cases "abort_handlers n (loop_script_client n script) w")
    case (Inl e)
    with l scripted_loop.abort_handlers_safe [OF assms, of n n script] show ?thesis
      by (simp add: RunLoop_destroy_def on_loop_def loop_safe_def)
  next
    case (Inr v)
    with scripted_loop.abort_handlers_safe [OF assms, of n n script]
    have "loop_inv v" "handlers (the (run_loop v)) = []" by auto
    with l Inr show ?thesis by (simp add: RunLoop_destroy_def on_loop_def loop_inv_def wf_log_def)
  qed
qed


text \<open>
  A handler with a deadline that posts a task when the deadline passes, and a task that adds another handler,
  which is notified when its handle is ready and runs the loop again.
\<close>

definition sample_loop_world :: loop_world where
  "sample_loop_world = \<lparr>run_loop = None, current_loop = False, run_states = [], wait_set = [],
     time_now = 100, elapses = [0, 5, 5], wait_outcomes = [WaitTimesOut, WaitReturns [(4, 0), (1, 9)] 2],
     loop_log = []\<rparr>"

definition sample_loop_script :: loop_script where
  "sample_loop_script cb w = (case cb of
     RunTask t \<Rightarrow> [CallAddHandler 7 2 1 MOJO_DEADLINE_INDEFINITE]
   | HandleReady h i \<Rightarrow> [CallPostDelayedTask 0 1000, CallRunUntilIdle, CallQuit]
   | HandleError h i rv \<Rightarrow> [CallPostDelayedTask 6 0])"

definition sample_loop_calls :: "loop_action list" where
  "sample_loop_calls = [CallAddHandler 5 1 1 50, CallAddHandler 4 3 1 MOJO_DEADLINE_INDEFINITE, CallRun]"

lemma sample_loop_session:
  "map_sum (\<lambda>e. e) (\<lambda>w. (added (loop_log w), notified_ids (loop_log w), posted (loop_log w), tasks_run (loop_log w),
       map fst (handlers (the (run_loop w))), map dt_id (delayed_tasks (the (run_loop w))), map fst (wait_set w),
       map_sum (\<lambda>e. e) (\<lambda>v. run_loop v = None) (RunLoop_destroy 6 (loop_script_client 6 sample_loop_script) w)))
     (loop_session 6 sample_loop_script sample_loop_calls sample_loop_world) =
   Inr ([1, 2, 4], [1, 4], [3, 5], [3], [2], [5], [1, 2], Inr True)"
  by code_simp

lemma sample_loop_fresh: "fresh_loop_world sample_loop_world"
  by (simp add: fresh_loop_world_def sample_loop_world_def wf_system_def kMaxMojoTimeTicks_def)

theorem run_loop_session_safe_witness:
  "\<exists>w' l. loop_session 6 sample_loop_script sample_loop_calls sample_loop_world = Inr w' \<and> run_loop w' = Some l \<and>
     map fst (handlers l) = [2] \<and> fst ` set (handlers l) \<subseteq> fst ` set (wait_set w') \<and> current_run_state l = None \<and>
     map dt_id (delayed_tasks l) = [5]"
proof (cases "loop_session 6 sample_loop_script sample_loop_calls sample_loop_world")
  case (Inr w')
  with run_loop_session_safe [OF sample_loop_fresh, of 6 sample_loop_script sample_loop_calls]
  obtain l where "run_loop w' = Some l" "current_run_state l = None" "fst ` set (handlers l) \<subseteq> fst ` set (wait_set w')"
    by auto
  with Inr sample_loop_session show ?thesis by auto
qed (use sample_loop_session in simp)


end
