(* ===== verification/Cpp_RunLoopTasks.thy ===== *)
theory Cpp_RunLoopTasks
  imports Cpp_RunLoopSafety
begin

text \<open>
  What the run loop gets done. The tasks that are due when an iteration starts are run, all of them and
  in order, and no others, although tasks may post more tasks without delay. A handler whose deadline has
  passed is not always told: the wait set keeps the entry of a handler after its deadline, and once the handle
  of such an entry is signalled, waiting never times out again.
\<close>

section \<open>Tasks\<close>

lemma takeWhile_sorted:
  assumes "sorted_wrt (\<lambda>a b. \<not> DelayedTaskInfo_less a b) q"
  shows "takeWhile (DelayedTaskInfo_less nt) q = filter (DelayedTaskInfo_less nt) q"
  using assms
proof (induction q)
  case (Cons a q)
  have "filter (DelayedTaskInfo_less nt) q = []" if "\<not> DelayedTaskInfo_less nt a"
    using that Cons.prems task_queue.not_less_trans [of nt a] by (auto simp: filter_empty_conv)
  with Cons show ?case by auto
qed simp

lemma filter_pq_push: "\<not> P x \<Longrightarrow> filter P (pq_push lt x q) = filter P q"
  by (simp add: pq_push_def) (metis filter_append takeWhile_dropWhile_id)

text \<open>
  What is due at a time is not changed by code that runs later and neither runs the loop nor
  makes it quit.
\<close>

definition due_at :: "u64 \<Rightarrow> int \<Rightarrow> RunLoop \<Rightarrow> DelayedTaskInfo list" where
  "due_at i now l = filter (DelayedTaskInfo_less \<lparr>dt_id = i, dt_task = 0, absolute_run_time = now\<rparr>) (delayed_tasks l)"

definition later :: "loop_world \<Rightarrow> loop_world \<Rightarrow> bool" where
  "later w w' \<longleftrightarrow> (\<exists>l l'. run_loop w = Some l \<and> run_loop w' = Some l' \<and> loop_next_id l \<le> loop_next_id l' \<and>
     time_now w \<le> time_now w' \<and> run_states w' = run_states w \<and> tasks_run (loop_log w') = tasks_run (loop_log w) \<and>
     (\<forall>i now. i \<le> loop_next_id l \<longrightarrow> now \<le> time_now w \<longrightarrow> due_at i now l' = due_at i now l))"

lemma later_refl: "loop_inv w \<Longrightarrow> later w w"
  by (auto simp: later_def dest: loop_inv_run_loop)

lemma later_trans: "later u v \<Longrightarrow> later v w \<Longrightarrow> later u w"
  unfolding later_def by fastforce

fun simple_call :: "loop_action \<Rightarrow> bool" where
  "simple_call (CallAddHandler h hdl signals deadline) \<longleftrightarrow> True"
| "simple_call (CallRemoveHandler i) \<longleftrightarrow> True"
| "simple_call (CallPostDelayedTask t delay) \<longleftrightarrow> True"
| "simple_call _ \<longleftrightarrow> False"

lemma add_deadline_fields:
  assumes "add_deadline i deadline w = (ad, w')" "run_loop w = Some l" "loop_inv w"
  shows "\<exists>q. run_loop w' = Some (l\<lparr>handler_deadlines := q\<rparr>)" "time_now w \<le> time_now w'"
    "run_states w' = run_states w" "loop_log w' = loop_log w" "wait_set w' = wait_set w"
proof -
  obtain now v where now: "GetTimeTicksNow w = (now, v)" by fastforce
  then obtain ds where v: "v = w\<lparr>time_now := now, elapses := ds\<rparr>" "time_now w \<le> now"
    using GetTimeTicksNow_fields by blast
  then consider "w' = v \<or> w' = w" | q where "w' = v\<lparr>run_loop := Some (l\<lparr>handler_deadlines := q\<rparr>)\<rparr>"
    using assms(1,2) now v by (auto simp: add_deadline_def upd_loop_def split: if_splits)
  then have "(\<exists>q. run_loop w' = Some (l\<lparr>handler_deadlines := q\<rparr>)) \<and> time_now w \<le> time_now w' \<and>
    run_states w' = run_states w \<and> loop_log w' = loop_log w \<and> wait_set w' = wait_set w"
  proof cases
    case 1
    with v assms(2) show ?thesis by (auto intro!: exI [of _ "handler_deadlines l"])
  next
    case 2
    with v show ?thesis by auto
  qed
  then show "\<exists>q. run_loop w' = Some (l\<lparr>handler_deadlines := q\<rparr>)" "time_now w \<le> time_now w'"
    "run_states w' = run_states w" "loop_log w' = loop_log w" "wait_set w' = wait_set w" by auto
qed

lemma simple_calls_end:
  "AddHandler h hdl signals deadline w \<noteq> Inl OutOfFuel" "RemoveHandler i w \<noteq> Inl OutOfFuel"
  "PostDelayedTask t delay w \<noteq> Inl OutOfFuel"
  by (auto simp: AddHandler_def RemoveHandler_def PostDelayedTask_def on_loop_def assertC_def Let_def split: option.splits prod.splits)

lemma AddHandler_later:
  assumes "loop_inv w" "loop_next_id (the (run_loop w)) \<noteq> - 1" "AddHandler h hdl signals deadline w = Inr (i, w')"
  shows "later w w'"
proof -
  obtain l where l: "run_loop w = Some l" using loop_inv_run_loop [OF assms(1)] by blast
  define w1 where "w1 = upd_loop (\<lambda>l. l\<lparr>loop_next_id := loop_next_id l + 1\<rparr>) w"
  have w1: "run_loop w1 = Some (l\<lparr>loop_next_id := loop_next_id l + 1\<rparr>)" "loop_inv w1"
    using take_id_inv(1) [OF assms(1) l] assms(2) l by (simp_all add: w1_def upd_loop_def)
  obtain ad w2 where w2: "add_deadline (loop_next_id l) deadline w1 = (ad, w2)" by fastforce
  note f = add_deadline_fields [OF w2 w1]
  have "loop_next_id l \<le> loop_next_id l + 1" using fresh_id(1) [of "loop_next_id l"] assms(2) l by simp
  moreover obtain q where q: "run_loop w2 = Some (l\<lparr>loop_next_id := loop_next_id l + 1, handler_deadlines := q\<rparr>)"
    using f(1) by auto
  have "\<exists>hs ws. w' = note_event (Added (loop_next_id l)) (w2\<lparr>run_loop :=
      Some (l\<lparr>loop_next_id := loop_next_id l + 1, handler_deadlines := q, handlers := hs\<rparr>), wait_set := ws\<rparr>)"
    using assms(3) l w2 q
    by (cases "loop_next_id l \<in> fst ` set (wait_set w2)")
      (auto simp: AddHandler_def on_loop_def w1_def Let_def WaitSetAdd_def assertC_def upd_loop_def
        split: if_splits)
  ultimately show ?thesis
    using l f(2-4) by (auto simp: later_def due_at_def note_event_def w1_def upd_loop_def)
qed

lemma RemoveHandler_later:
  assumes "loop_inv w" "RemoveHandler i w = Inr w'"
  shows "later w w'"
  using assms loop_inv_run_loop [OF assms(1)]
  by (auto simp: RemoveHandler_def on_loop_def Let_def WaitSetRemove_def assertC_eq_Inr later_def due_at_def note_event_def
      upd_loop_def split: option.splits if_splits)

lemma PostDelayedTask_later:
  assumes "loop_inv w" "allowed (CallPostDelayedTask t delay) w" "PostDelayedTask t delay w = Inr w'"
  shows "later w w'"
proof -
  obtain l where l: "run_loop w = Some l" using loop_inv_run_loop [OF assms(1)] by blast
  define i where "i = loop_next_id l"
  obtain now v where now: "GetTimeTicksNow (w\<lparr>run_loop := Some (l\<lparr>loop_next_id := i + 1\<rparr>)\<rparr>) = (now, v)" by fastforce
  then obtain ds where v: "v = w\<lparr>run_loop := Some (l\<lparr>loop_next_id := i + 1\<rparr>), time_now := now, elapses := ds\<rparr>" "time_now w \<le> now"
    using GetTimeTicksNow_fields [OF now] by auto
  have d: "0 \<le> delay" "i \<le> i + 1" using assms(2) fresh_id(1) [of i] l by (auto simp: i_def)
  have w': "w' = note_event (Posted i) (v\<lparr>run_loop := Some (l\<lparr>loop_next_id := i + 1, delayed_tasks :=
      pq_push DelayedTaskInfo_less \<lparr>dt_id = i, dt_task = t, absolute_run_time = now + delay\<rparr> (delayed_tasks l)\<rparr>)\<rparr>)"
    using assms(3) l now v by (simp add: PostDelayedTask_def on_loop_def upd_loop_def Let_def assertC_eq_Inr i_def)
  have "\<not> DelayedTaskInfo_less \<lparr>dt_id = j, dt_task = 0, absolute_run_time = now'\<rparr>
      \<lparr>dt_id = i, dt_task = t, absolute_run_time = now + delay\<rparr>" if "j \<le> i" "now' \<le> time_now w" for j now'
    using that d v(2) by (auto simp: DelayedTaskInfo_less_def)
  then show ?thesis
    using l v d(2) by (auto simp: w' later_def due_at_def note_event_def filter_pq_push i_def)
qed

lemma simple_calls_later:
  assumes "loop_inv w" "\<forall>a \<in> set as. simple_call a"
  shows "\<exists>w'. calls n client as w = Inr w' \<and> loop_inv w' \<and> later w w'"
  using assms
proof (induction as arbitrary: w)
  case Nil
  then show ?case by (simp add: later_refl)
next
  case (Cons a as)
  have "\<exists>w1. (if allowed a w then call n client a w else Inr w) = Inr w1 \<and> loop_inv w1 \<and> later w w1"
  proof (cases "allowed a w")
    case False
    with Cons.prems show ?thesis by (simp add: later_refl)
  next
    case True
    show ?thesis
    proof (cases a)
      case (CallAddHandler h hdl signals deadline)
      with True AddHandler_safe [OF Cons.prems(1), of h hdl signals deadline]
        AddHandler_later [OF Cons.prems(1), of h hdl signals deadline] simple_calls_end show ?thesis
        by (cases "AddHandler h hdl signals deadline w") (auto simp: loop_safe_def)
    next
      case (CallRemoveHandler i)
      with RemoveHandler_safe [OF Cons.prems(1), of i] RemoveHandler_later [OF Cons.prems(1), of i] True show ?thesis
        by (cases "RemoveHandler i w") (auto simp: loop_safe_def simple_calls_end)
    next
      case (CallPostDelayedTask t delay)
      with PostDelayedTask_safe [OF Cons.prems(1), of t delay] PostDelayedTask_later [OF Cons.prems(1), of t delay] True show ?thesis
        by (cases "PostDelayedTask t delay w") (auto simp: loop_safe_def simple_calls_end)
    qed (use Cons.prems in simp_all)
  qed
  then obtain w1 where w1: "(if allowed a w then call n client a w else Inr w) = Inr w1" "loop_inv w1" "later w w1" by blast
  moreover obtain w' where "calls n client as w1 = Inr w'" "loop_inv w'" "later w1 w'"
    using Cons.IH [OF w1(2)] Cons.prems(2) by auto
  ultimately show ?case by (auto intro: later_trans)
qed

text \<open>The contract of the code of tasks, which the scripts below meet.\<close>

locale task_code =
  fixes client :: loop_client
  assumes task_later: "loop_inv w \<Longrightarrow> \<exists>w'. client (RunTask t) w = Inr w' \<and> loop_inv w' \<and> later w w'"
begin

lemma run_due_tasks:
  assumes "loop_inv w" "run_loop w = Some l" "due_at i now l = due" "length due < n" "i \<le> loop_next_id l" "now \<le> time_now w"
    and "\<not> should_quit (run_states w ! f)"
  shows "\<exists>w' l'. run_tasks n client \<lparr>dt_id = i, dt_task = 0, absolute_run_time = now\<rparr> f c w =
      Inr ((c \<or> due \<noteq> [], False), w') \<and> loop_inv w' \<and> run_loop w' = Some l' \<and> due_at i now l' = [] \<and>
    tasks_run (loop_log w') = tasks_run (loop_log w) @ map dt_id due"
  using assms
proof (induction due arbitrary: n c w l)
  case Nil
  from Nil.prems(3,4) obtain k where "n = Suc k" by (cases n) auto
  with Nil.prems show ?case
    by (auto simp: on_loop_def due_at_def filter_empty_conv split: list.splits)
next
  case (Cons d ds)
  let ?nt = "\<lparr>dt_id = i, dt_task = 0, absolute_run_time = now\<rparr>"
  obtain k where n: "n = Suc k" using Cons.prems(4) by (cases n) auto
  have "sorted_wrt (\<lambda>a b. \<not> DelayedTaskInfo_less a b) (delayed_tasks l)"
    using Cons.prems(1,2) by (simp add: loop_inv_def wf_queues_def)
  then have "takeWhile (DelayedTaskInfo_less ?nt) (delayed_tasks l) = d # ds"
    using Cons.prems(3) by (simp add: takeWhile_sorted due_at_def)
  then obtain ts where ts: "delayed_tasks l = d # ts" "DelayedTaskInfo_less ?nt d"
    by (cases "delayed_tasks l") (auto split: if_splits)
  define l1 where "l1 = l\<lparr>delayed_tasks := ts\<rparr>"
  define w1 where "w1 = note_event (TaskRun (dt_id d)) (w\<lparr>run_loop := Some l1\<rparr>)"
  have w1: "loop_inv w1" using pop_task_inv [OF Cons.prems(1,2) ts(1)] by (simp add: w1_def l1_def)
  obtain w2 where w2: "client (RunTask (dt_task d)) w1 = Inr w2" "loop_inv w2" "later w1 w2"
    using task_later [OF w1] by blast
  then obtain l2 where l2: "run_loop w2 = Some l2" "loop_next_id l \<le> loop_next_id l2" "time_now w \<le> time_now w2"
    "run_states w2 = run_states w" "tasks_run (loop_log w2) = tasks_run (loop_log w) @ [dt_id d]" "due_at i now l2 = due_at i now l1"
    using Cons.prems(5,6) by (auto simp: later_def w1_def l1_def note_event_def)
  moreover have "i \<le> loop_next_id l2" using Cons.prems(5) l2(2) by (rule order_trans)
  moreover have "due_at i now l1 = ds" using Cons.prems(3) ts by (simp add: due_at_def l1_def)
  ultimately obtain w' l' where "run_tasks k client ?nt f True w2 = Inr ((True, False), w')" "loop_inv w'"
    "run_loop w' = Some l'" "due_at i now l' = []" "tasks_run (loop_log w') = tasks_run (loop_log w) @ dt_id d # map dt_id ds"
    using Cons.IH [of w2 l2 k True] w2(2) Cons.prems(4-7) n by auto
  then show ?case
    using n Cons.prems(2,7) ts w2(1) l2(4) by (simp add: on_loop_def upd_loop_def w1_def l1_def)
qed

end

definition simple_tasks :: "loop_script \<Rightarrow> bool" where
  "simple_tasks script \<longleftrightarrow> (\<forall>t w. \<forall>a \<in> set (script (RunTask t) w). simple_call a)"

lemma simple_tasks_contract:
  assumes "simple_tasks script"
  shows "task_code (loop_script_client (Suc k) script)"
  using assms by unfold_locales (auto simp: simple_tasks_def intro: simple_calls_later)

text \<open>Any script has simple tasks once the calls that run the loop or quit are left out of them.\<close>

definition simplified_tasks :: "loop_script \<Rightarrow> loop_script" where
  "simplified_tasks script cb w = (case cb of
     RunTask t \<Rightarrow> filter simple_call (script cb w)
   | _ \<Rightarrow> script cb w)"

interpretation scripted_tasks: task_code "loop_script_client (Suc k) (simplified_tasks script)" for k script
  by (rule simple_tasks_contract) (simp add: simple_tasks_def simplified_tasks_def)


text \<open>Tasks that post themselves again without delay.\<close>

definition reposting :: loop_script where
  "reposting cb w = (case cb of RunTask t \<Rightarrow> [CallPostDelayedTask t 0] | _ \<Rightarrow> [])"

definition due_loop :: RunLoop where
  "due_loop = \<lparr>loop_next_id = 4, handlers = [], handler_deadlines = [],
     delayed_tasks = [\<lparr>dt_id = 2, dt_task = 5, absolute_run_time = 90\<rparr>, \<lparr>dt_id = 3, dt_task = 6, absolute_run_time = 100\<rparr>,
       \<lparr>dt_id = 1, dt_task = 7, absolute_run_time = 110\<rparr>], current_run_state = Some 0\<rparr>"

definition due_world :: loop_world where
  "due_world = \<lparr>run_loop = Some due_loop, current_loop = True,
     run_states = [\<lparr>should_quit = False, results_size = 16\<rparr>], wait_set = [],
     time_now = 100, elapses = [], wait_outcomes = [], loop_log = [Posted 1, Posted 2, Posted 3]\<rparr>"

lemma due_world_facts:
  "loop_inv due_world" "run_loop due_world = Some due_loop" "100 \<le> time_now due_world"
  "\<not> should_quit (run_states due_world ! 0)" "tasks_run (loop_log due_world) = []"
  by (simp_all add: due_world_def due_loop_def loop_inv_defs kMaxMojoTimeTicks_def DelayedTaskInfo_less_def log_defs)


section \<open>Deadlines\<close>

lemma stale_wait:
  assumes "c \<in> fst ` set (wait_set w)" "wait_outcomes w = WaitReturns [(c, rv)] mx # ps"
  shows "WaitSetWait d w = Inr ((MOJO_RESULT_OK, [(c, rv)], mx), w\<lparr>wait_outcomes := ps\<rparr>)"
  using assms by (simp add: WaitSetWait_def Let_def set_results_def)

definition stale_entry :: "u64 \<Rightarrow> loop_world \<Rightarrow> bool" where
  "stale_entry c w \<longleftrightarrow> c \<in> fst ` set (wait_set w) \<and> (case run_loop w of None \<Rightarrow> False | Some l \<Rightarrow>
     c \<notin> fst ` set (handlers l) \<and> handlers l \<noteq> [] \<and> delayed_tasks l = [] \<and>
     (case current_run_state l of None \<Rightarrow> False | Some f \<Rightarrow> f < length (run_states w) \<and> \<not> should_quit (run_states w ! f)))"

lemma stale_iteration:
  assumes "stale_entry c w" "wait_outcomes w = WaitReturns [(c, rv)] mx # ps" "0 < n"
  shows "\<exists>w'. DoIteration n client False w = Inr (True, w') \<and> stale_entry c w' \<and> wait_outcomes w' = ps \<and>
    loop_log w' = loop_log w \<and> handlers (the (run_loop w')) = handlers (the (run_loop w))"
proof -
  obtain l f where l: "run_loop w = Some l" "current_run_state l = Some f" "f < length (run_states w)"
    "\<not> should_quit (run_states w ! f)" "c \<in> fst ` set (wait_set w)" "c \<notin> fst ` set (handlers l)" "handlers l \<noteq> []" "delayed_tasks l = []"
    using assms(1) by (auto simp: stale_entry_def split: option.splits)
  obtain now w1 where now: "GetTimeTicksNow w = (now, w1)" by fastforce
  then obtain ds where w1: "w1 = w\<lparr>time_now := now, elapses := ds\<rparr>" using GetTimeTicksNow_fields by blast
  have tasks: "run_tasks n client nt f False w1 = Inr ((False, False), w1)" for nt
    using assms(3) l w1 by (cases n) (auto simp: on_loop_def)
  define w2 where "w2 = w1\<lparr>run_loop := Some (drop_stale l)\<rparr>"
  have "\<exists>ad. CalculateAbsoluteDeadline w1 = Inr ((ad, False), w2)"
    using l w1 by (auto simp: CalculateAbsoluteDeadline_def on_loop_def upd_loop_def Let_def w2_def split: list.splits)
  then obtain ad where ad: "CalculateAbsoluteDeadline w1 = Inr ((ad, False), w2)" by blast
  have wait: "WaitSetWait d w2 = Inr ((MOJO_RESULT_OK, [(c, rv)], mx), w2\<lparr>wait_outcomes := ps\<rparr>)" for d
    by (rule stale_wait) (use l w1 assms(2) in \<open>simp_all add: w2_def\<close>)
  have "map_of (handlers l) c = None" using l(6) by (simp add: map_of_eq_None)
  then have "\<exists>w3. wait_and_notify n client False f now False w1 = Inr (True, w3) \<and> run_loop w3 = Some (drop_stale l) \<and>
      wait_set w3 = wait_set w \<and> wait_outcomes w3 = ps \<and> loop_log w3 = loop_log w \<and>
      f < length (run_states w3) \<and> \<not> should_quit (run_states w3 ! f)"
    using l by (auto simp: wait_and_notify_def ad wait Let_def NotifyResults_def on_loop_def)
      (auto simp: w2_def w1 drop_stale_def on_loop_def)
  then show ?thesis
    using l now tasks w1 by (elim exE conjE) (simp add: DoIteration_def on_loop_def stale_entry_def drop_stale_def)
qed


text \<open>The state after the first of two handlers has been told that its deadline has passed.\<close>

definition stale_world :: "nat option \<Rightarrow> RunState list \<Rightarrow> wait_outcome list \<Rightarrow> loop_world" where
  "stale_world f frames outcomes = \<lparr>run_loop = Some \<lparr>loop_next_id = 3,
       handlers = [(2, \<lparr>handler = 4, handle_signals = 1, hi_absolute_deadline = 160\<rparr>)],
       handler_deadlines = [\<lparr>hd_id = 2, hd_absolute_deadline = 160\<rparr>], delayed_tasks = [], current_run_state = f\<rparr>,
     current_loop = True, run_states = frames, wait_set = [(1, 1, 1), (2, 3, 1)], time_now = 155, elapses = [100],
     wait_outcomes = outcomes, loop_log = [Added 1, Added 2, Notified 1 MOJO_SYSTEM_RESULT_DEADLINE_EXCEEDED]\<rparr>"

lemma stale_entry_arises:
  "loop_session 4 (\<lambda>_ _. []) [CallAddHandler 5 1 1 50, CallAddHandler 4 3 1 60, CallRunUntilIdle]
     (sample_loop_world\<lparr>elapses := [0, 0, 55, 0, 100], wait_outcomes := []\<rparr>) = Inr (stale_world None [] [])"
  by code_simp


end
