(* ===== verification/Cpp_Serialization.thy ===== *)
theory Cpp_Serialization
  imports Cpp_ArrayData
begin

text \<open>
  \<^verbatim>\<open>array_serialization.h\<close>, \<^verbatim>\<open>string_serialization.cc\<close> and \<^verbatim>\<open>map_serialization.h\<close>: arrays, strings and maps
  of the C++ bindings are turned into \<^verbatim>\<open>Array_Data\<close> and \<^verbatim>\<open>Map_Data\<close> in a \<^verbatim>\<open>FixedBuffer\<close> and back.

  A wrapper type is a constructor of \<open>wrapper\<close>; the serialised type \<^verbatim>\<open>WrapperTraits<E>::DataType\<close> is a
  function of it. A value of a wrapper type is a \<open>mojo_value\<close>; a map is the list of its entries in the
  order of its iterators. Serialising takes the handles out of the value, so that it returns the
  value that is left as well. The functions that the generator emits for structs and unions are the
  record \<open>generated_serializers\<close>, and so is the order of the keys of a map.
\<close>

section \<open>Wrapper types and values\<close>

datatype wrapper =
    Pod nat
  | BoolW
  | ScopedHandle
  | InterfaceRequest
  | InterfaceHandle
  | StructW nat
  | StringW
  | ArrayW wrapper
  | MapW wrapper wrapper
  | UnionW nat

primrec DataType :: "wrapper \<Rightarrow> array_type" where
  "DataType (Pod n) = Primitive n"
| "DataType BoolW = Bool"
| "DataType ScopedHandle = HandleType"
| "DataType InterfaceRequest = HandleType"
| "DataType InterfaceHandle = InterfaceType"
| "DataType (StructW c) = StructPtr c"
| "DataType StringW = ArrayPtr (Primitive 1)"
| "DataType (ArrayW E) = ArrayPtr (DataType E)"
| "DataType (MapW K V) = MapPtr (DataType K) (DataType V)"
| "DataType (UnionW c) = UnionType c"

text \<open>A number is its bytes; \<open>StructV\<close> and \<open>UnionV\<close> stand for the contents of generated classes.\<close>

datatype mojo_value =
    PodV "u8 list"
  | BoolV bool
  | HandleV MojoHandle
  | InterfaceV MojoHandle u32
  | StructV nat
  | UnionV nat
  | StringV "u8 list"
  | ArrayV "mojo_value list"
  | MapV "(mojo_value \<times> mojo_value) list"
  | NullV

type_synonym buffer_state = "mem \<times> FixedBuffer"

record generated_serializers =
  Struct_GetSerializedSize :: "nat \<Rightarrow> mojo_value \<Rightarrow> u64"
  Struct_Serialize :: "nat \<Rightarrow> mojo_value \<Rightarrow> buffer_state \<Rightarrow> ((ValidationError \<times> addr \<times> mojo_value) \<times> buffer_state) res"
  Struct_Deserialize :: "nat \<Rightarrow> mem \<Rightarrow> addr \<Rightarrow> (mojo_value \<times> mem) res"
  Union_GetSerializedSize :: "nat \<Rightarrow> mojo_value \<Rightarrow> u64"
  Union_Serialize :: "nat \<Rightarrow> mojo_value \<Rightarrow> addr \<Rightarrow> buffer_state \<Rightarrow> ((ValidationError \<times> mojo_value) \<times> buffer_state) res"
  Union_null :: "nat \<Rightarrow> mem \<Rightarrow> addr \<Rightarrow> bool res"
  Union_Deserialize :: "nat \<Rightarrow> mem \<Rightarrow> addr \<Rightarrow> (mojo_value \<times> mem) res"
  Key_less :: "wrapper \<Rightarrow> mojo_value \<Rightarrow> mojo_value \<Rightarrow> bool"

section \<open>Sizes\<close>

text \<open>
  \<^verbatim>\<open>ArraySerializer<E, F>::GetSerializedSize\<close> of the specialisations, given the size of what an element points
  to; \<^verbatim>\<open>size_t\<close> has 64 bits.
\<close>

definition GetSerializedSize_pod :: "nat \<Rightarrow> mojo_value list \<Rightarrow> u64" where
  "GetSerializedSize_pod n vs = of_nat sizeof_ArrayHeader + Align (of_nat (length vs) * of_nat n)"

definition GetSerializedSize_bool :: "mojo_value list \<Rightarrow> u64" where
  "GetSerializedSize_bool vs = of_nat sizeof_ArrayHeader + Align ((of_nat (length vs) + 7) div 8)"

definition GetSerializedSize_handle :: "mojo_value list \<Rightarrow> u64" where
  "GetSerializedSize_handle vs = of_nat sizeof_ArrayHeader + Align (of_nat (length vs) * of_nat sizeof_MojoHandle)"

definition GetSerializedSize_request :: "mojo_value list \<Rightarrow> u64" where
  "GetSerializedSize_request vs = of_nat sizeof_ArrayHeader + Align (of_nat (length vs) * of_nat sizeof_MojoHandle)"

definition GetSerializedSize_interface :: "mojo_value list \<Rightarrow> u64" where
  "GetSerializedSize_interface vs = of_nat sizeof_ArrayHeader + Align (of_nat (length vs) * of_nat sizeof_Interface_Data)"

definition GetSerializedSize_pointer :: "(mojo_value \<Rightarrow> u64) \<Rightarrow> mojo_value list \<Rightarrow> u64" where
  "GetSerializedSize_pointer item vs =
     fold (\<lambda>v size. if v \<noteq> NullV then size + item v else size) vs
       (of_nat sizeof_ArrayHeader + of_nat (length vs) * of_nat sizeof_StructPointer)"

definition GetSerializedSize_union :: "(mojo_value \<Rightarrow> u64) \<Rightarrow> mojo_value list \<Rightarrow> u64" where
  "GetSerializedSize_union item vs = fold (\<lambda>v size. size + item v) vs (of_nat sizeof_ArrayHeader)"

definition ArraySerializer_GetSerializedSize :: "wrapper \<Rightarrow> (mojo_value \<Rightarrow> u64) \<Rightarrow> mojo_value list \<Rightarrow> u64" where
  "ArraySerializer_GetSerializedSize E item vs =
     (case E of
        Pod n \<Rightarrow> GetSerializedSize_pod n vs
      | BoolW \<Rightarrow> GetSerializedSize_bool vs
      | ScopedHandle \<Rightarrow> GetSerializedSize_handle vs
      | InterfaceRequest \<Rightarrow> GetSerializedSize_request vs
      | InterfaceHandle \<Rightarrow> GetSerializedSize_interface vs
      | UnionW c \<Rightarrow> GetSerializedSize_union item vs
      | _ \<Rightarrow> GetSerializedSize_pointer item vs)"

lemmas array_size_defs = ArraySerializer_GetSerializedSize_def GetSerializedSize_pod_def GetSerializedSize_bool_def
  GetSerializedSize_handle_def GetSerializedSize_request_def GetSerializedSize_interface_def GetSerializedSize_pointer_def
  GetSerializedSize_union_def

text \<open>
  \<^verbatim>\<open>MapSerializer\<close>: the space of \<open>count\<close> elements in the array of keys or values, and that of one item. It
  has no specialisation for interfaces and interface requests, so that no map of them can be serialised.
\<close>

definition GetBaseArraySize :: "wrapper \<Rightarrow> u64 \<Rightarrow> u64" where
  "GetBaseArraySize E count =
     (case E of
        Pod n \<Rightarrow> Align (count * of_nat n)
      | BoolW \<Rightarrow> Align ((count + 7) div 8)
      | ScopedHandle \<Rightarrow> Align (count * of_nat sizeof_MojoHandle)
      | UnionW c \<Rightarrow> 0
      | _ \<Rightarrow> count * of_nat sizeof_StructPointer)"

definition GetItemSize :: "wrapper \<Rightarrow> (mojo_value \<Rightarrow> u64) \<Rightarrow> mojo_value \<Rightarrow> u64" where
  "GetItemSize E item v =
     (case E of
        Pod n \<Rightarrow> 0
      | BoolW \<Rightarrow> 0
      | ScopedHandle \<Rightarrow> 0
      | UnionW c \<Rightarrow> item v
      | StringW \<Rightarrow> item v
      | _ \<Rightarrow> if v \<noteq> NullV then item v else 0)"

definition Map_GetSerializedSize ::
  "wrapper \<Rightarrow> wrapper \<Rightarrow> (mojo_value \<Rightarrow> u64) \<Rightarrow> (mojo_value \<Rightarrow> u64) \<Rightarrow> mojo_value \<Rightarrow> u64"
where
  "Map_GetSerializedSize K V key_item value_item v =
     (case v of
        MapV kvs \<Rightarrow>
          let count = of_nat (length kvs);
              key_base_size = of_nat sizeof_ArrayHeader + GetBaseArraySize K count;
              value_base_size = of_nat sizeof_ArrayHeader + GetBaseArraySize V count;
              key_data_size = fold (\<lambda>(k, _) size. size + GetItemSize K key_item k) kvs 0;
              value_data_size = fold (\<lambda>(_, v) size. size + GetItemSize V value_item v) kvs 0 in
          of_nat sizeof_MojomMapLayout + key_base_size + key_data_size + value_base_size + value_data_size
      | _ \<Rightarrow> 0)"

definition String_GetSerializedSize :: "mojo_value \<Rightarrow> u64" where
  "String_GetSerializedSize v =
     (case v of
        StringV bs \<Rightarrow> Align (of_nat sizeof_ArrayHeader + of_nat (length bs))
      | _ \<Rightarrow> 0)"

definition Array_GetSerializedSize :: "wrapper \<Rightarrow> (mojo_value \<Rightarrow> u64) \<Rightarrow> mojo_value \<Rightarrow> u64" where
  "Array_GetSerializedSize E item v =
     (case v of
        ArrayV vs \<Rightarrow> ArraySerializer_GetSerializedSize E item vs
      | _ \<Rightarrow> 0)"

text \<open>\<^verbatim>\<open>GetSerializedSize\<close>, overloaded for the types that are stored behind a pointer and for unions.\<close>

primrec GetSerializedSize :: "wrapper \<Rightarrow> generated_serializers \<Rightarrow> mojo_value \<Rightarrow> u64" where
  "GetSerializedSize (Pod n) gen v = 0"
| "GetSerializedSize BoolW gen v = 0"
| "GetSerializedSize ScopedHandle gen v = 0"
| "GetSerializedSize InterfaceRequest gen v = 0"
| "GetSerializedSize InterfaceHandle gen v = 0"
| "GetSerializedSize (StructW c) gen v = Struct_GetSerializedSize gen c v"
| "GetSerializedSize StringW gen v = String_GetSerializedSize v"
| "GetSerializedSize (ArrayW E) gen v = Array_GetSerializedSize E (GetSerializedSize E gen) v"
| "GetSerializedSize (MapW K V) gen v =
     Map_GetSerializedSize K V (GetSerializedSize K gen) (GetSerializedSize V gen) v"
| "GetSerializedSize (UnionW c) gen v = Union_GetSerializedSize gen c v"

section \<open>Serialisation\<close>

text \<open>
  A check of the validation parameters that only debug builds make; the parameters are behind a pointer.
\<close>

definition DCHECK_params :: "bool \<Rightarrow> ArrayValidateParams option \<Rightarrow> (ArrayValidateParams \<Rightarrow> bool) \<Rightarrow> 'a res \<Rightarrow> 'a res" where
  "DCHECK_params dbg params cond k =
     (if dbg then case params of None \<Rightarrow> Inl BadAccess | Some p \<Rightarrow> assertC (cond p) k else k)"

definition deref :: "'p option \<Rightarrow> ('p \<Rightarrow> 'a res) \<Rightarrow> 'a res" where
  "deref p k = (case p of None \<Rightarrow> Inl BadAccess | Some x \<Rightarrow> k x)"

text \<open>The element loops: they end at the first error, with the rest of the elements untouched.\<close>

fun serialize_loop ::
  "(nat \<Rightarrow> mojo_value \<Rightarrow> buffer_state \<Rightarrow> ((ValidationError \<times> mojo_value) \<times> buffer_state) res) \<Rightarrow>
   nat \<Rightarrow> mojo_value list \<Rightarrow> buffer_state \<Rightarrow> ((ValidationError \<times> mojo_value list) \<times> buffer_state) res"
where
  "serialize_loop f i [] st = Inr ((NONE, []), st)"
| "serialize_loop f i (v # vs) st =
     bindR (f i v st) (\<lambda>((retval, v'), st).
     if retval \<noteq> NONE then Inr ((retval, v' # vs), st)
     else bindR (serialize_loop f (Suc i) vs st) (\<lambda>((retval, vs'), st).
     Inr ((retval, v' # vs'), st)))"

definition pod_bytes :: "mojo_value \<Rightarrow> u8 list" where
  "pod_bytes v = (case v of PodV bs \<Rightarrow> bs | _ \<Rightarrow> [])"

definition bool_of :: "mojo_value \<Rightarrow> bool" where
  "bool_of v = (case v of BoolV b \<Rightarrow> b | _ \<Rightarrow> False)"

definition handle_of :: "mojo_value \<Rightarrow> MojoHandle" where
  "handle_of v = (case v of HandleV h \<Rightarrow> h | InterfaceV h _ \<Rightarrow> h | _ \<Rightarrow> MOJO_HANDLE_INVALID)"

definition version_of :: "mojo_value \<Rightarrow> u32" where
  "version_of v = (case v of InterfaceV _ n \<Rightarrow> n | _ \<Rightarrow> 0)"

text \<open>
  Numbers are copied in one piece from an array, and one by one from the keys or values of a map.
\<close>

definition pod_params :: "ArrayValidateParams \<Rightarrow> bool" where
  "pod_params p \<longleftrightarrow> \<not> element_is_nullable p \<and> element_validate_params p = None"

definition SerializeElements_memcpy ::
  "bool \<Rightarrow> mojo_value list \<Rightarrow> addr \<Rightarrow> ArrayValidateParams option \<Rightarrow> buffer_state \<Rightarrow>
   ((ValidationError \<times> mojo_value list) \<times> buffer_state) res"
where
  "SerializeElements_memcpy dbg vs output params st =
     DCHECK_params dbg params pod_params (
     if vs = [] then Inr ((NONE, vs), st)
     else bindR (store_bytes (fst st) (array_storage output) (concat (map pod_bytes vs))) (\<lambda>m.
          Inr ((NONE, vs), m, snd st)))"

definition SerializeElements_pod ::
  "bool \<Rightarrow> nat \<Rightarrow> mojo_value list \<Rightarrow> addr \<Rightarrow> ArrayValidateParams option \<Rightarrow> buffer_state \<Rightarrow>
   ((ValidationError \<times> mojo_value list) \<times> buffer_state) res"
where
  "SerializeElements_pod dbg n vs output params st =
     DCHECK_params dbg params pod_params (
     serialize_loop (\<lambda>i v st.
       bindR (Array_Data_at dbg (Primitive n) (fst st) output i) (\<lambda>a.
       bindR (store_bytes (fst st) a (pod_bytes v)) (\<lambda>m. Inr ((NONE, v), m, snd st)))) 0 vs st)"

definition SerializeElements_bool ::
  "bool \<Rightarrow> mojo_value list \<Rightarrow> addr \<Rightarrow> ArrayValidateParams option \<Rightarrow> buffer_state \<Rightarrow>
   ((ValidationError \<times> mojo_value list) \<times> buffer_state) res"
where
  "SerializeElements_bool dbg vs output params st =
     DCHECK_params dbg params pod_params (
     serialize_loop (\<lambda>i v st.
       bindR (Bool_at dbg (fst st) output i) (\<lambda>r.
       bindR (BitRef_set (fst st) r (bool_of v)) (\<lambda>m. Inr ((NONE, v), m, snd st)))) 0 vs st)"

text \<open>
  Handles are released into the array. Interface requests give up their message pipe in the same way;
  an interface also has a version.
\<close>

type_synonym element_serializer =
  "nat \<Rightarrow> mojo_value \<Rightarrow> buffer_state \<Rightarrow> ((ValidationError \<times> mojo_value) \<times> buffer_state) res"

definition SerializeElement_handle :: "bool \<Rightarrow> ArrayValidateParams option \<Rightarrow> addr \<Rightarrow> element_serializer" where
  "SerializeElement_handle dbg params output i v st =
     bindR (Array_Data_at dbg HandleType (fst st) output i) (\<lambda>a.
     bindR (store32 (fst st) a (handle_of v)) (\<lambda>m.
     deref params (\<lambda>p.
     Inr ((if \<not> element_is_nullable p \<and> handle_of v = MOJO_HANDLE_INVALID
           then UNEXPECTED_INVALID_HANDLE else NONE, HandleV MOJO_HANDLE_INVALID), m, snd st))))"

definition SerializeElements_handle ::
  "bool \<Rightarrow> mojo_value list \<Rightarrow> addr \<Rightarrow> ArrayValidateParams option \<Rightarrow> buffer_state \<Rightarrow>
   ((ValidationError \<times> mojo_value list) \<times> buffer_state) res"
where
  "SerializeElements_handle dbg vs output params st =
     DCHECK_params dbg params (\<lambda>p. element_validate_params p = None) (
     serialize_loop (SerializeElement_handle dbg params output) 0 vs st)"

definition SerializeElements_request ::
  "bool \<Rightarrow> mojo_value list \<Rightarrow> addr \<Rightarrow> ArrayValidateParams option \<Rightarrow> buffer_state \<Rightarrow>
   ((ValidationError \<times> mojo_value list) \<times> buffer_state) res"
where
  "SerializeElements_request = SerializeElements_handle"

definition InterfaceHandleToData :: "mem \<Rightarrow> mojo_value \<Rightarrow> addr \<Rightarrow> mem res" where
  "InterfaceHandleToData m v output =
     bindR (store32 m output (handle_of v)) (\<lambda>m. store32 m (output + 4) (version_of v))"

definition SerializeElement_interface :: "bool \<Rightarrow> ArrayValidateParams option \<Rightarrow> addr \<Rightarrow> element_serializer" where
  "SerializeElement_interface dbg params output i v st =
     bindR (Array_Data_at dbg InterfaceType (fst st) output i) (\<lambda>a.
     bindR (InterfaceHandleToData (fst st) v a) (\<lambda>m.
     deref params (\<lambda>p.
     Inr ((if \<not> element_is_nullable p \<and> handle_of v = MOJO_HANDLE_INVALID
           then UNEXPECTED_INVALID_HANDLE else NONE, InterfaceV MOJO_HANDLE_INVALID 0), m, snd st))))"

definition SerializeElements_interface ::
  "bool \<Rightarrow> mojo_value list \<Rightarrow> addr \<Rightarrow> ArrayValidateParams option \<Rightarrow> buffer_state \<Rightarrow>
   ((ValidationError \<times> mojo_value list) \<times> buffer_state) res"
where
  "SerializeElements_interface dbg vs output params st =
     DCHECK_params dbg params (\<lambda>p. element_validate_params p = None) (
     serialize_loop (SerializeElement_interface dbg params output) 0 vs st)"

text \<open>
  Elements behind a pointer, with the \<^verbatim>\<open>SerializeCaller\<close> of their type: the result is stored before it
  is checked.
\<close>

type_synonym serializer =
  "mojo_value \<Rightarrow> ArrayValidateParams option \<Rightarrow> buffer_state \<Rightarrow> ((ValidationError \<times> addr \<times> mojo_value) \<times> buffer_state) res"

definition SerializeElement_pointer ::
  "bool \<Rightarrow> array_type \<Rightarrow> serializer \<Rightarrow> ArrayValidateParams option \<Rightarrow> addr \<Rightarrow> element_serializer"
where
  "SerializeElement_pointer dbg T Run params output i v st =
     deref params (\<lambda>p.
     bindR (Run v (element_validate_params p) st) (\<lambda>((retval, element, v'), st).
     if retval \<noteq> NONE then Inr ((retval, v'), st)
     else
     bindR (Array_Data_at dbg T (fst st) output i) (\<lambda>a.
     bindR (store64 (fst st) a (of_nat element)) (\<lambda>m.
     Inr ((if \<not> element_is_nullable p \<and> element = 0 then UNEXPECTED_NULL_POINTER else NONE, v'), m, snd st)))))"

definition SerializeElements_pointer ::
  "bool \<Rightarrow> array_type \<Rightarrow> serializer \<Rightarrow> mojo_value list \<Rightarrow> addr \<Rightarrow> ArrayValidateParams option \<Rightarrow> buffer_state \<Rightarrow>
   ((ValidationError \<times> mojo_value list) \<times> buffer_state) res"
where
  "SerializeElements_pointer dbg T Run vs output params st =
     serialize_loop (SerializeElement_pointer dbg T Run params output) 0 vs st"

definition SerializeElements_union ::
  "bool \<Rightarrow> generated_serializers \<Rightarrow> nat \<Rightarrow> mojo_value list \<Rightarrow> addr \<Rightarrow> ArrayValidateParams option \<Rightarrow> buffer_state \<Rightarrow>
   ((ValidationError \<times> mojo_value list) \<times> buffer_state) res"
where
  "SerializeElements_union dbg gen c vs output params st =
     serialize_loop (\<lambda>i v st.
       let result = ToRef (UnionType c) (array_storage output) i in
       bindR (Union_Serialize gen c v result st) (\<lambda>((retval, v'), st).
       if retval \<noteq> NONE then Inr ((retval, v'), st)
       else
       deref params (\<lambda>p.
       bindR (if \<not> element_is_nullable p
              then bindR (Array_Data_at dbg (UnionType c) (fst st) output i) (Union_null gen c (fst st))
              else Inr False) (\<lambda>bad.
       Inr ((if bad then UNEXPECTED_NULL_POINTER else NONE, v'), st))))) 0 vs st"

definition SerializeString :: "bool \<Rightarrow> mojo_value \<Rightarrow> buffer_state \<Rightarrow> (addr \<times> buffer_state) res" where
  "SerializeString dbg v st =
     (case v of
        StringV bs \<Rightarrow>
          bindR (Array_Data_New dbg (Primitive 1) (of_nat (length bs)) st) (\<lambda>(result, st).
          if result \<noteq> 0
          then bindR (store_bytes (fst st) (array_storage result) bs) (\<lambda>m. Inr (result, m, snd st))
          else Inr (result, st))
      | _ \<Rightarrow> Inr (0, st))"

definition string_params :: "ArrayValidateParams option \<Rightarrow> bool" where
  "string_params params \<longleftrightarrow> (case params of
     None \<Rightarrow> False
   | Some p \<Rightarrow> element_validate_params p = None \<and> \<not> element_is_nullable p \<and> expected_num_elements p = 0)"

definition SerializeCaller_Run_string :: "bool \<Rightarrow> serializer" where
  "SerializeCaller_Run_string dbg v params st =
     MOJO_DCHECK dbg (string_params params) (
     bindR (SerializeString dbg v st) (\<lambda>(output, st). Inr ((NONE, output, v), st)))"

definition SerializeCaller_Run_struct :: "bool \<Rightarrow> generated_serializers \<Rightarrow> nat \<Rightarrow> serializer" where
  "SerializeCaller_Run_struct dbg gen c v params st =
     MOJO_DCHECK dbg (params = None) (Struct_Serialize gen c v st)"

text \<open>The elements come from an array or from a map.\<close>

datatype elements_from = ArrayIterator | MapIterator

type_synonym elements_serializer =
  "elements_from \<Rightarrow> mojo_value list \<Rightarrow> addr \<Rightarrow> ArrayValidateParams option \<Rightarrow> buffer_state \<Rightarrow>
   ((ValidationError \<times> mojo_value list) \<times> buffer_state) res"

definition SerializeArray :: "bool \<Rightarrow> wrapper \<Rightarrow> elements_serializer \<Rightarrow> serializer" where
  "SerializeArray dbg E SerializeElements v params st =
     (case v of
        ArrayV vs \<Rightarrow>
          deref params (\<lambda>p.
          if expected_num_elements p \<noteq> 0 \<and> of_nat (length vs) \<noteq> (ucast (expected_num_elements p) :: u64)
          then Inr ((UNEXPECTED_ARRAY_HEADER, 0, v), st)
          else
          bindR (Array_Data_New dbg (DataType E) (of_nat (length vs)) st) (\<lambda>(result, st).
          bindR (SerializeElements ArrayIterator vs result params st) (\<lambda>((retval, vs'), st).
          Inr ((retval, if retval \<noteq> NONE then 0 else result, ArrayV vs'), st))))
      | _ \<Rightarrow> Inr ((NONE, 0, v), st))"

definition SerializeMap ::
  "bool \<Rightarrow> wrapper \<Rightarrow> wrapper \<Rightarrow> elements_serializer \<Rightarrow> elements_serializer \<Rightarrow> serializer"
where
  "SerializeMap dbg K V SerializeKeys SerializeValues v value_params st =
     (case v of
        MapV kvs \<Rightarrow>
          let num = of_nat (length kvs); ks = map fst kvs in
          bindR (Map_Data_New dbg st) (\<lambda>(result, st).
          bindR (Array_Data_New dbg (DataType K) num st) (\<lambda>(keys, st).
          bindR (store64 (fst st) (result + 8) (of_nat keys)) (\<lambda>m.
          bindR (SerializeKeys MapIterator ks keys (Some (MapKeyValidateParamsFactory_Get (DataType K))) (m, snd st))
            (\<lambda>((retval, ks'), st).
          if retval \<noteq> NONE then Inr ((retval, 0, v), st)
          else
          bindR (Array_Data_New dbg (DataType V) num st) (\<lambda>(values, st).
          bindR (store64 (fst st) (result + 16) (of_nat values)) (\<lambda>m.
          bindR (SerializeValues MapIterator (map snd kvs) values value_params (m, snd st))
            (\<lambda>((retval, vs'), st).
          Inr ((retval, if retval \<noteq> NONE then 0 else result, MapV (zip ks vs')), st))))))))
      | _ \<Rightarrow> Inr ((NONE, 0, v), st))"

primrec SerializeElements :: "wrapper \<Rightarrow> bool \<Rightarrow> generated_serializers \<Rightarrow> elements_serializer" where
  "SerializeElements (Pod n) dbg gen it =
     (case it of ArrayIterator \<Rightarrow> SerializeElements_memcpy dbg | MapIterator \<Rightarrow> SerializeElements_pod dbg n)"
| "SerializeElements BoolW dbg gen it = SerializeElements_bool dbg"
| "SerializeElements ScopedHandle dbg gen it = SerializeElements_handle dbg"
| "SerializeElements InterfaceRequest dbg gen it = SerializeElements_request dbg"
| "SerializeElements InterfaceHandle dbg gen it = SerializeElements_interface dbg"
| "SerializeElements (StructW c) dbg gen it =
     SerializeElements_pointer dbg (StructPtr c) (SerializeCaller_Run_struct dbg gen c)"
| "SerializeElements StringW dbg gen it =
     SerializeElements_pointer dbg (ArrayPtr (Primitive 1)) (SerializeCaller_Run_string dbg)"
| "SerializeElements (ArrayW E) dbg gen it =
     SerializeElements_pointer dbg (ArrayPtr (DataType E)) (SerializeArray dbg E (SerializeElements E dbg gen))"
| "SerializeElements (MapW K V) dbg gen it =
     SerializeElements_pointer dbg (MapPtr (DataType K) (DataType V))
       (SerializeMap dbg K V (SerializeElements K dbg gen) (SerializeElements V dbg gen))"
| "SerializeElements (UnionW c) dbg gen it = SerializeElements_union dbg gen c"

section \<open>Deserialisation\<close>

text \<open>The loops read the number of elements in every round.\<close>

function deserialize_loop ::
  "addr \<Rightarrow> (nat \<Rightarrow> mem \<Rightarrow> (mojo_value \<times> mem) res) \<Rightarrow> nat \<Rightarrow> mem \<Rightarrow> (mojo_value list \<times> mem) res"
where
  "deserialize_loop input f i m =
     bindR (array_num_elements m input) (\<lambda>num_elements.
     if i < unat num_elements
     then bindR (f i m) (\<lambda>(v, m). bindR (deserialize_loop input f (Suc i) m) (\<lambda>(vs, m). Inr (v # vs, m)))
     else Inr ([], m))"
  by pat_completeness auto
termination
  by (relation "measure (\<lambda>(_, _, i, _). 4294967296 - i)") (auto intro: u32_count_up)

declare deserialize_loop.simps [simp del]

fun chunks :: "nat \<Rightarrow> nat \<Rightarrow> 'a list \<Rightarrow> 'a list list" where
  "chunks n 0 bs = []"
| "chunks n (Suc k) bs = take n bs # chunks n k (drop n bs)"

definition DeserializeElements_pod :: "nat \<Rightarrow> mem \<Rightarrow> addr \<Rightarrow> (mojo_value list \<times> mem) res" where
  "DeserializeElements_pod n m input =
     bindR (array_num_elements m input) (\<lambda>size.
     if size \<noteq> 0
     then bindR (load_bytes m (array_storage input) (unat size * n)) (\<lambda>bs.
          Inr (map PodV (chunks n (unat size) bs), m))
     else Inr ([], m))"

definition DeserializeElements_bool :: "bool \<Rightarrow> mem \<Rightarrow> addr \<Rightarrow> (mojo_value list \<times> mem) res" where
  "DeserializeElements_bool dbg m input =
     deserialize_loop input (\<lambda>i m.
       bindR (Bool_at dbg m input i) (\<lambda>r.
       bindR (BitRef_get m r) (\<lambda>b. Inr (BoolV b, m)))) 0 m"

definition FetchAndReset :: "mem \<Rightarrow> addr \<Rightarrow> (MojoHandle \<times> mem) res" where
  "FetchAndReset m a =
     bindR (load32 m a) (\<lambda>h. bindR (store32 m a MOJO_HANDLE_INVALID) (\<lambda>m. Inr (h, m)))"

definition DeserializeElement_handle :: "bool \<Rightarrow> addr \<Rightarrow> nat \<Rightarrow> mem \<Rightarrow> (mojo_value \<times> mem) res" where
  "DeserializeElement_handle dbg input i m =
     bindR (Array_Data_at dbg HandleType m input i) (\<lambda>a.
     bindR (FetchAndReset m a) (\<lambda>(h, m). Inr (HandleV h, m)))"

definition DeserializeElements_handle :: "bool \<Rightarrow> mem \<Rightarrow> addr \<Rightarrow> (mojo_value list \<times> mem) res" where
  "DeserializeElements_handle dbg m input = deserialize_loop input (DeserializeElement_handle dbg input) 0 m"

definition DeserializeElements_request :: "bool \<Rightarrow> mem \<Rightarrow> addr \<Rightarrow> (mojo_value list \<times> mem) res" where
  "DeserializeElements_request = DeserializeElements_handle"

definition InterfaceDataToHandle :: "mem \<Rightarrow> addr \<Rightarrow> (mojo_value \<times> mem) res" where
  "InterfaceDataToHandle m input =
     bindR (FetchAndReset m input) (\<lambda>(h, m).
     bindR (load32 m (input + 4)) (\<lambda>version. Inr (InterfaceV h version, m)))"

definition DeserializeElement_interface :: "bool \<Rightarrow> addr \<Rightarrow> nat \<Rightarrow> mem \<Rightarrow> (mojo_value \<times> mem) res" where
  "DeserializeElement_interface dbg input i m =
     bindR (Array_Data_at dbg InterfaceType m input i) (InterfaceDataToHandle m)"

definition DeserializeElements_interface :: "bool \<Rightarrow> mem \<Rightarrow> addr \<Rightarrow> (mojo_value list \<times> mem) res" where
  "DeserializeElements_interface dbg m input = deserialize_loop input (DeserializeElement_interface dbg input) 0 m"

definition DeserializeElement_pointer ::
  "bool \<Rightarrow> array_type \<Rightarrow> (mem \<Rightarrow> addr \<Rightarrow> (mojo_value \<times> mem) res) \<Rightarrow> addr \<Rightarrow> nat \<Rightarrow> mem \<Rightarrow> (mojo_value \<times> mem) res"
where
  "DeserializeElement_pointer dbg T Run input i m =
     bindR (Array_Data_at dbg T m input i) (\<lambda>a. bindR (pointer_ptr m a) (Run m))"

definition DeserializeElements_pointer ::
  "bool \<Rightarrow> array_type \<Rightarrow> (mem \<Rightarrow> addr \<Rightarrow> (mojo_value \<times> mem) res) \<Rightarrow> mem \<Rightarrow> addr \<Rightarrow> (mojo_value list \<times> mem) res"
where
  "DeserializeElements_pointer dbg T Run m input =
     deserialize_loop input (DeserializeElement_pointer dbg T Run input) 0 m"

definition DeserializeElements_union ::
  "bool \<Rightarrow> generated_serializers \<Rightarrow> nat \<Rightarrow> mem \<Rightarrow> addr \<Rightarrow> (mojo_value list \<times> mem) res"
where
  "DeserializeElements_union dbg gen c m input =
     deserialize_loop input (\<lambda>i m.
       bindR (Array_Data_at dbg (UnionType c) m input i) (\<lambda>elem.
       bindR (Union_null gen c m elem) (\<lambda>null.
       if null then Inr (NullV, m) else Union_Deserialize gen c m elem))) 0 m"

definition String_Deserialize :: "mem \<Rightarrow> addr \<Rightarrow> (mojo_value \<times> mem) res" where
  "String_Deserialize m input =
     (if input \<noteq> 0
      then bindR (array_num_elements m input) (\<lambda>size.
           bindR (load_bytes m (array_storage input) (unat size)) (\<lambda>bs. Inr (StringV bs, m)))
      else Inr (NullV, m))"

definition DeserializeCaller_Run_struct :: "generated_serializers \<Rightarrow> nat \<Rightarrow> mem \<Rightarrow> addr \<Rightarrow> (mojo_value \<times> mem) res" where
  "DeserializeCaller_Run_struct gen c m input =
     (if input \<noteq> 0 then Struct_Deserialize gen c m input else Inr (NullV, m))"

definition Array_Deserialize ::
  "(mem \<Rightarrow> addr \<Rightarrow> (mojo_value list \<times> mem) res) \<Rightarrow> mem \<Rightarrow> addr \<Rightarrow> (mojo_value \<times> mem) res"
where
  "Array_Deserialize DeserializeElements m input =
     (if input \<noteq> 0 then bindR (DeserializeElements m input) (\<lambda>(vs, m). Inr (ArrayV vs, m))
      else Inr (NullV, m))"

text \<open>
  \<^verbatim>\<open>std::map::insert\<close> and the constructor of \<^verbatim>\<open>Map\<close> from arrays of keys and values, which are read
  with \<^verbatim>\<open>std::vector::at\<close>.
\<close>

fun map_insert_by :: "('k \<Rightarrow> 'k \<Rightarrow> bool) \<Rightarrow> 'k \<Rightarrow> 'v \<Rightarrow> ('k \<times> 'v) list \<Rightarrow> ('k \<times> 'v) list" where
  "map_insert_by lt k v [] = [(k, v)]"
| "map_insert_by lt k v ((k', v') # kvs) =
     (if lt k k' then (k, v) # (k', v') # kvs
      else if lt k' k then (k', v') # map_insert_by lt k v kvs
      else (k', v') # kvs)"

definition Map_new :: "bool \<Rightarrow> (mojo_value \<Rightarrow> mojo_value \<Rightarrow> bool) \<Rightarrow> mojo_value list \<Rightarrow> mojo_value list \<Rightarrow> mojo_value res" where
  "Map_new dbg lt keys values =
     MOJO_DCHECK dbg (length keys = length values) (
     assertC (length keys \<le> length values) (
     Inr (MapV (fold (\<lambda>(k, v). map_insert_by lt k v) (zip keys values) []))))"

definition elements_or_empty :: "mojo_value \<Rightarrow> mojo_value list" where
  "elements_or_empty v = (case v of ArrayV vs \<Rightarrow> vs | _ \<Rightarrow> [])"

definition Map_Deserialize ::
  "bool \<Rightarrow> (mojo_value \<Rightarrow> mojo_value \<Rightarrow> bool) \<Rightarrow> (mem \<Rightarrow> addr \<Rightarrow> (mojo_value list \<times> mem) res) \<Rightarrow>
   (mem \<Rightarrow> addr \<Rightarrow> (mojo_value list \<times> mem) res) \<Rightarrow> mem \<Rightarrow> addr \<Rightarrow> (mojo_value \<times> mem) res"
where
  "Map_Deserialize dbg lt DeserializeKeys DeserializeValues m input =
     (if input \<noteq> 0
      then bindR (pointer_ptr m (input + 8)) (\<lambda>keys_ptr.
           bindR (Array_Deserialize DeserializeKeys m keys_ptr) (\<lambda>(keys, m).
           bindR (pointer_ptr m (input + 16)) (\<lambda>values_ptr.
           bindR (Array_Deserialize DeserializeValues m values_ptr) (\<lambda>(values, m).
           bindR (Map_new dbg lt (elements_or_empty keys) (elements_or_empty values)) (\<lambda>v. Inr (v, m))))))
      else Inr (NullV, m))"

primrec DeserializeElements ::
  "wrapper \<Rightarrow> bool \<Rightarrow> generated_serializers \<Rightarrow> mem \<Rightarrow> addr \<Rightarrow> (mojo_value list \<times> mem) res"
where
  "DeserializeElements (Pod n) dbg gen = DeserializeElements_pod n"
| "DeserializeElements BoolW dbg gen = DeserializeElements_bool dbg"
| "DeserializeElements ScopedHandle dbg gen = DeserializeElements_handle dbg"
| "DeserializeElements InterfaceRequest dbg gen = DeserializeElements_request dbg"
| "DeserializeElements InterfaceHandle dbg gen = DeserializeElements_interface dbg"
| "DeserializeElements (StructW c) dbg gen =
     DeserializeElements_pointer dbg (StructPtr c) (DeserializeCaller_Run_struct gen c)"
| "DeserializeElements StringW dbg gen =
     DeserializeElements_pointer dbg (ArrayPtr (Primitive 1)) String_Deserialize"
| "DeserializeElements (ArrayW E) dbg gen =
     DeserializeElements_pointer dbg (ArrayPtr (DataType E)) (Array_Deserialize (DeserializeElements E dbg gen))"
| "DeserializeElements (MapW K V) dbg gen =
     DeserializeElements_pointer dbg (MapPtr (DataType K) (DataType V))
       (Map_Deserialize dbg (Key_less gen K) (DeserializeElements K dbg gen) (DeserializeElements V dbg gen))"
| "DeserializeElements (UnionW c) dbg gen = DeserializeElements_union dbg gen c"

end
