(* ===== verification/Cpp_SerializationCodec.thy ===== *)
theory Cpp_SerializationCodec
  imports Cpp_Serialization Cpp_RoundTrip Cpp_BoolArray Cpp_Framing
begin

text \<open>
  The contract between the element serialisers and the array, string and map serialisers of the C++
  bindings: what is written, where, and that it can be read back. It is stated as three locales, for
  one element of an array, for all elements of an array and for an object behind a pointer, and every
  serialiser of \<open>Cpp_Serialization\<close> for numbers, bools, handles, interfaces, strings and
  structs is an interpretation.
\<close>

section \<open>Room in a buffer\<close>

definition top_of :: "FixedBuffer \<Rightarrow> addr" where
  "top_of b = fb_ptr b + unat (fb_cursor b)"

definition advance :: "FixedBuffer \<Rightarrow> nat \<Rightarrow> FixedBuffer" where
  "advance b n = b\<lparr>fb_cursor := fb_cursor b + of_nat n\<rparr>"

definition span :: "FixedBuffer \<Rightarrow> nat \<Rightarrow> addr set" where
  "span b n = {top_of b..<top_of b + n}"

text \<open>The next \<open>n\<close> bytes of the buffer are free, mapped and below the end of the address space.\<close>

definition room :: "mem \<Rightarrow> FixedBuffer \<Rightarrow> nat \<Rightarrow> bool" where
  "room m b n \<longleftrightarrow> fb_ptr b \<noteq> 0 \<and> 8 dvd top_of b \<and> unat (fb_cursor b) + n \<le> unat (fb_size b) \<and>
     top_of b + n \<le> 18446744073709551615 \<and> mapped m (top_of b) n"

lemma advance_advance [simp]: "advance (advance b n) k = advance b (n + k)"
  by (simp add: advance_def add.assoc)

lemma advance_0 [simp]: "advance b 0 = b"
  by (simp add: advance_def)

lemma span_0 [simp]: "span b 0 = {}"
  by (simp add: span_def)

lemma top_of_advance: "unat (fb_cursor b) + n \<le> unat (fb_size b) \<Longrightarrow> top_of (advance b n) = top_of b + n"
  using unat_u64_bound [of "fb_size b"]
  by (simp add: top_of_def advance_def unat_word_ariths(1) unat_of_nat)

lemma room_advance:
  assumes "room m b (n + k)" and "8 dvd n" and "dom m' = dom m"
  shows "room m' (advance b n) k" and "top_of (advance b n) = top_of b + n"
    and "span b (n + k) = span b n \<union> span (advance b n) k"
proof -
  have le: "unat (fb_cursor b) + n \<le> unat (fb_size b)" using assms(1) by (simp add: room_def)
  note top = top_of_advance [OF le]
  have "unat (fb_cursor b + of_nat n) = unat (fb_cursor b) + n"
    using le unat_u64_bound [of "fb_size b"] by (simp add: unat_word_ariths(1) unat_of_nat)
  then show "room m' (advance b n) k"
    using assms top mapped_sub [of m "top_of b" "n + k" "top_of b + n" k] mapped_dom_cong [OF assms(3)]
    by (simp add: room_def advance_def)
  show "top_of (advance b n) = top_of b + n" by (rule top)
  show "span b (n + k) = span b n \<union> span (advance b n) k" by (auto simp: span_def top)
qed

lemma room_less: "room m b n \<Longrightarrow> k \<le> n \<Longrightarrow> room m b k"
  by (auto simp: room_def intro: mapped_sub)

section \<open>Frames and stored values\<close>

definition writes_only :: "addr set \<Rightarrow> mem \<Rightarrow> mem \<Rightarrow> bool" where
  "writes_only S m m' \<longleftrightarrow> dom m' = dom m \<and> same_on (- S) m m'"

lemma writes_only_refl [simp]: "writes_only S m m"
  by (simp add: writes_only_def)

lemma writes_only_trans: "writes_only S m m1 \<Longrightarrow> writes_only S' m1 m2 \<Longrightarrow> writes_only (S \<union> S') m m2"
  by (simp add: writes_only_def same_on_def)

lemma writes_only_mono: "writes_only S m m' \<Longrightarrow> S \<subseteq> S' \<Longrightarrow> writes_only S' m m'"
  by (auto simp: writes_only_def same_on_def)

lemma writes_only_same: "writes_only S m m' \<Longrightarrow> T \<inter> S = {} \<Longrightarrow> same_on T m m'"
  by (auto simp: writes_only_def same_on_def)

lemma writes_only_mapped: "writes_only S m m' \<Longrightarrow> mapped m' a n \<longleftrightarrow> mapped m a n"
  by (rule mapped_dom_cong) (simp add: writes_only_def)

lemma writes_only_poke: "mapped m a (length bs) \<Longrightarrow> {a..<a + length bs} \<subseteq> S \<Longrightarrow> writes_only S m (poke m a bs)"
  unfolding writes_only_def by (rule conjI [OF dom_poke]) (auto simp: same_on_def poke_def)

lemma writes_only_room: "writes_only S m m' \<Longrightarrow> room m' b n \<longleftrightarrow> room m b n"
  by (simp add: room_def writes_only_mapped)

text \<open>
  In every memory that is \<open>m\<close> on \<open>H\<close> and \<open>S\<close>, \<open>des\<close> reads the value \<open>v\<close>, and it writes to \<open>S\<close> only.
\<close>

definition stored :: "addr set \<Rightarrow> (mem \<Rightarrow> ('v \<times> mem) res) \<Rightarrow> mem \<Rightarrow> addr set \<Rightarrow> 'v \<Rightarrow> bool" where
  "stored H des m S v \<longleftrightarrow>
     (\<forall>m'. same_on (H \<union> S) m m' \<longrightarrow> (\<exists>m''. des m' = Inr (v, m'') \<and> same_on (- S) m' m''))"

lemma storedD: "stored H des m S v \<Longrightarrow> same_on (H \<union> S) m m' \<Longrightarrow> \<exists>m''. des m' = Inr (v, m'') \<and> same_on (- S) m' m''"
  by (simp add: stored_def)

lemma stored_same: "stored H des m S v \<Longrightarrow> same_on (H \<union> S) m m1 \<Longrightarrow> stored H des m1 S v"
  unfolding stored_def by (meson same_on_trans)

lemma stored_mono:
  assumes "stored H des m S v" and "H \<union> S \<subseteq> H' \<union> S'" and "S \<subseteq> S'"
  shows "stored H' des m S' v"
  unfolding stored_def
proof (intro allI impI)
  fix m' assume "same_on (H' \<union> S') m m'"
  with assms(2) have "same_on (H \<union> S) m m'" unfolding same_on_def by blast
  then obtain m'' where "des m' = Inr (v, m'')" "same_on (- S) m' m''" using storedD [OF assms(1)] by blast
  moreover from this(2) assms(3) have "same_on (- S') m' m''" unfolding same_on_def by blast
  ultimately show "\<exists>m''. des m' = Inr (v, m'') \<and> same_on (- S') m' m''" by blast
qed

lemma stored_readI:
  "(\<And>m'. same_on (H \<union> S) m m' \<Longrightarrow> des m' = Inr (v, m')) \<Longrightarrow> stored H des m S v"
  by (auto simp: stored_def)

lemma stored_cong:
  assumes "stored H des m S v" and "\<And>m'. same_on (H \<union> S) m m' \<Longrightarrow> des' m' = des m'"
  shows "stored H des' m S v"
  using assms by (simp add: stored_def)

lemma stored_map: "stored H des m S v \<Longrightarrow> stored H (\<lambda>m. bindR (des m) (\<lambda>(v, m). Inr (f v, m))) m S (f v)"
  unfolding stored_def by fastforce

lemma stored_seq:
  assumes "stored H d1 m S1 v1" and "stored H d2 m S2 v2" and "S1 \<inter> (H \<union> S2) = {}"
  shows "stored H (\<lambda>m. bindR (d1 m) (\<lambda>(v, m). bindR (d2 m) (\<lambda>(w, m). Inr (f v w, m)))) m (S1 \<union> S2) (f v1 v2)"
  unfolding stored_def
proof (intro allI impI)
  fix m' assume same: "same_on (H \<union> (S1 \<union> S2)) m m'"
  then obtain m1 where d1: "d1 m' = Inr (v1, m1)" and o1: "same_on (- S1) m' m1"
    using storedD [OF assms(1), of m'] by auto
  have "same_on (H \<union> S2) m' m1" using o1 assms(3) by (auto simp: same_on_def)
  with same have "same_on (H \<union> S2) m m1" by (auto simp: same_on_def)
  then obtain m2 where d2: "d2 m1 = Inr (v2, m2)" and o2: "same_on (- S2) m1 m2"
    using storedD [OF assms(2)] by blast
  have "same_on (- (S1 \<union> S2)) m' m2" using o1 o2 by (simp add: same_on_def)
  with d1 d2 show "\<exists>m''. bindR (d1 m') (\<lambda>(v, m). bindR (d2 m) (\<lambda>(w, m). Inr (f v w, m))) = Inr (f v1 v2, m'') \<and>
      same_on (- (S1 \<union> S2)) m' m''"
    by simp
qed

text \<open>
  A serialiser run on \<open>m\<close> and \<open>b\<close> returned \<open>x\<close>, took the next \<open>k\<close> bytes of the buffer, wrote only there
  and to \<open>S\<close>, and left what \<open>des\<close> reads as \<open>v\<close>.
\<close>

definition emits ::
  "addr set \<Rightarrow> addr set \<Rightarrow> mem \<Rightarrow> FixedBuffer \<Rightarrow> nat \<Rightarrow> ('x \<times> buffer_state) res \<Rightarrow> 'x \<Rightarrow>
   (mem \<Rightarrow> ('v \<times> mem) res) \<Rightarrow> 'v \<Rightarrow> bool"
where
  "emits H S m b k r x des v \<longleftrightarrow>
     (\<exists>m'. r = Inr (x, m', advance b k) \<and> writes_only (S \<union> span b k) m m' \<and> stored H des m' (S \<union> span b k) v)"

lemma emitsI:
  "r = Inr (x, m', advance b k) \<Longrightarrow> writes_only (S \<union> span b k) m m' \<Longrightarrow> stored H des m' (S \<union> span b k) v \<Longrightarrow>
   emits H S m b k r x des v"
  unfolding emits_def by blast

lemma emitsE:
  assumes "emits H S m b k r x des v"
  obtains m' where "r = Inr (x, m', advance b k)" "writes_only (S \<union> span b k) m m'"
    "stored H des m' (S \<union> span b k) v"
  using assms unfolding emits_def by blast

text \<open>One serialiser after another.\<close>

lemma emits_seq:
  assumes "emits H S1 m b k1 r1 x1 d1 v1" and "room m b (k1 + k2)" and "8 dvd k1"
    and dis: "(S1 \<union> span b k1) \<inter> (H \<union> S2) = {}" "span (advance b k1) k2 \<inter> (H \<union> S1) = {}" "H \<inter> S2 = {}"
    and next1: "\<And>m1. writes_only (S1 \<union> span b k1) m m1 \<Longrightarrow> same_on H m m1 \<Longrightarrow> room m1 (advance b k1) k2 \<Longrightarrow>
      emits H S2 m1 (advance b k1) k2 (r2 m1) x2 d2 v2"
  obtains m1 m2 where "r1 = Inr (x1, m1, advance b k1)" "r2 m1 = Inr (x2, m2, advance b (k1 + k2))"
    "writes_only (S1 \<union> S2 \<union> span b (k1 + k2)) m m2" "same_on H m m2"
    "stored H (\<lambda>m. bindR (d1 m) (\<lambda>(v, m). bindR (d2 m) (\<lambda>(w, m). Inr (f v w, m)))) m2
      (S1 \<union> S2 \<union> span b (k1 + k2)) (f v1 v2)"
proof -
  from assms(1) obtain m1 where r1: "r1 = Inr (x1, m1, advance b k1)"
    and f1: "writes_only (S1 \<union> span b k1) m m1" and st1: "stored H d1 m1 (S1 \<union> span b k1) v1"
    by (rule emitsE)
  have "dom m1 = dom m" using f1 by (simp add: writes_only_def)
  note adv = room_advance [OF assms(2,3) this]
  have "same_on H m m1" by (rule writes_only_same [OF f1]) (use dis in blast)
  from next1 [OF f1 this adv(1)] obtain m2 where r2: "r2 m1 = Inr (x2, m2, advance b (k1 + k2))"
    and f2: "writes_only (S2 \<union> span (advance b k1) k2) m1 m2"
    and st2: "stored H d2 m2 (S2 \<union> span (advance b k1) k2) v2"
    by (rule emitsE) simp
  define S1' where "S1' = S1 \<union> span b k1"
  define S2' where "S2' = S2 \<union> span (advance b k1) k2"
  have S: "S1 \<union> S2 \<union> span b (k1 + k2) = S1' \<union> S2'" using adv(3) by (auto simp: S1'_def S2'_def)
  have "span b k1 \<inter> span (advance b k1) k2 = {}" by (auto simp: span_def adv(2))
  then have sep: "S1' \<inter> (H \<union> S2') = {}" "H \<inter> S2' = {}" using dis unfolding S1'_def S2'_def by blast+
  have "same_on (H \<union> S1') m1 m2" by (rule writes_only_same [OF f2 [folded S2'_def]]) (use sep in blast)
  from stored_seq [OF stored_same [OF st1 [folded S1'_def] this] st2 [folded S2'_def], of f] sep
  have st: "stored H (\<lambda>m. bindR (d1 m) (\<lambda>(v, m). bindR (d2 m) (\<lambda>(w, m). Inr (f v w, m)))) m2 (S1' \<union> S2') (f v1 v2)"
    by blast
  have fr: "writes_only (S1' \<union> S2') m m2" using writes_only_trans [OF f1 f2] by (simp add: S1'_def S2'_def)
  have "same_on H m m2" by (rule writes_only_same [OF fr]) (use sep in blast)
  with that r1 r2 fr st S show thesis by simp
qed

section \<open>Array headers and elements\<close>

definition header :: "mem \<Rightarrow> addr \<Rightarrow> nat \<Rightarrow> bool" where
  "header m a n \<longleftrightarrow> mapped m (a + 4) 4 \<and> unat (peek32 m (a + 4)) = n"

lemma header_num: "header m a n \<Longrightarrow> \<exists>w. array_num_elements m a = Inr w \<and> unat w = n"
  by (simp add: header_def array_num_elements_def load32_eq)

lemma header_same: "header m a n \<Longrightarrow> same_on {a..<a + 8} m m' \<Longrightarrow> header m' a n"
proof -
  assume "header m a n" "same_on {a..<a + 8} m m'"
  moreover from this(2) have "same_on {a + 4..<a + 4 + 4} m m'" by (auto simp: same_on_def)
  ultimately show ?thesis using same_on_peek(2) same_on_mapped by (simp add: header_def)
qed

lemma header_at:
  "header m a n \<Longrightarrow> i < n \<Longrightarrow> Array_Data_at dbg T m a i = Inr (ToRef T (array_storage a) i)"
  "header m a n \<Longrightarrow> i < n \<Longrightarrow> Bool_at dbg m a i = Inr (Bool_ToRef (array_storage a) i)"
  using header_num by (fastforce simp: Array_Data_at_def Bool_at_def)+

text \<open>The addresses of the elements from \<open>i\<close> to \<open>n\<close> of an array at \<open>a\<close> whose elements have \<open>s\<close> bytes.\<close>

definition elem_slots :: "addr \<Rightarrow> nat \<Rightarrow> nat \<Rightarrow> nat \<Rightarrow> addr set" where
  "elem_slots a s i n = {a + 8 + s * i..<a + 8 + s * n}"

lemma elem_slots_split: "i < n \<Longrightarrow> elem_slots a s i n = elem_slots a s i (Suc i) \<union> elem_slots a s (Suc i) n"
proof -
  assume "i < n"
  then have "s * Suc i \<le> s * n" by (simp del: mult_Suc_right)
  then show ?thesis by (auto simp: elem_slots_def)
qed

lemma elem_slots_disjoint:
  assumes "a + 8 + s * n \<le> top_of b" and "i < n"
  shows "elem_slots a s i (Suc i) \<inter> ({a..<a + 8} \<union> elem_slots a s (Suc i) n \<union> span b k) = {}"
    and "elem_slots a s (Suc i) n \<inter> ({a..<a + 8} \<union> span b k) = {}"
    and "span b k \<inter> {a..<a + 8} = {}"
proof -
  have "s * Suc i \<le> s * n" using assms(2) by (simp del: mult_Suc_right)
  then show "elem_slots a s i (Suc i) \<inter> ({a..<a + 8} \<union> elem_slots a s (Suc i) n \<union> span b k) = {}"
    "elem_slots a s (Suc i) n \<inter> ({a..<a + 8} \<union> span b k) = {}" "span b k \<inter> {a..<a + 8} = {}"
    using assms(1) by (auto simp: elem_slots_def span_def)
qed

lemma deserialize_loop_end: "header m a n \<Longrightarrow> n \<le> i \<Longrightarrow> deserialize_loop a des i m = Inr ([], m)"
  using header_num by (subst deserialize_loop.simps) fastforce

lemma deserialize_loop_step:
  "header m a n \<Longrightarrow> i < n \<Longrightarrow> deserialize_loop a des i m =
     bindR (des i m) (\<lambda>(v, m). bindR (deserialize_loop a des (Suc i) m) (\<lambda>(vs, m). Inr (v # vs, m)))"
  using header_num by (subst deserialize_loop.simps) fastforce

section \<open>The contracts\<close>

text \<open>
  All elements of an array at \<open>a\<close>, in \<open>bytes\<close> bytes after its header, of the values that \<open>okl\<close> admits. What the
  elements point to is put next in the buffer and has the size \<open>sz\<close>; \<open>rel\<close> is what is left of a
  value when its handles are taken out.
\<close>

locale elements_codec =
  fixes ser :: "mojo_value list \<Rightarrow> addr \<Rightarrow> buffer_state \<Rightarrow> ((ValidationError \<times> mojo_value list) \<times> buffer_state) res"
    and des :: "mem \<Rightarrow> addr \<Rightarrow> (mojo_value list \<times> mem) res"
    and bytes :: "nat \<Rightarrow> nat"
    and sz :: "mojo_value \<Rightarrow> nat" and rel :: "mojo_value \<Rightarrow> mojo_value" and okl :: "mojo_value list \<Rightarrow> bool"
  assumes sizes_aligned: "okl vs \<Longrightarrow> 8 dvd sum_list (map sz vs)"
    and elements: "\<lbrakk>okl vs; header m a (length vs); mapped m (a + 8) (bytes (length vs));
      room m b (sum_list (map sz vs)); a + 8 + bytes (length vs) \<le> top_of b\<rbrakk> \<Longrightarrow>
      emits {a..<a + 8} {a + 8..<a + 8 + bytes (length vs)} m b (sum_list (map sz vs))
        (ser vs a (m, b)) (NONE, map rel vs) (\<lambda>m. des m a) vs"

text \<open>An object behind a pointer, or a null pointer.\<close>

locale pointer_codec =
  fixes ser :: "mojo_value \<Rightarrow> buffer_state \<Rightarrow> ((ValidationError \<times> addr \<times> mojo_value) \<times> buffer_state) res"
    and des :: "mem \<Rightarrow> addr \<Rightarrow> (mojo_value \<times> mem) res"
    and sz :: "mojo_value \<Rightarrow> nat" and rel :: "mojo_value \<Rightarrow> mojo_value" and okv :: "mojo_value \<Rightarrow> bool"
  assumes size_aligned: "okv v \<Longrightarrow> 8 dvd sz v"
    and object: "\<lbrakk>okv v; room m b (sz v)\<rbrakk> \<Longrightarrow> \<exists>p. p < 18446744073709551616 \<and> (p = 0 \<longleftrightarrow> v = NullV) \<and>
      emits {} {} m b (sz v) (ser v (m, b)) (NONE, p, rel v) (\<lambda>m. des m p) v"

text \<open>
  One element of \<open>s\<close> bytes of an array of \<open>n\<close> elements at \<open>a\<close>: it is written to its slot, and what it points to
  is put next in the buffer. The loop over such elements meets the contract for all elements.
\<close>

locale element_codec =
  fixes ser :: "addr \<Rightarrow> element_serializer"
    and des :: "addr \<Rightarrow> nat \<Rightarrow> mem \<Rightarrow> (mojo_value \<times> mem) res"
    and s :: nat
    and sz :: "mojo_value \<Rightarrow> nat" and rel :: "mojo_value \<Rightarrow> mojo_value" and okv :: "mojo_value \<Rightarrow> bool"
  assumes size_aligned: "okv v \<Longrightarrow> 8 dvd sz v"
    and element: "\<lbrakk>okv v; i < n; header m a n; mapped m (a + 8) (s * n); room m b (sz v); a + 8 + s * n \<le> top_of b\<rbrakk> \<Longrightarrow>
      emits {a..<a + 8} (elem_slots a s i (Suc i)) m b (sz v) (ser a i v (m, b)) (NONE, rel v) (des a i) v"
begin

lemma loop:
  "\<lbrakk>list_all okv vs; i + length vs = n; header m a n; mapped m (a + 8) (s * n);
    room m b (sum_list (map sz vs)); a + 8 + s * n \<le> top_of b\<rbrakk> \<Longrightarrow>
   emits {a..<a + 8} (elem_slots a s i n) m b (sum_list (map sz vs))
     (serialize_loop (ser a) i vs (m, b)) (NONE, map rel vs) (deserialize_loop a (des a) i) vs"
proof (induction vs arbitrary: i m b)
  case Nil
  then have "deserialize_loop a (des a) i m' = Inr ([], m')" if "same_on {a..<a + 8} m m'" for m'
    using deserialize_loop_end [OF header_same [OF _ that]] by simp
  then show ?case by (intro emitsI [of _ _ m]) (auto intro!: stored_readI)
next
  case (Cons v vs)
  let ?k = "sz v" and ?K = "sum_list (map sz vs)" and ?H = "{a..<a + 8}"
  from Cons.prems have ok: "okv v" "list_all okv vs" and i: "i < n" "Suc i + length vs = n" by auto
  have room: "room m b (?k + ?K)" using Cons.prems by simp
  then have top: "top_of b \<le> top_of (advance b ?k)" by (simp add: room_def top_of_advance)
  have "emits ?H (elem_slots a s i (Suc i)) m b ?k (ser a i v (m, b)) (NONE, rel v) (des a i) v"
    by (rule element) (use ok i Cons.prems room_less [OF room, of ?k] in auto)
  then obtain m1 m2 where
    "ser a i v (m, b) = Inr ((NONE, rel v), m1, advance b ?k)"
    "serialize_loop (ser a) (Suc i) vs (m1, advance b ?k) = Inr ((NONE, map rel vs), m2, advance b (?k + ?K))"
    and fr: "writes_only (elem_slots a s i (Suc i) \<union> elem_slots a s (Suc i) n \<union> span b (?k + ?K)) m m2"
    and hdr: "same_on ?H m m2"
    and st: "stored ?H (\<lambda>m. bindR (des a i m) (\<lambda>(v, m). bindR (deserialize_loop a (des a) (Suc i) m)
      (\<lambda>(vs, m). Inr (v # vs, m)))) m2 (elem_slots a s i (Suc i) \<union> elem_slots a s (Suc i) n \<union> span b (?k + ?K)) (v # vs)"
  proof (rule emits_seq [OF _ room size_aligned [OF ok(1)], where ?S2.0 = "elem_slots a s (Suc i) n" and f = "(#)"])
    show "(elem_slots a s i (Suc i) \<union> span b ?k) \<inter> (?H \<union> elem_slots a s (Suc i) n) = {}"
      "span (advance b ?k) ?K \<inter> (?H \<union> elem_slots a s i (Suc i)) = {}" "?H \<inter> elem_slots a s (Suc i) n = {}"
      using elem_slots_disjoint [OF Cons.prems(6) i(1), of ?k]
        elem_slots_disjoint [OF le_trans [OF Cons.prems(6) top] i(1), of ?K] by blast+
    fix m1 assume "writes_only (elem_slots a s i (Suc i) \<union> span b ?k) m m1" "same_on ?H m m1" "room m1 (advance b ?k) ?K"
    then show "emits ?H (elem_slots a s (Suc i) n) m1 (advance b ?k) ?K (serialize_loop (ser a) (Suc i) vs (m1, advance b ?k))
        (NONE, map rel vs) (deserialize_loop a (des a) (Suc i)) vs"
      using Cons.prems ok i top by (intro Cons.IH) (simp_all add: header_same writes_only_mapped)
  qed
  have "stored ?H (deserialize_loop a (des a) i) m2 (elem_slots a s i n \<union> span b (?k + ?K)) (v # vs)"
    unfolding elem_slots_split [OF i(1)]
    by (rule stored_cong [OF st], rule deserialize_loop_step [OF _ i(1)],
        rule header_same [OF header_same [OF Cons.prems(3) hdr]]) simp
  with \<open>ser a i v _ = _\<close> \<open>serialize_loop _ _ _ _ = _\<close> fr show ?case
    by (intro emitsI [of _ _ m2]) (simp_all add: elem_slots_split [OF i(1)])
qed

end

sublocale element_codec \<subseteq> elements: elements_codec
  "\<lambda>vs a. serialize_loop (ser a) 0 vs" "\<lambda>m a. deserialize_loop a (des a) 0 m" "\<lambda>n. s * n" sz rel "list_all okv"
proof unfold_locales
  show "8 dvd sum_list (map sz vs)" if "list_all okv vs" for vs
    using that size_aligned by (induction vs) auto
  fix vs m a b
  assume "list_all okv vs" "header m a (length vs)" "mapped m (a + 8) (s * length vs)"
    "room m b (sum_list (map sz vs))" "a + 8 + s * length vs \<le> top_of b"
  then show "emits {a..<a + 8} {a + 8..<a + 8 + s * length vs} m b (sum_list (map sz vs))
      (serialize_loop (ser a) 0 vs (m, b)) (NONE, map rel vs) (deserialize_loop a (des a) 0) vs"
    using loop [of vs 0 "length vs" m a b] by (simp add: elem_slots_def)
qed

context element_codec
begin

lemma loop_codec:
  "elements_codec (\<lambda>vs a. serialize_loop (ser a) 0 vs) (\<lambda>m a. deserialize_loop a (des a) 0 m) (\<lambda>n. s * n) sz rel (list_all okv)"
  by unfold_locales

end

section \<open>Handles and interfaces\<close>

definition handle_ok :: "ArrayValidateParams \<Rightarrow> mojo_value \<Rightarrow> bool" where
  "handle_ok p v \<longleftrightarrow> (case v of
     HandleV h \<Rightarrow> element_is_nullable p \<or> h \<noteq> MOJO_HANDLE_INVALID
   | _ \<Rightarrow> False)"

lemma slot_mapped: "mapped m (a + 8) (s * n) \<Longrightarrow> i < n \<Longrightarrow> mapped m (a + 8 + s * i) s"
proof (erule mapped_sub)
  assume "i < n"
  then have "s * Suc i \<le> s * n" by (simp del: mult_Suc_right)
  then show "a + 8 \<le> a + 8 + s * i" "a + 8 + s * i + s \<le> a + 8 + s * n" by simp_all
qed

lemma elem_slots_1: "elem_slots a s i (Suc i) = {a + 8 + s * i..<a + 8 + s * i + s}"
  by (simp add: elem_slots_def add_ac)

lemma FetchAndReset_eq:
  "mapped m a 4 \<Longrightarrow> FetchAndReset m a = Inr (peek32 m a, poke m a (bytes_of_word 4 MOJO_HANDLE_INVALID))"
  by (simp add: FetchAndReset_def load32_eq store32_eq)

lemma same_on_poke: "{a..<a + length bs} \<inter> S = {} \<Longrightarrow> same_on S m (poke m a bs)"
  by (auto simp: same_on_def poke_def)

interpretation handle_element: element_codec
  "SerializeElement_handle dbg (Some p)" "DeserializeElement_handle dbg" 4 "\<lambda>_. 0"
  "\<lambda>_. HandleV MOJO_HANDLE_INVALID" "handle_ok p" for dbg p
proof unfold_locales
  fix v m a b and i n :: nat
  assume ok: "handle_ok p v" and i: "i < n" and hdr: "header m a n" and mp: "mapped m (a + 8) (4 * n)"
    and top: "a + 8 + 4 * n \<le> top_of b"
  from ok obtain h where v: "v = HandleV h" and valid: "element_is_nullable p \<or> h \<noteq> MOJO_HANDLE_INVALID"
    by (auto simp: handle_ok_def split: mojo_value.splits)
  let ?s = "a + 8 + 4 * i"
  let ?m = "poke m ?s (bytes_of_word 4 h)"
  note slot = slot_mapped [OF mp i]
  have ref: "ToRef HandleType (array_storage a) i = ?s" by (simp add: ToRef_def array_storage_def)
  have hdr': "header ?m a n" by (rule header_same [OF hdr], rule same_on_poke) auto
  have "stored {a..<a + 8} (DeserializeElement_handle dbg a i) ?m (elem_slots a 4 i (Suc i)) v"
    unfolding stored_def
  proof (intro allI impI)
    fix m' assume same: "same_on ({a..<a + 8} \<union> elem_slots a 4 i (Suc i)) ?m m'"
    then have "header m' a n" using header_same [OF hdr'] by simp
    moreover have "mapped m' ?s 4" "peek32 m' ?s = h"
      using same same_on_mapped [of ?s 4 ?m m'] same_on_peek(2) [of ?s ?m m'] slot
      by (simp_all add: elem_slots_1 mapped_poke)
    ultimately show "\<exists>m''. DeserializeElement_handle dbg a i m' = Inr (v, m'') \<and> same_on (- elem_slots a 4 i (Suc i)) m' m''"
      by (auto simp: DeserializeElement_handle_def header_at i ref FetchAndReset_eq v elem_slots_1 intro!: same_on_poke)
  qed
  moreover have "writes_only (elem_slots a 4 i (Suc i)) m ?m" by (rule writes_only_poke) (use slot in \<open>simp_all add: elem_slots_1\<close>)
  ultimately show "emits {a..<a + 8} (elem_slots a 4 i (Suc i)) m b 0
      (SerializeElement_handle dbg (Some p) a i v (m, b)) (NONE, HandleV MOJO_HANDLE_INVALID)
      (DeserializeElement_handle dbg a i) v"
    using slot valid
    by (intro emitsI [of _ _ ?m])
      (auto simp: SerializeElement_handle_def deref_def header_at [OF hdr i] ref store32_eq handle_of_def v)
qed simp

definition interface_ok :: "ArrayValidateParams \<Rightarrow> mojo_value \<Rightarrow> bool" where
  "interface_ok p v \<longleftrightarrow> (case v of
     InterfaceV h _ \<Rightarrow> element_is_nullable p \<or> h \<noteq> MOJO_HANDLE_INVALID
   | _ \<Rightarrow> False)"

lemma InterfaceHandleToData_eq:
  assumes "mapped m a 8"
  shows "InterfaceHandleToData m v a =
    Inr (poke (poke m a (bytes_of_word 4 (handle_of v))) (a + 4) (bytes_of_word 4 (version_of v)))"
  using mapped_sub [OF assms, of a 4] mapped_sub [OF assms, of "a + 4" 4]
  by (simp add: InterfaceHandleToData_def store32_eq mapped_poke)

lemma InterfaceDataToHandle_eq:
  assumes "mapped m a 8"
  shows "InterfaceDataToHandle m a =
    Inr (InterfaceV (peek32 m a) (peek32 m (a + 4)), poke m a (bytes_of_word 4 MOJO_HANDLE_INVALID))"
  using mapped_sub [OF assms, of a 4] mapped_sub [OF assms, of "a + 4" 4]
  by (simp add: InterfaceDataToHandle_def FetchAndReset_eq load32_eq mapped_poke peek32_poke_other)

interpretation interface_element: element_codec
  "SerializeElement_interface dbg (Some p)" "DeserializeElement_interface dbg" 8 "\<lambda>_. 0"
  "\<lambda>_. InterfaceV MOJO_HANDLE_INVALID 0" "interface_ok p" for dbg p
proof unfold_locales
  fix v m a b and i n :: nat
  assume ok: "interface_ok p v" and i: "i < n" and hdr: "header m a n" and mp: "mapped m (a + 8) (8 * n)"
  from ok obtain h ver where v: "v = InterfaceV h ver" and valid: "element_is_nullable p \<or> h \<noteq> MOJO_HANDLE_INVALID"
    by (auto simp: interface_ok_def split: mojo_value.splits)
  let ?s = "a + 8 + 8 * i"
  let ?m1 = "poke m ?s (bytes_of_word 4 h)"
  let ?m = "poke ?m1 (?s + 4) (bytes_of_word 4 ver)"
  note slot = slot_mapped [OF mp i]
  have half: "mapped m ?s 4" "mapped ?m1 (?s + 4) 4"
    using mapped_sub [OF slot, of ?s 4] mapped_sub [OF slot, of "?s + 4" 4] by (simp_all add: mapped_poke)
  have ref: "ToRef InterfaceType (array_storage a) i = ?s" by (simp add: ToRef_def array_storage_def)
  have fr: "writes_only (elem_slots a 8 i (Suc i)) m ?m"
    using writes_only_trans [of "elem_slots a 8 i (Suc i)" m ?m1 "elem_slots a 8 i (Suc i)" ?m]
      writes_only_poke [of m ?s "bytes_of_word 4 h"] writes_only_poke [of ?m1 "?s + 4" "bytes_of_word 4 ver"] half
    by (simp add: elem_slots_1)
  have hdr': "header ?m a n" by (rule header_same [OF hdr], rule writes_only_same [OF fr]) (auto simp: elem_slots_1)
  have "stored {a..<a + 8} (DeserializeElement_interface dbg a i) ?m (elem_slots a 8 i (Suc i)) v"
    unfolding stored_def
  proof (intro allI impI)
    fix m' assume same: "same_on ({a..<a + 8} \<union> elem_slots a 8 i (Suc i)) ?m m'"
    then have "header m' a n" using header_same [OF hdr'] by simp
    moreover have "same_on {?s..<?s + 4} ?m m'" "same_on {?s + 4..<?s + 4 + 4} ?m m'"
      using same by (auto simp: elem_slots_1 same_on_def)
    then have "peek32 m' ?s = h" "peek32 m' (?s + 4) = ver"
      by (simp_all add: same_on_peek(2) peek32_poke_other)
    moreover have "mapped m' ?s 8"
      using same same_on_mapped [of ?s 8 ?m m'] slot writes_only_mapped [OF fr] by (simp add: elem_slots_1)
    ultimately show "\<exists>m''. DeserializeElement_interface dbg a i m' = Inr (v, m'') \<and> same_on (- elem_slots a 8 i (Suc i)) m' m''"
      by (auto simp: DeserializeElement_interface_def header_at i ref InterfaceDataToHandle_eq v elem_slots_1 intro!: same_on_poke)
  qed
  with fr show "emits {a..<a + 8} (elem_slots a 8 i (Suc i)) m b 0
      (SerializeElement_interface dbg (Some p) a i v (m, b)) (NONE, InterfaceV MOJO_HANDLE_INVALID 0)
      (DeserializeElement_interface dbg a i) v"
    using slot valid
    by (intro emitsI [of _ _ ?m])
      (auto simp: SerializeElement_interface_def deref_def header_at [OF hdr i] ref InterfaceHandleToData_eq
        handle_of_def version_of_def v)
qed simp

section \<open>Elements behind a pointer\<close>

lemma pointer_element:
  assumes codec: "pointer_codec (\<lambda>v. Run v (element_validate_params p)) des sz rel okv" and T: "sizeof_StorageType T = 8"
  shows "element_codec (SerializeElement_pointer dbg T Run (Some p)) (DeserializeElement_pointer dbg T des) 8 sz rel
    (\<lambda>v. okv v \<and> (element_is_nullable p \<or> v \<noteq> NullV))"
proof unfold_locales
  fix v m a b and i n :: nat
  show "okv v \<and> (element_is_nullable p \<or> v \<noteq> NullV) \<Longrightarrow> 8 dvd sz v"
    using pointer_codec.size_aligned [OF codec] by blast
  assume ok: "okv v \<and> (element_is_nullable p \<or> v \<noteq> NullV)" and i: "i < n" and hdr: "header m a n"
    and mp: "mapped m (a + 8) (8 * n)" and room: "room m b (sz v)" and top: "a + 8 + 8 * n \<le> top_of b"
  let ?S = "elem_slots a 8 i (Suc i)" and ?B = "span b (sz v)" and ?s = "a + 8 + 8 * i"
  have dis: "?S \<inter> {a..<a + 8} = {}" "?S \<inter> ?B = {}" "?B \<inter> {a..<a + 8} = {}"
    using elem_slots_disjoint [OF top i, of "sz v"] by blast+
  have ref: "ToRef T (array_storage a) i = ?s" by (simp add: ToRef_def array_storage_def T)
  from pointer_codec.object [OF codec] ok room obtain q where q: "q < 18446744073709551616" "q = 0 \<longleftrightarrow> v = NullV"
    and em: "emits {} {} m b (sz v) (Run v (element_validate_params p) (m, b)) (NONE, q, rel v) (\<lambda>m. des m q) v"
    by blast
  from em obtain m1 where run: "Run v (element_validate_params p) (m, b) = Inr ((NONE, q, rel v), m1, advance b (sz v))"
    and f1: "writes_only ?B m m1" and st1: "stored {} (\<lambda>m. des m q) m1 ?B v"
    by (rule emitsE) simp
  let ?m = "poke m1 ?s (bytes_of_word 8 (of_nat q :: u64))"
  have slot: "mapped m1 ?s 8" using slot_mapped [OF mp i] writes_only_mapped [OF f1] by simp
  have f2: "writes_only ?S m1 ?m" by (rule writes_only_poke) (use slot in \<open>simp_all add: elem_slots_1\<close>)
  have hdr1: "header m1 a n" by (rule header_same [OF hdr writes_only_same [OF f1]]) (use dis in blast)
  have hdr2: "header ?m a n" by (rule header_same [OF hdr1 writes_only_same [OF f2]]) (use dis in blast)
  have "same_on ?B m1 ?m" by (rule writes_only_same [OF f2]) (use dis in blast)
  then have st2: "stored {} (\<lambda>m. des m q) ?m ?B v" using stored_same [OF st1] by simp
  have "stored {a..<a + 8} (DeserializeElement_pointer dbg T des a i) ?m (?S \<union> ?B) v"
  proof (rule stored_cong [OF stored_mono [OF st2]])
    fix m' assume same: "same_on ({a..<a + 8} \<union> (?S \<union> ?B)) ?m m'"
    then have "header m' a n" using header_same [OF hdr2] by simp
    moreover have "mapped m' ?s 8" "peek64 m' ?s = of_nat q"
      using same same_on_mapped [of ?s 8 ?m m'] same_on_peek(1) [of ?s ?m m'] slot
      by (simp_all add: elem_slots_1 mapped_poke)
    ultimately show "DeserializeElement_pointer dbg T des a i m' = des m' q"
      using q(1) by (simp add: DeserializeElement_pointer_def header_at i ref pointer_ptr_def load64_eq unat_of_nat)
  qed auto
  then show "emits {a..<a + 8} ?S m b (sz v) (SerializeElement_pointer dbg T Run (Some p) a i v (m, b))
      (NONE, rel v) (DeserializeElement_pointer dbg T des a i) v"
    using writes_only_trans [OF f1 f2] ok q(2) slot
    by (intro emitsI [of _ _ ?m])
      (auto simp: SerializeElement_pointer_def deref_def run header_at [OF hdr1 i] ref store64_eq Un_commute)
qed

section \<open>Numbers\<close>

definition pod_ok :: "nat \<Rightarrow> mojo_value \<Rightarrow> bool" where
  "pod_ok n v \<longleftrightarrow> (case v of PodV bs \<Rightarrow> length bs = n | _ \<Rightarrow> False)"

lemma pod_okE: "pod_ok n v \<Longrightarrow> (\<And>bs. v = PodV bs \<Longrightarrow> length bs = n \<Longrightarrow> P) \<Longrightarrow> P"
  by (auto simp: pod_ok_def split: mojo_value.splits)

lemma DCHECK_params_pass [simp]: "cond p \<Longrightarrow> DCHECK_params dbg (Some p) cond k = k"
  by (simp add: DCHECK_params_def)

lemma poke_append: "poke m a (xs @ ys) = poke (poke m a xs) (a + length xs) ys"
  by (induction xs arbitrary: m a) (simp_all add: poke_Cons)

lemma length_pods: "list_all (pod_ok n) vs \<Longrightarrow> length (concat (map pod_bytes vs)) = n * length vs"
  by (induction vs) (auto elim!: pod_okE simp: pod_bytes_def)

lemma chunks_pods:
  "list_all (pod_ok n) vs \<Longrightarrow> map PodV (chunks n (length vs) (concat (map pod_bytes vs))) = vs"
  by (induction vs) (auto elim!: pod_okE simp: pod_bytes_def)

lemma pod_loop:
  "\<lbrakk>list_all (pod_ok n) vs; i + length vs = k; header m a k; mapped m (a + 8) (n * k)\<rbrakk> \<Longrightarrow>
   serialize_loop (\<lambda>i v st.
       bindR (Array_Data_at dbg (Primitive n) (fst st) a i) (\<lambda>r.
       bindR (store_bytes (fst st) r (pod_bytes v)) (\<lambda>m. Inr ((NONE, v), m, snd st)))) i vs (m, b) =
   Inr ((NONE, vs), poke m (a + 8 + n * i) (concat (map pod_bytes vs)), b)"
proof (induction vs arbitrary: i m)
  case (Cons v vs)
  from Cons.prems(1) obtain bs where v: "v = PodV bs" "length bs = n" and ok: "list_all (pod_ok n) vs"
    by (auto elim: pod_okE)
  have i: "i < k" "Suc i + length vs = k" using Cons.prems(2) by auto
  note slot = slot_mapped [OF Cons.prems(4) i(1)]
  let ?m = "poke m (a + 8 + n * i) bs"
  have "header ?m a k" by (rule header_same [OF Cons.prems(3)], rule same_on_poke) auto
  moreover have "mapped ?m (a + 8) (n * k)" using Cons.prems(4) slot v(2) by (simp add: mapped_poke)
  ultimately show ?case
    using Cons.IH [OF ok i(2)] slot v
    by (simp add: header_at [OF Cons.prems(3) i(1)] ToRef_def array_storage_def store_bytes_eq pod_bytes_def
        poke_append add_ac)
qed simp

text \<open>Copying the numbers one by one has the effect of copying them in one piece.\<close>

lemma SerializeElements_pod_eq_memcpy:
  assumes "pod_params p" "list_all (pod_ok n) vs" "header m a (length vs)" "mapped m (a + 8) (n * length vs)"
  shows "SerializeElements_pod dbg n vs a (Some p) (m, b) = Inr ((NONE, vs), poke m (a + 8) (concat (map pod_bytes vs)), b)"
    and "SerializeElements_memcpy dbg vs a (Some p) (m, b) = Inr ((NONE, vs), poke m (a + 8) (concat (map pod_bytes vs)), b)"
  using pod_loop [OF assms(2) _ assms(3,4), of 0 dbg b] assms length_pods [OF assms(2)]
  by (simp_all add: SerializeElements_pod_def SerializeElements_memcpy_def store_bytes_eq array_storage_def)

interpretation numbers: elements_codec
  "\<lambda>vs a. SerializeElements (Pod n) dbg gen it vs a (Some p)" "DeserializeElements (Pod n) dbg gen"
  "\<lambda>k. n * k" "\<lambda>_. 0" "\<lambda>v. v" "\<lambda>vs. pod_params p \<and> list_all (pod_ok n) vs" for n dbg gen it p
proof unfold_locales
  fix vs m a b
  assume ok: "pod_params p \<and> list_all (pod_ok n) vs" and hdr: "header m a (length vs)"
    and mp: "mapped m (a + 8) (n * length vs)"
  let ?m = "poke m (a + 8) (concat (map pod_bytes vs))" and ?S = "{a + 8..<a + 8 + n * length vs}"
  have len: "length (concat (map pod_bytes vs)) = n * length vs" using ok length_pods by blast
  have fr: "writes_only ?S m ?m" by (rule writes_only_poke) (use mp len in simp_all)
  have "stored {a..<a + 8} (\<lambda>m. DeserializeElements_pod n m a) ?m ?S vs"
  proof (rule stored_readI)
    fix m' assume same: "same_on ({a..<a + 8} \<union> ?S) ?m m'"
    have "same_on {a..<a + 8} m ?m" by (rule writes_only_same [OF fr]) auto
    with same have "header m' a (length vs)" using header_same [OF header_same [OF hdr]] by simp
    from header_num [OF this] obtain w where w: "array_num_elements m' a = Inr w" "unat w = length vs" by blast
    have ag: "agree m' ?m (a + 8) (n * length vs)" using same by (auto simp: agree_def same_on_def)
    then have "peek m' (a + 8) (n * length vs) = concat (map pod_bytes vs)"
      using agree_peek [OF ag] peek_poke_same [OF len [symmetric]] by simp
    moreover have "mapped m' (a + 8) (n * length vs)" using agree_mapped [OF ag] writes_only_mapped [OF fr] mp by simp
    moreover have "w = 0 \<longleftrightarrow> vs = []" using w(2) by (simp add: unat_eq_0 [symmetric])
    ultimately show "DeserializeElements_pod n m' a = Inr (vs, m')"
      using w chunks_pods ok
      by (auto simp: DeserializeElements_pod_def load_bytes_eq array_storage_def mult.commute)
  qed
  with fr show "emits {a..<a + 8} ?S m b (sum_list (map (\<lambda>_. 0) vs))
      (SerializeElements (Pod n) dbg gen it vs a (Some p) (m, b)) (NONE, map (\<lambda>v. v) vs)
      (\<lambda>m. DeserializeElements (Pod n) dbg gen m a) vs"
    using SerializeElements_pod_eq_memcpy [OF _ _ hdr mp] ok
    by (intro emitsI [of _ _ ?m]) (auto split: elements_from.split)
qed simp

section \<open>Bools\<close>

definition bool_ok :: "mojo_value \<Rightarrow> bool" where
  "bool_ok v \<longleftrightarrow> (case v of BoolV _ \<Rightarrow> True | _ \<Rightarrow> False)"

lemma bool_ok_iff: "bool_ok v \<longleftrightarrow> v = BoolV (bool_of v)"
  by (auto simp: bool_ok_def bool_of_def split: mojo_value.splits)

lemma byte_of_bit: "(j :: nat) < k \<Longrightarrow> a + 8 + j div 8 \<in> {a + 8..<a + 8 + (k + 7) div 8}"
  by auto

lemma bool_write:
  assumes "header m a k" "i < k" "mapped m (a + 8) ((k + 7) div 8)"
  shows "\<exists>m'. bindR (Bool_at dbg m a i) (\<lambda>r. BitRef_set m r c) = Inr m' \<and>
    writes_only {a + 8..<a + 8 + (k + 7) div 8} m m' \<and> (\<forall>j. bool_element m' a j = (if j = i then c else bool_element m a j))"
proof -
  have "m (a + 8 + i div 8) \<noteq> None" using assms(2,3) byte_of_bit [of i k a] by (auto simp: mapped_iff_range)
  from BitRef_set_eq [of m a i c] this obtain m' where
    set: "BitRef_set m (Bool_ToRef (array_storage a) i) c = Inr m'" and d: "dom m' = dom m"
    and other: "\<And>x. x \<noteq> a + 8 + i div 8 \<Longrightarrow> m' x = m x"
    and bits: "\<And>k. bit (the (m' (a + 8 + i div 8))) k \<longleftrightarrow> (if k = i mod 8 then c else bit (the (m (a + 8 + i div 8))) k)"
    by blast
  have "bool_element m' a j = (if j = i then c else bool_element m a j)" for j
  proof -
    have "j = i \<longleftrightarrow> j div 8 = i div 8 \<and> j mod 8 = i mod 8" by (metis div_mult_mod_eq)
    then show ?thesis using bits [of "j mod 8"] other [of "a + 8 + j div 8"]
      by (cases "j div 8 = i div 8") (auto simp: bool_element_def)
  qed
  moreover have "writes_only {a + 8..<a + 8 + (k + 7) div 8} m m'"
    using d other byte_of_bit [OF assms(2), of a] by (auto simp: writes_only_def same_on_def)
  ultimately show ?thesis using set by (auto simp: header_at [OF assms(1,2)])
qed

definition write_bool :: "bool \<Rightarrow> addr \<Rightarrow> element_serializer" where
  "write_bool dbg a i v st =
     bindR (Bool_at dbg (fst st) a i) (\<lambda>r. bindR (BitRef_set (fst st) r (bool_of v)) (\<lambda>m. Inr ((NONE, v), m, snd st)))"

lemma bool_loop:
  "\<lbrakk>i + length vs = k; header m a k; mapped m (a + 8) ((k + 7) div 8)\<rbrakk> \<Longrightarrow>
   \<exists>m'. serialize_loop (write_bool dbg a) i vs (m, b) = Inr ((NONE, vs), m', b) \<and>
     writes_only {a + 8..<a + 8 + (k + 7) div 8} m m' \<and>
     (\<forall>j. bool_element m' a j = (if i \<le> j \<and> j < k then bool_of (vs ! (j - i)) else bool_element m a j))"
proof (induction vs arbitrary: i m)
  case (Cons v vs)
  let ?S = "{a + 8..<a + 8 + (k + 7) div 8}"
  have i: "i < k" "Suc i + length vs = k" using Cons.prems(1) by auto
  from bool_write [OF Cons.prems(2) i(1) Cons.prems(3)] obtain m1 where
    w: "bindR (Bool_at dbg m a i) (\<lambda>r. BitRef_set m r (bool_of v)) = Inr m1" and f1: "writes_only ?S m m1"
    and e1: "\<And>j. bool_element m1 a j = (if j = i then bool_of v else bool_element m a j)" by blast
  have "header m1 a k" by (rule header_same [OF Cons.prems(2) writes_only_same [OF f1]]) auto
  moreover have "mapped m1 (a + 8) ((k + 7) div 8)" using writes_only_mapped [OF f1] Cons.prems(3) by simp
  ultimately obtain m2 where loop: "serialize_loop (write_bool dbg a) (Suc i) vs (m1, b) = Inr ((NONE, vs), m2, b)"
    and f2: "writes_only ?S m1 m2"
    and e2: "\<And>j. bool_element m2 a j = (if Suc i \<le> j \<and> j < k then bool_of (vs ! (j - Suc i)) else bool_element m1 a j)"
    using Cons.IH [OF i(2)] by blast
  have "write_bool dbg a i v (m, b) = Inr ((NONE, v), m1, b)"
    using w by (auto simp: write_bool_def res_simps)
  moreover have "bool_element m2 a j = (if i \<le> j \<and> j < k then bool_of ((v # vs) ! (j - i)) else bool_element m a j)" for j
    using e1 e2 i(1) by (cases "j = i") (auto simp: nth_Cons' Suc_le_eq)
  ultimately show ?case using loop writes_only_trans [OF f1 f2] by auto
qed auto

lemma bool_read_loop:
  "\<lbrakk>list_all bool_ok vs; i + length vs = k; header m a k; mapped m (a + 8) ((k + 7) div 8);
    \<And>j. i \<le> j \<Longrightarrow> j < k \<Longrightarrow> bool_element m a j = bool_of (vs ! (j - i))\<rbrakk> \<Longrightarrow>
   deserialize_loop a (\<lambda>i m. bindR (Bool_at dbg m a i) (\<lambda>r. bindR (BitRef_get m r) (\<lambda>b. Inr (BoolV b, m)))) i m = Inr (vs, m)"
proof (induction vs arbitrary: i)
  case Nil
  then show ?case by (simp add: deserialize_loop_end)
next
  case (Cons v vs)
  have i: "i < k" "Suc i + length vs = k" using Cons.prems(2) by auto
  have v: "v = BoolV (bool_element m a i)" using Cons.prems(1) Cons.prems(5) [of i] i(1) by (simp add: bool_ok_iff)
  have "m (a + 8 + i div 8) \<noteq> None" using i(1) Cons.prems(4) byte_of_bit [of i k a] by (auto simp: mapped_iff_range)
  then have "BitRef_get m (Bool_ToRef (array_storage a) i) = Inr (bool_element m a i)"
    by (auto simp: BitRef_get_def Bool_ToRef_def array_storage_def load8_eq bool_element_def and_exp_eq_0_iff_not_bit)
  moreover have "bool_element m a j = bool_of (vs ! (j - Suc i))" if "Suc i \<le> j" "j < k" for j
    using Cons.prems(5) [of j] that by (simp add: nth_Cons')
  ultimately show ?case
    using Cons.IH [OF _ i(2) Cons.prems(3,4)] Cons.prems(1) v
    by (simp add: deserialize_loop_step [OF Cons.prems(3) i(1)] header_at [OF Cons.prems(3) i(1)])
qed

interpretation bools: elements_codec
  "\<lambda>vs a. SerializeElements BoolW dbg gen it vs a (Some p)" "DeserializeElements BoolW dbg gen"
  "\<lambda>k. (k + 7) div 8" "\<lambda>_. 0" "\<lambda>v. v" "\<lambda>vs. pod_params p \<and> list_all bool_ok vs" for dbg gen it p
proof unfold_locales
  fix vs m a b
  assume ok: "pod_params p \<and> list_all bool_ok vs" and hdr: "header m a (length vs)"
    and mp: "mapped m (a + 8) ((length vs + 7) div 8)"
  let ?S = "{a + 8..<a + 8 + (length vs + 7) div 8}"
  from bool_loop [OF _ hdr mp, of 0 vs dbg b] obtain m1 where
    loop: "serialize_loop (write_bool dbg a) 0 vs (m, b) = Inr ((NONE, vs), m1, b)" and fr: "writes_only ?S m m1"
    and el: "\<And>j. j < length vs \<Longrightarrow> bool_element m1 a j = bool_of (vs ! j)" by auto
  have "stored {a..<a + 8} (\<lambda>m. DeserializeElements_bool dbg m a) m1 ?S vs"
  proof (rule stored_readI)
    fix m' assume same: "same_on ({a..<a + 8} \<union> ?S) m1 m'"
    have "same_on {a..<a + 8} m m1" by (rule writes_only_same [OF fr]) auto
    with same have "header m' a (length vs)" using header_same [OF header_same [OF hdr]] by simp
    moreover have "mapped m' (a + 8) ((length vs + 7) div 8)"
      using same same_on_mapped [of "a + 8" "(length vs + 7) div 8" m1 m'] writes_only_mapped [OF fr] mp by simp
    moreover have "bool_element m' a j = bool_of (vs ! j)" if "j < length vs" for j
      using same byte_of_bit [OF that, of a] el [OF that] by (auto simp: bool_element_def same_on_def)
    ultimately show "DeserializeElements_bool dbg m' a = Inr (vs, m')"
      using bool_read_loop [of vs 0] ok by (simp add: DeserializeElements_bool_def)
  qed
  with fr loop show "emits {a..<a + 8} ?S m b (sum_list (map (\<lambda>_. 0) vs))
      (SerializeElements BoolW dbg gen it vs a (Some p) (m, b)) (NONE, map (\<lambda>v. v) vs)
      (\<lambda>m. DeserializeElements BoolW dbg gen m a) vs"
    using ok by (intro emitsI [of _ _ m1]) (simp_all add: SerializeElements_bool_def write_bool_def [abs_def])
qed simp

end
