(* ===== verification/Cpp_SerializationRoundTrip.thy ===== *)
theory Cpp_SerializationRoundTrip
  imports Cpp_SerializationCodec
begin

text \<open>
  Serialisation of strings, arrays and maps of the C++ bindings: a value fits exactly in a buffer of
  \<^verbatim>\<open>GetSerializedSize_\<close> bytes, and deserialising gives it back.
\<close>

section \<open>Allocation\<close>

text \<open>The bytes the elements of an array take, and the counts that the header of an array can hold.\<close>

definition storage_bytes :: "array_type \<Rightarrow> nat \<Rightarrow> nat" where
  "storage_bytes T n = (if T = Bool then (n + 7) div 8 else sizeof_StorageType T * n)"

definition fits_header :: "array_type \<Rightarrow> nat \<Rightarrow> bool" where
  "fits_header T n \<longleftrightarrow> sized T \<and>
     (if T = Bool then n + 7 < 4294967296 else 8 + sizeof_StorageType T * n < 4294967296)"

definition array_bytes :: "array_type \<Rightarrow> nat \<Rightarrow> nat" where
  "array_bytes T n = 8 + round8 (storage_bytes T n)"

lemma dvd_array_bytes [simp]: "8 dvd array_bytes T n"
  using round8_bounds(3) by (simp add: array_bytes_def)

lemma storage_le_array_bytes: "8 + storage_bytes T n \<le> array_bytes T n"
  using round8_bounds(1) by (simp add: array_bytes_def)

lemma room_nonnull: "room m b n \<Longrightarrow> top_of b \<noteq> 0"
  by (simp add: room_def top_of_def)

lemma Allocate_room:
  assumes "room m b (round8 k + j)" and "unat w = k" and "0 < k"
  shows "FixedBuffer_Allocate dbg b w = Inr (advance b (round8 k), top_of b)"
proof -
  have r: "0 < round8 k" "round8 k < 18446744073709551616"
    using assms round8_bounds(1) [of k] unat_u64_bound [of "fb_size b"] by (auto simp: room_def)
  then have u: "unat (Align w) = round8 k" by (simp add: unat_Align assms(2))
  then have "Align w = of_nat (round8 k)" using r by (simp add: word_unat_eq_iff unat_of_nat)
  moreover have "fixed_buffer_fits b w"
    using assms(1) u r(1) by (auto simp: fixed_buffer_fits_def room_def)
  ultimately show ?thesis
    using assms(1) by (simp add: FixedBuffer_Allocate_cases room_def advance_def top_of_def)
qed

text \<open>The two words that every object starts with.\<close>

lemma two_words:
  assumes "mapped m a 8" and "{a..<a + 8} \<subseteq> S"
  shows "\<exists>m'. store32 m a x = Inr (poke m a (bytes_of_word 4 x)) \<and>
    store32 (poke m a (bytes_of_word 4 x)) (a + 4) y = Inr m' \<and> writes_only S m m' \<and> peek32 m' (a + 4) = y"
proof -
  have half: "mapped m a 4" "mapped m (a + 4) 4" using assms(1) by (auto intro: mapped_sub)
  then have "writes_only S (poke m a (bytes_of_word 4 x)) (poke (poke m a (bytes_of_word 4 x)) (a + 4) (bytes_of_word 4 y))"
    by (intro writes_only_poke) (use assms(2) in \<open>auto simp: mapped_poke\<close>)
  moreover have "writes_only S m (poke m a (bytes_of_word 4 x))"
    by (intro writes_only_poke) (use assms(2) half in auto)
  ultimately show ?thesis
    using half writes_only_trans [of S m _ S] by (simp add: store32_eq mapped_poke)
qed

lemma GetStorageSize_fits:
  assumes "fits_header T n"
  shows "\<exists>nb. GetStorageSize dbg T (of_nat n) = Inr nb \<and> unat nb = 8 + storage_bytes T n"
    and "\<not> (of_nat n :: u64) > ucast (kMaxNumElements T)" and "n < 4294967296"
proof -
  show n: "n < 4294967296"
  proof (cases "T = Bool")
    case False
    with assms have "0 < sizeof_StorageType T" "sizeof_StorageType T * n < 4294967296"
      by (simp_all add: fits_header_def sized_def)
    then show ?thesis by (metis le_less_trans mult.commute mult_le_mono2 mult_numeral_1_right nat_mult_1_right One_nat_def Suc_leI)
  qed (use assms in \<open>simp add: fits_header_def\<close>)
  have u: "unat (of_nat n :: u32) = n" "unat (of_nat n :: u64) = n" using n by (simp_all add: unat_of_nat)
  have le: "of_nat n \<le> kMaxNumElements T"
  proof (cases "T = Bool")
    case True
    then show ?thesis using n by (simp add: kMaxNumElements_def kMaxUint32_def word_le_nat_alt u)
  next
    case False
    then show ?thesis using assms u by (simp add: le_kMaxNumElements fits_header_def)
  qed
  then show "\<not> (of_nat n :: u64) > ucast (kMaxNumElements T)" by (simp add: word_le_nat_alt not_less u)
  show "\<exists>nb. GetStorageSize dbg T (of_nat n) = Inr nb \<and> unat nb = 8 + storage_bytes T n"
  proof (cases "T = Bool")
    case True
    then have "unat ((of_nat n + 7 :: u32) div 8) = (n + 7) div 8"
      using assms by (simp add: fits_header_def unat_div_distrib unat_word_ariths(1) u)
    then show ?thesis using True assms
      by (simp add: GetStorageSize_def storage_bytes_def fits_header_def unat_ucast_u64_u32 unat_word_ariths(1))
  next
    case False
    then show ?thesis using GetStorageSize_eq [OF False _ le] assms u by (simp add: fits_header_def storage_bytes_def)
  qed
qed

lemma Array_Data_New_room:
  assumes "fits_header T n" and "room m b (array_bytes T n + k)"
  shows "\<exists>m'. Array_Data_New dbg T (of_nat n) (m, b) = Inr (top_of b, m', advance b (array_bytes T n)) \<and>
    writes_only (span b (array_bytes T n)) m m' \<and> header m' (top_of b) n"
proof -
  note fits = GetStorageSize_fits [OF assms(1)]
  from fits(1) obtain nb where nb: "GetStorageSize dbg T (of_nat n) = Inr nb" "unat nb = 8 + storage_bytes T n" by blast
  have bytes: "round8 (8 + storage_bytes T n) = array_bytes T n" by (simp add: array_bytes_def round8_add)
  have al: "FixedBuffer_Allocate dbg b (ucast nb) = Inr (advance b (array_bytes T n), top_of b)"
    by (rule Allocate_room [of m b "8 + storage_bytes T n" k, unfolded bytes]) (use assms(2) nb in simp_all)
  have mp: "mapped m (top_of b) 8"
    using assms(2) storage_le_array_bytes [of T n] by (auto simp: room_def intro: mapped_sub)
  have "{top_of b..<top_of b + 8} \<subseteq> span b (array_bytes T n)" by (auto simp: span_def array_bytes_def)
  from two_words [OF mp this, of nb "of_nat n"] obtain m' where m':
    "store32 m (top_of b) nb = Inr (poke m (top_of b) (bytes_of_word 4 nb))"
    "store32 (poke m (top_of b) (bytes_of_word 4 nb)) (top_of b + 4) (of_nat n) = Inr m'"
    "writes_only (span b (array_bytes T n)) m m'" "peek32 m' (top_of b + 4) = of_nat n" by blast
  moreover have "header m' (top_of b) n"
    using m'(4) writes_only_mapped [OF m'(3)] mapped_sub [OF mp, of "top_of b + 4" 4] fits(3)
    by (simp add: header_def unat_of_nat)
  ultimately show ?thesis
    using fits(2,3) nb(1) al by (simp add: Array_Data_New_def ucast_of_nat_u32_u64)
qed

lemma Map_Data_New_room:
  assumes "room m b (24 + k)"
  shows "\<exists>m'. Map_Data_New dbg (m, b) = Inr (top_of b, m', advance b 24) \<and> writes_only (span b 24) m m'"
proof -
  have r: "round8 24 = 24" by (simp add: round8_def)
  have "FixedBuffer_Allocate dbg b 24 = Inr (advance b 24, top_of b)"
    using Allocate_room [of m b 24 k 24 dbg] assms r by simp
  moreover have "mapped m (top_of b) 8" using assms by (auto simp: room_def intro: mapped_sub)
  moreover have "{top_of b..<top_of b + 8} \<subseteq> span b 24" by (auto simp: span_def)
  ultimately show ?thesis
    using two_words [of m "top_of b" "span b 24" 24 0] by (fastforce simp: Map_Data_New_def)
qed

section \<open>Strings\<close>

definition string_size :: "mojo_value \<Rightarrow> nat" where
  "string_size v = (case v of StringV bs \<Rightarrow> array_bytes (Primitive 1) (length bs) | _ \<Rightarrow> 0)"

definition string_ok :: "mojo_value \<Rightarrow> bool" where
  "string_ok v \<longleftrightarrow> (case v of
     StringV bs \<Rightarrow> fits_header (Primitive 1) (length bs)
   | NullV \<Rightarrow> True
   | _ \<Rightarrow> False)"

text \<open>A null value takes no space and is a null pointer.\<close>

lemma emits_null:
  fixes des :: "mem \<Rightarrow> addr \<Rightarrow> (mojo_value \<times> mem) res"
  assumes "\<And>m. des m 0 = Inr (NullV, m)"
  shows "\<exists>p. p < 18446744073709551616 \<and> (p = 0 \<longleftrightarrow> NullV = NullV) \<and>
    emits {} {} m b 0 (Inr ((NONE, 0, NullV), m, b)) (NONE, p, NullV) (\<lambda>m. des m p) NullV"
  by (rule exI [of _ 0]) (auto intro!: emitsI [of _ _ m] stored_readI assms)

interpretation strings: pointer_codec
  "\<lambda>v. SerializeCaller_Run_string dbg v q" String_Deserialize string_size "\<lambda>v. v" "\<lambda>v. string_params q \<and> string_ok v"
  for dbg q
proof unfold_locales
  fix v m b
  show "8 dvd string_size v" by (simp add: string_size_def split: mojo_value.split)
  assume ok: "string_params q \<and> string_ok v" and room: "room m b (string_size v)"
  then consider (null) "v = NullV" | (string) bs where "v = StringV bs" "fits_header (Primitive 1) (length bs)"
    by (auto simp: string_ok_def split: mojo_value.splits)
  then show "\<exists>p. p < 18446744073709551616 \<and> (p = 0 \<longleftrightarrow> v = NullV) \<and>
      emits {} {} m b (string_size v) (SerializeCaller_Run_string dbg v q (m, b)) (NONE, p, v)
        (\<lambda>m. String_Deserialize m p) v"
  proof cases
    case null
    then show ?thesis using ok emits_null [of String_Deserialize]
      by (simp add: SerializeCaller_Run_string_def SerializeString_def string_size_def String_Deserialize_def)
  next
    case string
    let ?a = "top_of b" and ?n = "length bs"
    let ?k = "array_bytes (Primitive 1) ?n"
    have sz: "string_size v = ?k" and rm: "room m b (?k + 0)" using string room by (simp_all add: string_size_def)
    have le: "8 + ?n \<le> ?k" using storage_le_array_bytes [of "Primitive 1" ?n] by (simp add: storage_bytes_def)
    from Array_Data_New_room [OF string(2) rm] obtain m1 where
      new: "Array_Data_New dbg (Primitive 1) (of_nat ?n) (m, b) = Inr (?a, m1, advance b ?k)"
      and f1: "writes_only (span b ?k) m m1" and hdr: "header m1 ?a ?n" by blast
    have mp: "mapped m1 (?a + 8) ?n"
      using rm le writes_only_mapped [OF f1] by (auto simp: room_def intro: mapped_sub)
    let ?m = "poke m1 (?a + 8) bs"
    have f2: "writes_only (span b ?k) m1 ?m" by (rule writes_only_poke) (use mp le in \<open>auto simp: span_def\<close>)
    have hdr2: "header ?m ?a ?n" by (rule header_same [OF hdr], rule same_on_poke) auto
    have st: "stored {} (\<lambda>m. String_Deserialize m ?a) ?m (span b ?k) v"
    proof (rule stored_readI)
      fix m' assume same: "same_on ({} \<union> span b ?k) ?m m'"
      then have "same_on {?a..<?a + 8} ?m m'" using le by (auto simp: same_on_def span_def)
      then obtain w where w: "array_num_elements m' ?a = Inr w" "unat w = ?n"
        using header_num [OF header_same [OF hdr2]] by blast
      have ag: "agree m' ?m (?a + 8) ?n" using same le by (auto simp: agree_def same_on_def span_def)
      then have "load_bytes m' (?a + 8) ?n = Inr bs"
        using agree_mapped [OF ag] agree_peek [OF ag] mp by (simp add: load_bytes_eq mapped_poke peek_poke_same)
      then show "String_Deserialize m' ?a = Inr (v, m')"
        using w room_nonnull [OF rm] string(1) by (simp add: String_Deserialize_def array_storage_def)
    qed
    have "emits {} {} m b ?k (SerializeCaller_Run_string dbg v q (m, b)) (NONE, ?a, v) (\<lambda>m. String_Deserialize m ?a) v"
      using st writes_only_trans [OF f1 f2] ok room_nonnull [OF rm] mp string(1) new
      by (intro emitsI [of _ _ ?m])
        (simp_all add: SerializeCaller_Run_string_def SerializeString_def store_bytes_eq array_storage_def)
    moreover have "?a < 18446744073709551616" "?a \<noteq> 0" using rm room_nonnull [OF rm] by (simp_all add: room_def)
    ultimately show ?thesis using string(1) sz by auto
  qed
qed

section \<open>Arrays\<close>

definition array_size :: "array_type \<Rightarrow> (mojo_value \<Rightarrow> nat) \<Rightarrow> mojo_value list \<Rightarrow> nat" where
  "array_size T sz vs = array_bytes T (length vs) + sum_list (map sz vs)"

lemma dvd_array_size:
  "elements_codec ser des bytes sz rel okl \<Longrightarrow> okl vs \<Longrightarrow> 8 dvd array_size T sz vs"
  by (simp add: array_size_def elements_codec.sizes_aligned)

text \<open>The elements, written after the array was created: the array is then stored as a whole.\<close>

lemma array_body:
  assumes codec: "elements_codec ser des (storage_bytes T) sz rel okl" and ok: "okl vs"
    and hdr: "header m (top_of b) (length vs)" and room: "room m b (array_size T sz vs)"
  shows "\<exists>m'. ser vs (top_of b) (m, advance b (array_bytes T (length vs))) =
      Inr ((NONE, map rel vs), m', advance b (array_size T sz vs)) \<and>
    writes_only (span b (array_size T sz vs)) m m' \<and>
    stored {} (\<lambda>m. des m (top_of b)) m' (span b (array_size T sz vs)) vs"
proof -
  let ?a = "top_of b" and ?h = "array_bytes T (length vs)" and ?K = "sum_list (map sz vs)" and ?n = "length vs"
  have rm: "room m b (?h + ?K)" using room by (simp add: array_size_def)
  note adv = room_advance [OF rm dvd_array_bytes refl]
  note le = storage_le_array_bytes [of T ?n]
  have "mapped m (?a + 8) (storage_bytes T ?n)" using rm le by (auto simp: room_def intro: mapped_sub)
  from elements_codec.elements [OF codec ok hdr this adv(1)] le adv(2)
  have "emits {?a..<?a + 8} {?a + 8..<?a + 8 + storage_bytes T ?n} m (advance b ?h) ?K
      (ser vs ?a (m, advance b ?h)) (NONE, map rel vs) (\<lambda>m. des m ?a) vs"
    by simp
  then obtain m' where ser: "ser vs ?a (m, advance b ?h) = Inr ((NONE, map rel vs), m', advance b (?h + ?K))"
    and fr: "writes_only ({?a + 8..<?a + 8 + storage_bytes T ?n} \<union> span (advance b ?h) ?K) m m'"
    and st: "stored {?a..<?a + 8} (\<lambda>m. des m ?a) m' ({?a + 8..<?a + 8 + storage_bytes T ?n} \<union> span (advance b ?h) ?K) vs"
    by (rule emitsE) simp
  have sub: "{?a..<?a + 8} \<subseteq> span b (?h + ?K)"
    "{?a + 8..<?a + 8 + storage_bytes T ?n} \<union> span (advance b ?h) ?K \<subseteq> span b (?h + ?K)"
    using le by (auto simp: span_def adv(2))
  show ?thesis
    using ser writes_only_mono [OF fr sub(2)] stored_mono [OF st _ sub(2), of "{}"] sub by (auto simp: array_size_def)
qed

definition array_value_size :: "array_type \<Rightarrow> (mojo_value \<Rightarrow> nat) \<Rightarrow> mojo_value \<Rightarrow> nat" where
  "array_value_size T sz v = (case v of ArrayV vs \<Rightarrow> array_size T sz vs | _ \<Rightarrow> 0)"

definition array_left :: "(mojo_value \<Rightarrow> mojo_value) \<Rightarrow> mojo_value \<Rightarrow> mojo_value" where
  "array_left rel v = (case v of ArrayV vs \<Rightarrow> ArrayV (map rel vs) | _ \<Rightarrow> v)"

definition array_ok :: "array_type \<Rightarrow> (ArrayValidateParams \<Rightarrow> mojo_value list \<Rightarrow> bool) \<Rightarrow> ArrayValidateParams option \<Rightarrow> mojo_value \<Rightarrow> bool" where
  "array_ok T okl q v \<longleftrightarrow> (case v of
     ArrayV vs \<Rightarrow> (case q of
         Some p \<Rightarrow> (expected_num_elements p = 0 \<or> unat (expected_num_elements p) = length vs) \<and>
           fits_header T (length vs) \<and> okl p vs
       | None \<Rightarrow> False)
   | NullV \<Rightarrow> True
   | _ \<Rightarrow> False)"

lemma array_codec:
  assumes codec: "\<And>p. elements_codec (\<lambda>vs a. ser ArrayIterator vs a (Some p)) des (storage_bytes (DataType E)) sz rel (okl p)"
  shows "pointer_codec (\<lambda>v. SerializeArray dbg E ser v q) (Array_Deserialize des) (array_value_size (DataType E) sz)
    (array_left rel) (array_ok (DataType E) okl q)"
proof unfold_locales
  let ?T = "DataType E"
  fix v m b
  show "8 dvd array_value_size ?T sz v" if "array_ok ?T okl q v"
    using that dvd_array_size [OF codec]
    by (auto simp: array_value_size_def array_ok_def split: mojo_value.splits option.splits)
  assume ok: "array_ok ?T okl q v" and room: "room m b (array_value_size ?T sz v)"
  then consider (null) "v = NullV"
    | (array) vs p where "v = ArrayV vs" "q = Some p" "expected_num_elements p = 0 \<or> unat (expected_num_elements p) = length vs"
      "fits_header ?T (length vs)" "okl p vs"
    by (auto simp: array_ok_def split: mojo_value.splits option.splits)
  then show "\<exists>p. p < 18446744073709551616 \<and> (p = 0 \<longleftrightarrow> v = NullV) \<and>
      emits {} {} m b (array_value_size ?T sz v) (SerializeArray dbg E ser v q (m, b)) (NONE, p, array_left rel v)
        (\<lambda>m. Array_Deserialize des m p) v"
  proof cases
    case null
    then show ?thesis using emits_null [of "Array_Deserialize des"]
      by (simp add: SerializeArray_def array_value_size_def array_left_def Array_Deserialize_def)
  next
    case array
    let ?a = "top_of b" and ?h = "array_bytes ?T (length vs)" and ?k = "array_size ?T sz vs"
    have rm: "room m b ?k" using room array(1) by (simp add: array_value_size_def)
    then have rm': "room m b (?h + sum_list (map sz vs))" by (simp add: array_size_def)
    have count: "\<not> (expected_num_elements p \<noteq> 0 \<and> of_nat (length vs) \<noteq> (ucast (expected_num_elements p) :: u64))"
      using array(3) unat_u32_bound [of "expected_num_elements p"] by (auto simp: word_unat_eq_iff unat_of_nat)
    from Array_Data_New_room [OF array(4) rm'] obtain m1 where
      new: "Array_Data_New dbg ?T (of_nat (length vs)) (m, b) = Inr (?a, m1, advance b ?h)"
      and f1: "writes_only (span b ?h) m m1" and hdr: "header m1 ?a (length vs)" by blast
    have "room m1 b ?k" using rm writes_only_room [OF f1] by simp
    from array_body [OF codec array(5) hdr this] obtain m2 where
      ser: "ser ArrayIterator vs ?a (Some p) (m1, advance b ?h) = Inr ((NONE, map rel vs), m2, advance b ?k)"
      and f2: "writes_only (span b ?k) m1 m2" and st: "stored {} (\<lambda>m. des m ?a) m2 (span b ?k) vs" by blast
    have "span b ?h \<subseteq> span b ?k" by (auto simp: span_def array_size_def)
    from writes_only_trans [OF writes_only_mono [OF f1 this] f2] have fr: "writes_only (span b ?k) m m2" by simp
    have "SerializeArray dbg E ser v q (m, b) = Inr ((NONE, ?a, array_left rel v), m2, advance b ?k)"
      using count new ser array(1,2) by (simp add: SerializeArray_def deref_def array_left_def)
    moreover have "stored {} (\<lambda>m. Array_Deserialize des m ?a) m2 (span b ?k) v"
      using stored_map [OF st, of ArrayV] room_nonnull [OF rm] array(1) by (simp add: Array_Deserialize_def)
    ultimately have "emits {} {} m b ?k (SerializeArray dbg E ser v q (m, b)) (NONE, ?a, array_left rel v)
        (\<lambda>m. Array_Deserialize des m ?a) v"
      using fr by (simp add: emits_def)
    moreover have "?a < 18446744073709551616" "?a \<noteq> 0" using rm room_nonnull [OF rm] by (simp_all add: room_def)
    ultimately show ?thesis using array(1) by (auto simp: array_value_size_def)
  qed
qed

section \<open>Maps\<close>

text \<open>The array of keys or of values: it is created, its address is stored at \<open>x\<close>, and it is filled.\<close>

lemma map_part:
  assumes codec: "elements_codec ser des (storage_bytes T) sz rel okl" and ok: "okl vs" "fits_header T n" "length vs = n"
    and room: "room m b (array_size T sz vs)" and x: "mapped m x 8" "x + 8 \<le> top_of b"
  obtains m1 m2 m' where
    "Array_Data_New dbg T (of_nat n) (m, b) = Inr (top_of b, m1, advance b (array_bytes T n))"
    "store64 m1 x (of_nat (top_of b)) = Inr m2"
    "ser vs (top_of b) (m2, advance b (array_bytes T n)) = Inr ((NONE, map rel vs), m', advance b (array_size T sz vs))"
    "writes_only ({x..<x + 8} \<union> span b (array_size T sz vs)) m m'" "pointer_ptr m' x = Inr (top_of b)"
    "stored {} (\<lambda>m. des m (top_of b)) m' (span b (array_size T sz vs)) vs"
proof -
  let ?a = "top_of b" and ?h = "array_bytes T n" and ?k = "array_size T sz vs"
  have "room m b (?h + sum_list (map sz vs))" using room ok(3) by (simp add: array_size_def)
  from Array_Data_New_room [OF ok(2) this] obtain m1 where
    new: "Array_Data_New dbg T (of_nat n) (m, b) = Inr (?a, m1, advance b ?h)"
    and f1: "writes_only (span b ?h) m m1" and hdr: "header m1 ?a n" by blast
  let ?m2 = "poke m1 x (bytes_of_word 8 (of_nat ?a :: u64))"
  have mp: "mapped m1 x 8" using x(1) writes_only_mapped [OF f1] by simp
  then have f2: "writes_only {x..<x + 8} m1 ?m2" by (intro writes_only_poke) simp_all
  have hdr2: "header ?m2 ?a (length vs)"
    using header_same [OF hdr writes_only_same [OF f2]] x(2) ok(3) by auto
  have "room ?m2 b ?k" using room writes_only_room [OF f1] writes_only_room [OF f2] by simp
  from array_body [OF codec ok(1) hdr2 this] obtain m' where
    ser: "ser vs ?a (?m2, advance b ?h) = Inr ((NONE, map rel vs), m', advance b ?k)"
    and f3: "writes_only (span b ?k) ?m2 m'" and st: "stored {} (\<lambda>m. des m ?a) m' (span b ?k) vs"
    unfolding ok(3) by blast
  have "same_on {x..<x + 8} ?m2 m'" by (rule writes_only_same [OF f3]) (use x(2) in \<open>auto simp: span_def\<close>)
  then have "peek64 m' x = of_nat ?a" by (simp add: same_on_peek(1))
  moreover have "mapped m' x 8" using mp writes_only_mapped [OF f3] by (simp add: mapped_poke)
  moreover have "?a < 18446744073709551616" using room by (simp add: room_def)
  ultimately have ptr: "pointer_ptr m' x = Inr ?a" by (simp add: pointer_ptr_def load64_eq unat_of_nat)
  have "span b ?h \<union> {x..<x + 8} \<union> span b ?k \<subseteq> {x..<x + 8} \<union> span b ?k"
    using ok(3) by (auto simp: span_def array_size_def)
  then have fr: "writes_only ({x..<x + 8} \<union> span b ?k) m m'"
    by (rule writes_only_mono [OF writes_only_trans [OF writes_only_trans [OF f1 f2] f3]])
  have "store64 m1 x (of_nat ?a) = Inr ?m2" using mp by (simp add: store64_eq)
  from that [OF new this ser fr ptr st] show thesis .
qed

text \<open>A map is its two words, the pointers to its arrays, and the arrays.\<close>

lemma map_written:
  assumes keys: "elements_codec (\<lambda>vs a. serk MapIterator vs a (Some (MapKeyValidateParamsFactory_Get (DataType K)))) desk
      (storage_bytes (DataType K)) szk relk okk"
    and vals: "elements_codec (\<lambda>vs a. serv MapIterator vs a (Some p)) desv (storage_bytes (DataType V)) szv relv okl"
    and ok: "okk ks" "okl vs" "fits_header (DataType K) n" "fits_header (DataType V) n"
    and kvs: "map fst kvs = ks" "map snd kvs = vs" "length kvs = n"
    and k1: "array_size (DataType K) szk ks = k1" and k2: "array_size (DataType V) szv vs = k2"
    and rm: "room m b (24 + (k1 + k2))"
  obtains m' where
    "SerializeMap dbg K V serk serv (MapV kvs) (Some p) (m, b) =
      Inr ((NONE, top_of b, MapV (zip ks (map relv vs))), m', advance b (24 + (k1 + k2)))"
    "writes_only (span b (24 + (k1 + k2))) m m'"
    "pointer_ptr m' (top_of b + 8) = Inr (top_of b + 24)" "pointer_ptr m' (top_of b + 16) = Inr (top_of b + 24 + k1)"
    "stored {} (\<lambda>m. desk m (top_of b + 24)) m' {top_of b + 24..<top_of b + 24 + k1} ks"
    "stored {} (\<lambda>m. desv m (top_of b + 24 + k1)) m' {top_of b + 24 + k1..<top_of b + 24 + k1 + k2} vs"
proof -
  let ?a = "top_of b" and ?b1 = "advance b 24" and ?b2 = "advance b (24 + k1)"
  have len: "length ks = n" "length vs = n" using kvs by auto
  have mp: "mapped m (?a + 8) 8" "mapped m (?a + 16) 8" using rm by (auto simp: room_def intro: mapped_sub)
  from Map_Data_New_room [OF rm] obtain m0 where
    new: "Map_Data_New dbg (m, b) = Inr (?a, m0, ?b1)" and f0: "writes_only (span b 24) m m0" by blast
  have "dom m0 = dom m" using f0 by (simp add: writes_only_def)
  note adv1 = room_advance [OF rm _ this, simplified]
  have "8 dvd k1" using dvd_array_size [OF keys ok(1)] k1 by blast
  note adv2 = room_advance [OF adv1(1) this, simplified]
  have "room m0 ?b1 (array_size (DataType K) szk ks)" "mapped m0 (?a + 8) 8" "?a + 8 + 8 \<le> top_of ?b1"
    using room_less [OF adv1(1), of k1] mp(1) writes_only_mapped [OF f0] adv1(2) by (simp_all add: k1)
  from map_part [OF keys ok(1,3) len(1) this, of dbg, unfolded k1] obtain m1 m2 m3 where p1:
    "Array_Data_New dbg (DataType K) (of_nat n) (m0, ?b1) = Inr (top_of ?b1, m1, advance ?b1 (array_bytes (DataType K) n))"
    "store64 m1 (?a + 8) (of_nat (top_of ?b1)) = Inr m2"
    "serk MapIterator ks (top_of ?b1) (Some (MapKeyValidateParamsFactory_Get (DataType K)))
       (m2, advance ?b1 (array_bytes (DataType K) n)) = Inr ((NONE, map relk ks), m3, advance ?b1 k1)"
    and f1: "writes_only ({?a + 8..<?a + 8 + 8} \<union> span ?b1 k1) m0 m3" and ka: "pointer_ptr m3 (?a + 8) = Inr (top_of ?b1)"
    and st1: "stored {} (\<lambda>m. desk m (top_of ?b1)) m3 (span ?b1 k1) ks" .
  have "dom m3 = dom m0" using f1 by (simp add: writes_only_def)
  then have "room m3 ?b2 (array_size (DataType V) szv vs)" "mapped m3 (?a + 16) 8" "?a + 16 + 8 \<le> top_of ?b2"
    using adv2(1) mp(2) writes_only_mapped [OF f0] writes_only_mapped [OF f1] adv1(2) adv2(2) by (simp_all add: k2)
  from map_part [OF vals ok(2,4) len(2) this, of dbg, unfolded k2] obtain m4 m5 m6 where p2:
    "Array_Data_New dbg (DataType V) (of_nat n) (m3, ?b2) = Inr (top_of ?b2, m4, advance ?b2 (array_bytes (DataType V) n))"
    "store64 m4 (?a + 16) (of_nat (top_of ?b2)) = Inr m5"
    "serv MapIterator vs (top_of ?b2) (Some p) (m5, advance ?b2 (array_bytes (DataType V) n)) = Inr ((NONE, map relv vs), m6, advance ?b2 k2)"
    and f2: "writes_only ({?a + 16..<?a + 16 + 8} \<union> span ?b2 k2) m3 m6" and va: "pointer_ptr m6 (?a + 16) = Inr (top_of ?b2)"
    and st2: "stored {} (\<lambda>m. desv m (top_of ?b2)) m6 (span ?b2 k2) vs" .
  have tops: "top_of ?b1 = ?a + 24" "top_of ?b2 = ?a + 24 + k1" using adv1(2) adv2(2) by simp_all
  have sub: "span b 24 \<union> ({?a + 8..<?a + 8 + 8} \<union> span ?b1 k1) \<union> ({?a + 16..<?a + 16 + 8} \<union> span ?b2 k2) \<subseteq> span b (24 + (k1 + k2))"
    by (auto simp: span_def tops)
  have keep: "same_on {?a + 8..<?a + 8 + 8} m3 m6" "same_on ({} \<union> span ?b1 k1) m3 m6"
    by (rule writes_only_same [OF f2], force simp: span_def tops)+
  show thesis
  proof (rule that)
    show "SerializeMap dbg K V serk serv (MapV kvs) (Some p) (m, b) =
        Inr ((NONE, ?a, MapV (zip ks (map relv vs))), m6, advance b (24 + (k1 + k2)))"
      using new p1 p2 by (simp add: SerializeMap_def kvs add.assoc)
    show "writes_only (span b (24 + (k1 + k2))) m m6"
      by (rule writes_only_mono [OF writes_only_trans [OF writes_only_trans [OF f0 f1] f2] sub])
    show "pointer_ptr m6 (?a + 8) = Inr (?a + 24)"
      using ka same_on_mapped [OF keep(1)] same_on_peek(1) [OF keep(1)]
      by (simp add: pointer_ptr_def load64_eq tops split: if_splits)
    show "pointer_ptr m6 (?a + 16) = Inr (?a + 24 + k1)" using va tops by simp
    show "stored {} (\<lambda>m. desk m (?a + 24)) m6 {?a + 24..<?a + 24 + k1} ks"
      using stored_same [OF st1 keep(2)] by (simp add: span_def tops)
    show "stored {} (\<lambda>m. desv m (?a + 24 + k1)) m6 {?a + 24 + k1..<?a + 24 + k1 + k2} vs"
      using st2 by (simp add: span_def tops)
  qed
qed

text \<open>Inserting entries in the order of their keys builds the map they came from.\<close>

definition key_before :: "(mojo_value \<Rightarrow> mojo_value \<Rightarrow> bool) \<Rightarrow> mojo_value \<Rightarrow> mojo_value \<Rightarrow> bool" where
  "key_before lt k k' \<longleftrightarrow> lt k k' \<and> \<not> lt k' k"

lemma map_insert_by_last:
  "\<forall>k' \<in> set (map fst kvs). key_before lt k' k \<Longrightarrow> map_insert_by lt k v kvs = kvs @ [(k, v)]"
  by (induction kvs) (auto simp: key_before_def)

lemma fold_map_insert_by:
  "sorted_wrt (key_before lt) (map fst (acc @ kvs)) \<Longrightarrow> fold (\<lambda>(k, v). map_insert_by lt k v) kvs acc = acc @ kvs"
proof (induction kvs arbitrary: acc)
  case (Cons kv kvs)
  obtain k v where kv: "kv = (k, v)" by force
  have "map_insert_by lt k v acc = acc @ [kv]"
    using map_insert_by_last [of acc lt k v] Cons.prems by (simp add: kv sorted_wrt_append)
  with Cons.IH [of "acc @ [kv]"] Cons.prems show ?case by (simp add: kv)
qed simp

lemma Map_new_sorted:
  assumes "sorted_wrt (key_before lt) ks" and "map fst kvs = ks" and "map snd kvs = vs"
  shows "Map_new dbg lt ks vs = Inr (MapV kvs)"
proof -
  have "zip ks vs = kvs" using assms(2,3) by (auto simp: zip_map_fst_snd)
  moreover have "length ks = length vs" using assms(2,3) by auto
  ultimately show ?thesis using fold_map_insert_by [of lt "[]" kvs] assms by (simp add: Map_new_def)
qed

lemma pointer_ptr_same: "pointer_ptr m x = Inr p \<Longrightarrow> same_on {x..<x + 8} m m' \<Longrightarrow> pointer_ptr m' x = Inr p"
  using same_on_mapped [of x 8 m m'] same_on_peek(1) [of x m m']
  by (simp add: pointer_ptr_def load64_eq split: if_splits)

lemma stored_pointer:
  assumes "pointer_ptr m x = Inr p" and "p \<noteq> 0" and "stored {} (\<lambda>m. des m p) m S vs" and "{x..<x + 8} \<subseteq> H"
  shows "stored H (\<lambda>m. bindR (pointer_ptr m x) (Array_Deserialize des m)) m S (ArrayV vs)"
proof (rule stored_cong [OF stored_mono [OF stored_map [OF assms(3), of ArrayV]]])
  fix m' assume "same_on (H \<union> S) m m'"
  then have "same_on {x..<x + 8} m m'" using assms(4) by (auto simp: same_on_def)
  then show "bindR (pointer_ptr m' x) (Array_Deserialize des m') = bindR (des m' p) (\<lambda>(v, m). Inr (ArrayV v, m))"
    using pointer_ptr_same [OF assms(1)] assms(2) by (simp add: Array_Deserialize_def)
qed auto

lemma map_read:
  assumes "stored H (\<lambda>m. bindR (pointer_ptr m (a + 8)) (Array_Deserialize desk m)) m S1 (ArrayV ks)"
    and "stored H (\<lambda>m. bindR (pointer_ptr m (a + 16)) (Array_Deserialize desv m)) m S2 (ArrayV vs)"
    and "S1 \<inter> (H \<union> S2) = {}" and "a \<noteq> 0" and "Map_new dbg lt ks vs = Inr v"
  shows "stored H (\<lambda>m. Map_Deserialize dbg lt desk desv m a) m (S1 \<union> S2) v"
  unfolding stored_def
proof (intro allI impI)
  fix m' assume "same_on (H \<union> (S1 \<union> S2)) m m'"
  with storedD [OF stored_seq [OF assms(1-3), of Pair], of m'] obtain m'' where "same_on (- (S1 \<union> S2)) m' m''"
    and "bindR (bindR (pointer_ptr m' (a + 8)) (Array_Deserialize desk m')) (\<lambda>(v, m).
      bindR (bindR (pointer_ptr m (a + 16)) (Array_Deserialize desv m)) (\<lambda>(w, m). Inr ((v, w), m))) =
      Inr ((ArrayV ks, ArrayV vs), m'')"
    by blast
  then show "\<exists>m''. Map_Deserialize dbg lt desk desv m' a = Inr (v, m'') \<and> same_on (- (S1 \<union> S2)) m' m''"
    using assms(4,5) by (auto simp: Map_Deserialize_def res_simps elements_or_empty_def)
qed

definition map_value_size :: "array_type \<Rightarrow> array_type \<Rightarrow> (mojo_value \<Rightarrow> nat) \<Rightarrow> (mojo_value \<Rightarrow> nat) \<Rightarrow> mojo_value \<Rightarrow> nat" where
  "map_value_size K V szk szv v = (case v of
     MapV kvs \<Rightarrow> 24 + (array_size K szk (map fst kvs) + array_size V szv (map snd kvs))
   | _ \<Rightarrow> 0)"

definition map_left :: "(mojo_value \<Rightarrow> mojo_value) \<Rightarrow> mojo_value \<Rightarrow> mojo_value" where
  "map_left rel v = (case v of MapV kvs \<Rightarrow> MapV (zip (map fst kvs) (map rel (map snd kvs))) | _ \<Rightarrow> v)"

definition map_ok ::
  "array_type \<Rightarrow> array_type \<Rightarrow> (mojo_value \<Rightarrow> mojo_value \<Rightarrow> bool) \<Rightarrow> (mojo_value list \<Rightarrow> bool) \<Rightarrow>
   (ArrayValidateParams \<Rightarrow> mojo_value list \<Rightarrow> bool) \<Rightarrow> ArrayValidateParams option \<Rightarrow> mojo_value \<Rightarrow> bool"
where
  "map_ok K V lt okk okl q v \<longleftrightarrow> (case v of
     MapV kvs \<Rightarrow> (case q of
         Some p \<Rightarrow> fits_header K (length kvs) \<and> fits_header V (length kvs) \<and> okk (map fst kvs) \<and> okl p (map snd kvs) \<and>
           sorted_wrt (key_before lt) (map fst kvs)
       | None \<Rightarrow> False)
   | NullV \<Rightarrow> True
   | _ \<Rightarrow> False)"

lemma map_codec:
  assumes keys: "elements_codec (\<lambda>vs a. serk MapIterator vs a (Some (MapKeyValidateParamsFactory_Get (DataType K)))) desk
      (storage_bytes (DataType K)) szk relk okk"
    and vals: "\<And>p. elements_codec (\<lambda>vs a. serv MapIterator vs a (Some p)) desv (storage_bytes (DataType V)) szv relv (okl p)"
  shows "pointer_codec (\<lambda>v. SerializeMap dbg K V serk serv v q) (Map_Deserialize dbg lt desk desv)
    (map_value_size (DataType K) (DataType V) szk szv) (map_left relv) (map_ok (DataType K) (DataType V) lt okk okl q)"
proof unfold_locales
  fix v m b
  let ?size = "map_value_size (DataType K) (DataType V) szk szv v"
  assume ok: "map_ok (DataType K) (DataType V) lt okk okl q v"
  then consider (null) "v = NullV"
    | (map) kvs p where "v = MapV kvs" "q = Some p" "fits_header (DataType K) (length kvs)" "fits_header (DataType V) (length kvs)"
      "okk (map fst kvs)" "okl p (map snd kvs)" "sorted_wrt (key_before lt) (map fst kvs)"
    by (auto simp: map_ok_def split: mojo_value.splits option.splits)
  note cases = this
  show "8 dvd ?size"
    using cases by cases (auto simp: map_value_size_def intro!: dvd_add dvd_array_size [OF keys] dvd_array_size [OF vals])
  assume room: "room m b ?size"
  from cases show "\<exists>p. p < 18446744073709551616 \<and> (p = 0 \<longleftrightarrow> v = NullV) \<and>
      emits {} {} m b ?size (SerializeMap dbg K V serk serv v q (m, b)) (NONE, p, map_left relv v)
        (\<lambda>m. Map_Deserialize dbg lt desk desv m p) v"
  proof cases
    case null
    then show ?thesis using emits_null [of "Map_Deserialize dbg lt desk desv"]
      by (simp add: SerializeMap_def map_value_size_def map_left_def Map_Deserialize_def)
  next
    case map
    let ?a = "top_of b" and ?H = "{top_of b..<top_of b + 24}"
    define k1 where "k1 = array_size (DataType K) szk (map fst kvs)"
    define k2 where "k2 = array_size (DataType V) szv (map snd kvs)"
    have sz: "?size = 24 + (k1 + k2)" using map(1) by (simp add: map_value_size_def k1_def k2_def)
    have rm: "room m b (24 + (k1 + k2))" using room sz by simp
    from map_written [where serk = serk and serv = serv and p = p and dbg = dbg, OF keys vals [of p] map(5,6,3,4)
        refl refl refl k1_def [symmetric] k2_def [symmetric] rm]
    obtain m' where ser: "SerializeMap dbg K V serk serv (MapV kvs) (Some p) (m, b) =
        Inr ((NONE, ?a, MapV (zip (map fst kvs) (map relv (map snd kvs)))), m', advance b (24 + (k1 + k2)))"
      and fr: "writes_only (span b (24 + (k1 + k2))) m m'"
      and ptr: "pointer_ptr m' (?a + 8) = Inr (?a + 24)" "pointer_ptr m' (?a + 16) = Inr (?a + 24 + k1)"
      and st: "stored {} (\<lambda>m. desk m (?a + 24)) m' {?a + 24..<?a + 24 + k1} (map fst kvs)"
        "stored {} (\<lambda>m. desv m (?a + 24 + k1)) m' {?a + 24 + k1..<?a + 24 + k1 + k2} (map snd kvs)" .
    have "stored ?H (\<lambda>m. Map_Deserialize dbg lt desk desv m ?a) m'
        ({?a + 24..<?a + 24 + k1} \<union> {?a + 24 + k1..<?a + 24 + k1 + k2}) v"
      by (rule map_read [OF stored_pointer [where des = desk, OF ptr(1) _ st(1)]
            stored_pointer [where des = desv, OF ptr(2) _ st(2)] _ room_nonnull [OF rm]])
        (use map in \<open>auto simp: Map_new_sorted\<close>)
    then have "stored {} (\<lambda>m. Map_Deserialize dbg lt desk desv m ?a) m' (span b (24 + (k1 + k2))) v"
      by (rule stored_mono) (auto simp: span_def)
    with ser fr have "emits {} {} m b ?size (SerializeMap dbg K V serk serv v q (m, b)) (NONE, ?a, map_left relv v)
        (\<lambda>m. Map_Deserialize dbg lt desk desv m ?a) v"
      unfolding sz by (simp add: emits_def map(1,2) map_left_def)
    moreover have "?a < 18446744073709551616" "?a \<noteq> 0" using rm room_nonnull [OF rm] by (simp_all add: room_def)
    ultimately show ?thesis using map(1) by auto
  qed
qed

end
