(* ===== verification/Cpp_SerializationProperties.thy ===== *)
theory Cpp_SerializationProperties
  imports Cpp_SerializationRoundTrip
begin

text \<open>
  The contracts of all wrapper types, by induction on the type, and the sizes that \<^verbatim>\<open>GetSerializedSize_\<close>
  computes for them: arrays of the C++ bindings nested to any depth, with maps, strings, handles and
  generated structs inside, are serialised in exactly that size and read back as they were.
\<close>

section \<open>Values that can be serialised\<close>

text \<open>What the classes that the generator emits for structs promise: the values they can serialise and what
  is left of them.\<close>

record struct_spec =
  struct_ok :: "nat \<Rightarrow> mojo_value \<Rightarrow> bool"
  struct_left :: "nat \<Rightarrow> mojo_value \<Rightarrow> mojo_value"

text \<open>The bytes that what an element points to takes.\<close>

primrec wire_size :: "wrapper \<Rightarrow> generated_serializers \<Rightarrow> mojo_value \<Rightarrow> nat" where
  "wire_size (Pod n) gen = (\<lambda>_. 0)"
| "wire_size BoolW gen = (\<lambda>_. 0)"
| "wire_size ScopedHandle gen = (\<lambda>_. 0)"
| "wire_size InterfaceRequest gen = (\<lambda>_. 0)"
| "wire_size InterfaceHandle gen = (\<lambda>_. 0)"
| "wire_size (StructW c) gen = (\<lambda>v. if v = NullV then 0 else unat (Struct_GetSerializedSize gen c v))"
| "wire_size StringW gen = string_size"
| "wire_size (ArrayW E) gen = array_value_size (DataType E) (wire_size E gen)"
| "wire_size (MapW K V) gen = map_value_size (DataType K) (DataType V) (wire_size K gen) (wire_size V gen)"
| "wire_size (UnionW c) gen = (\<lambda>_. 0)"

text \<open>What is left of a value when its handles are taken out.\<close>

primrec left_of :: "wrapper \<Rightarrow> struct_spec \<Rightarrow> mojo_value \<Rightarrow> mojo_value" where
  "left_of (Pod n) sp = (\<lambda>v. v)"
| "left_of BoolW sp = (\<lambda>v. v)"
| "left_of ScopedHandle sp = (\<lambda>_. HandleV MOJO_HANDLE_INVALID)"
| "left_of InterfaceRequest sp = (\<lambda>_. HandleV MOJO_HANDLE_INVALID)"
| "left_of InterfaceHandle sp = (\<lambda>_. InterfaceV MOJO_HANDLE_INVALID 0)"
| "left_of (StructW c) sp = struct_left sp c"
| "left_of StringW sp = (\<lambda>v. v)"
| "left_of (ArrayW E) sp = array_left (left_of E sp)"
| "left_of (MapW K V) sp = map_left (left_of V sp)"
| "left_of (UnionW c) sp = (\<lambda>v. v)"

text \<open>
  Lists of values of a wrapper type, all of them admitted by the validation parameters of the array
  they are in. Keys of a map are numbers, bools or strings in the order of the map. There are no unions.
\<close>

definition pointers_ok :: "(mojo_value \<Rightarrow> bool) \<Rightarrow> ArrayValidateParams \<Rightarrow> mojo_value list \<Rightarrow> bool" where
  "pointers_ok okv p vs \<longleftrightarrow> list_all (\<lambda>v. okv v \<and> (element_is_nullable p \<or> v \<noteq> NullV)) vs"

definition key_type :: "wrapper \<Rightarrow> bool" where
  "key_type K \<longleftrightarrow> (case K of Pod _ \<Rightarrow> True | BoolW \<Rightarrow> True | StringW \<Rightarrow> True | _ \<Rightarrow> False)"

definition value_type :: "wrapper \<Rightarrow> bool" where
  "value_type V \<longleftrightarrow> V \<noteq> InterfaceRequest \<and> V \<noteq> InterfaceHandle"

primrec elements_ok :: "wrapper \<Rightarrow> struct_spec \<Rightarrow> generated_serializers \<Rightarrow> ArrayValidateParams \<Rightarrow> mojo_value list \<Rightarrow> bool" where
  "elements_ok (Pod n) sp gen p vs \<longleftrightarrow> pod_params p \<and> list_all (pod_ok n) vs"
| "elements_ok BoolW sp gen p vs \<longleftrightarrow> pod_params p \<and> list_all bool_ok vs"
| "elements_ok ScopedHandle sp gen p vs \<longleftrightarrow> element_validate_params p = None \<and> list_all (handle_ok p) vs"
| "elements_ok InterfaceRequest sp gen p vs \<longleftrightarrow> element_validate_params p = None \<and> list_all (handle_ok p) vs"
| "elements_ok InterfaceHandle sp gen p vs \<longleftrightarrow> element_validate_params p = None \<and> list_all (interface_ok p) vs"
| "elements_ok (StructW c) sp gen p vs \<longleftrightarrow>
     pointers_ok (\<lambda>v. element_validate_params p = None \<and> struct_ok sp c v) p vs"
| "elements_ok StringW sp gen p vs \<longleftrightarrow> pointers_ok (\<lambda>v. string_params (element_validate_params p) \<and> string_ok v) p vs"
| "elements_ok (ArrayW E) sp gen p vs \<longleftrightarrow>
     pointers_ok (array_ok (DataType E) (elements_ok E sp gen) (element_validate_params p)) p vs"
| "elements_ok (MapW K V) sp gen p vs \<longleftrightarrow> key_type K \<and> value_type V \<and>
     pointers_ok (map_ok (DataType K) (DataType V) (Key_less gen K)
       (elements_ok K sp gen (MapKeyValidateParamsFactory_Get (DataType K))) (elements_ok V sp gen)
       (element_validate_params p)) p vs"
| "elements_ok (UnionW c) sp gen p vs \<longleftrightarrow> False"

section \<open>The contract of every wrapper type\<close>

definition structs_serialize :: "generated_serializers \<Rightarrow> struct_spec \<Rightarrow> bool" where
  "structs_serialize gen sp \<longleftrightarrow> (\<forall>c. pointer_codec (Struct_Serialize gen c) (DeserializeCaller_Run_struct gen c)
     (wire_size (StructW c) gen) (struct_left sp c) (struct_ok sp c))"

lemma elements_codec_weaken:
  assumes "elements_codec ser des bytes sz rel okl" and "\<And>vs. okl' vs \<Longrightarrow> okl vs"
    and "\<And>vs a st. okl' vs \<Longrightarrow> ser' vs a st = ser vs a st" and "\<And>m a. des' m a = des m a"
  shows "elements_codec ser' des' bytes sz rel okl'"
proof -
  have "des' = des" using assms(4) by (intro ext) simp
  then show ?thesis using assms(1-3) by (simp add: elements_codec_def)
qed

lemma pointer_elements:
  assumes "pointer_codec (\<lambda>v. Run v (element_validate_params p)) des sz rel okv" and "sizeof_StorageType T = 8" and "T \<noteq> Bool"
  shows "elements_codec (\<lambda>vs a. SerializeElements_pointer dbg T Run vs a (Some p)) (DeserializeElements_pointer dbg T des)
    (storage_bytes T) sz rel (pointers_ok okv p)"
  using element_codec.loop_codec [OF pointer_element [where Run = Run and p = p and dbg = dbg, OF assms(1,2)]] assms(2,3)
  by (simp add: SerializeElements_pointer_def [abs_def] DeserializeElements_pointer_def [abs_def]
      storage_bytes_def [abs_def] pointers_ok_def [abs_def])

lemma DataType_Bool [simp]: "DataType E = Bool \<longleftrightarrow> E = BoolW"
  by (cases E) auto

lemma handle_elements:
  "elements_codec (\<lambda>vs a. SerializeElements ScopedHandle dbg gen it vs a (Some p)) (DeserializeElements ScopedHandle dbg gen)
    (storage_bytes (DataType ScopedHandle)) (wire_size ScopedHandle gen) (left_of ScopedHandle sp) (elements_ok ScopedHandle sp gen p)"
proof -
  have "storage_bytes HandleType = (\<lambda>n. 4 * n)" by (auto simp: storage_bytes_def sizeof_MojoHandle_def)
  then show ?thesis
    by (simp, intro elements_codec_weaken [OF handle_element.loop_codec [of dbg p]])
      (auto simp: SerializeElements_handle_def DeserializeElements_handle_def)
qed

lemma elements_codec_wrapper:
  assumes structs: "structs_serialize gen sp"
  shows "elements_codec (\<lambda>vs a. SerializeElements E dbg gen it vs a (Some p)) (DeserializeElements E dbg gen)
    (storage_bytes (DataType E)) (wire_size E gen) (left_of E sp) (elements_ok E sp gen p)"
proof (induction E arbitrary: p it)
  case (Pod n)
  show ?case
    using numbers.elements_codec_axioms [of n dbg gen it p] by (simp add: storage_bytes_def [abs_def])
next
  case BoolW
  show ?case using bools.elements_codec_axioms [of dbg gen it p] by (simp add: storage_bytes_def [abs_def])
next
  case ScopedHandle
  show ?case by (rule handle_elements)
next
  case InterfaceRequest
  have "elements_ok InterfaceRequest sp gen p = elements_ok ScopedHandle sp gen p" by (rule ext) simp
  with handle_elements [of dbg gen it p sp] show ?case
    by (simp add: SerializeElements_request_def DeserializeElements_request_def del: elements_ok.simps)
next
  case InterfaceHandle
  have "storage_bytes InterfaceType = (\<lambda>n. 8 * n)" by (auto simp: storage_bytes_def)
  then show ?case
    by (simp, intro elements_codec_weaken [OF interface_element.loop_codec [of dbg p]])
      (auto simp: SerializeElements_interface_def DeserializeElements_interface_def)
next
  case (StructW c)
  have "pointer_codec (\<lambda>v. SerializeCaller_Run_struct dbg gen c v (element_validate_params p))
      (DeserializeCaller_Run_struct gen c) (wire_size (StructW c) gen) (struct_left sp c)
      (\<lambda>v. element_validate_params p = None \<and> struct_ok sp c v)"
    using structs by (auto simp: structs_serialize_def pointer_codec_def SerializeCaller_Run_struct_def)
  from pointer_elements [where Run = "SerializeCaller_Run_struct dbg gen c" and p = p and T = "StructPtr c" and dbg = dbg, OF this]
  show ?case by simp
next
  case StringW
  from pointer_elements [where Run = "SerializeCaller_Run_string dbg" and p = p and T = "ArrayPtr (Primitive 1)" and dbg = dbg,
      OF strings.pointer_codec_axioms]
  show ?case by simp
next
  case (ArrayW E)
  from pointer_elements [where Run = "SerializeArray dbg E (SerializeElements E dbg gen)" and p = p
      and T = "ArrayPtr (DataType E)" and dbg = dbg, OF array_codec [where ser = "SerializeElements E dbg gen", OF ArrayW.IH]]
  show ?case by simp
next
  case (MapW K V)
  note codec = pointer_elements [where Run = "SerializeMap dbg K V (SerializeElements K dbg gen) (SerializeElements V dbg gen)" and p = p
      and T = "MapPtr (DataType K) (DataType V)" and dbg = dbg,
      OF map_codec [where serk = "SerializeElements K dbg gen" and serv = "SerializeElements V dbg gen"
        and lt = "Key_less gen K", OF MapW.IH(1) MapW.IH(2)]]
  show ?case by (simp, rule elements_codec_weaken [OF codec]) simp_all
next
  case (UnionW c)
  show ?case by (simp add: elements_codec_def)
qed

section \<open>The sizes the code computes\<close>

lemma Align_of_nat: "n < 18446744073709551616 \<Longrightarrow> Align (of_nat n) = of_nat (round8 n)"
  by (simp add: word_unat_eq_iff unat_Align unat_of_nat)

lemma fold_sizes:
  "(\<And>x. x \<in> set xs \<Longrightarrow> f x = of_nat (sz x)) \<Longrightarrow> fold (\<lambda>x size. size + f x) xs acc = acc + (of_nat (sum_list (map sz xs)) :: u64)"
  by (induction xs arbitrary: acc) (simp_all add: add.assoc)

lemma fold_pointer_sizes:
  "(\<And>v. v \<in> set vs \<Longrightarrow> v \<noteq> NullV \<Longrightarrow> f v = of_nat (sz v)) \<Longrightarrow> sz NullV = 0 \<Longrightarrow>
   fold (\<lambda>v size. if v \<noteq> NullV then size + f v else size) vs acc = acc + (of_nat (sum_list (map sz vs)) :: u64)"
  by (induction vs arbitrary: acc) (auto simp: add.assoc)

lemma wire_size_null [simp]: "wire_size E gen NullV = 0"
  by (cases E) (simp_all add: string_size_def array_value_size_def map_value_size_def)

lemma aligned_sizes:
  "fits_header T n \<Longrightarrow> T \<noteq> Bool \<Longrightarrow> Align (of_nat n * of_nat (sizeof_StorageType T)) = of_nat (round8 (storage_bytes T n))"
  "fits_header Bool n \<Longrightarrow> Align ((of_nat n + 7) div 8) = of_nat (round8 (storage_bytes Bool n))"
proof -
  assume "fits_header T n" "T \<noteq> Bool"
  then show "Align (of_nat n * of_nat (sizeof_StorageType T)) = of_nat (round8 (storage_bytes T n))"
    using Align_of_nat [of "sizeof_StorageType T * n"] by (simp add: fits_header_def storage_bytes_def mult.commute)
next
  assume "fits_header Bool n"
  moreover from this have "(of_nat n + 7 :: u64) div 8 = of_nat ((n + 7) div 8)"
    by (simp add: fits_header_def word_unat_eq_iff unat_div_distrib unat_word_ariths(1) unat_of_nat)
  ultimately show "Align ((of_nat n + 7) div 8) = of_nat (round8 (storage_bytes Bool n))"
    by (simp add: Align_of_nat fits_header_def storage_bytes_def)
qed

lemma round8_pointers: "round8 (8 * n) = 8 * n"
  by (simp add: round8_def)

lemma array_size_eq:
  assumes "fits_header (DataType E) (length vs)" and "\<forall>c. E \<noteq> UnionW c"
    and "\<And>v. v \<in> set vs \<Longrightarrow> v \<noteq> NullV \<Longrightarrow> item v = of_nat (wire_size E gen v)"
  shows "ArraySerializer_GetSerializedSize E item vs = of_nat (array_size (DataType E) (wire_size E gen) vs)"
proof -
  note sums = fold_pointer_sizes [of vs item "wire_size E gen", OF assms(3) wire_size_null]
  show ?thesis
    using assms(1,2) aligned_sizes(1) [of "DataType E" "length vs"] aligned_sizes(2) [of "length vs"] sums
    by (cases E) (simp_all add: array_size_defs array_size_def array_bytes_def round8_pointers
      storage_bytes_def [of "StructPtr _"] storage_bytes_def [of "ArrayPtr _"] storage_bytes_def [of "MapPtr _ _"])
qed

lemma base_size:
  assumes "fits_header (DataType E) n" and "\<forall>c. E \<noteq> UnionW c" and "value_type E"
  shows "of_nat sizeof_ArrayHeader + GetBaseArraySize E (of_nat n) = of_nat (array_bytes (DataType E) n)"
  using assms aligned_sizes(1) [of "DataType E" n] aligned_sizes(2) [of n]
  by (cases E) (simp_all add: GetBaseArraySize_def array_bytes_def value_type_def round8_pointers
    storage_bytes_def [of "StructPtr _"] storage_bytes_def [of "ArrayPtr _"] storage_bytes_def [of "MapPtr _ _"])

lemma item_size:
  assumes "v \<noteq> NullV \<Longrightarrow> GetSerializedSize E gen v = of_nat (wire_size E gen v)" and "\<forall>c. E \<noteq> UnionW c" and "value_type E"
  shows "GetItemSize E (GetSerializedSize E gen) v = of_nat (wire_size E gen v)"
proof (cases "v = NullV")
  case True
  have "GetItemSize E (GetSerializedSize E gen) NullV = 0"
    using assms(2,3) by (cases E) (auto simp: GetItemSize_def value_type_def String_GetSerializedSize_def)
  with True show ?thesis by simp
next
  case False
  with assms show ?thesis by (cases E) (auto simp: GetItemSize_def value_type_def)
qed

lemma map_size_eq:
  assumes "fits_header (DataType K) (length kvs)" "fits_header (DataType V) (length kvs)"
    and "\<forall>c. K \<noteq> UnionW c" "\<forall>c. V \<noteq> UnionW c" "value_type K" "value_type V"
    and keys: "\<And>v. v \<in> set (map fst kvs) \<Longrightarrow> v \<noteq> NullV \<Longrightarrow> GetSerializedSize K gen v = of_nat (wire_size K gen v)"
    and vals: "\<And>v. v \<in> set (map snd kvs) \<Longrightarrow> v \<noteq> NullV \<Longrightarrow> GetSerializedSize V gen v = of_nat (wire_size V gen v)"
  shows "GetSerializedSize (MapW K V) gen (MapV kvs) = of_nat (wire_size (MapW K V) gen (MapV kvs))"
proof -
  have "fold (\<lambda>(k, _) size. size + GetItemSize K (GetSerializedSize K gen) k) kvs 0 =
      of_nat (sum_list (map (wire_size K gen) (map fst kvs)))"
    using fold_sizes [of kvs "\<lambda>kv. GetItemSize K (GetSerializedSize K gen) (fst kv)" "\<lambda>kv. wire_size K gen (fst kv)" 0]
      item_size [OF keys] assms(3,5) by (simp add: case_prod_unfold comp_def)
  moreover have "fold (\<lambda>(_, v) size. size + GetItemSize V (GetSerializedSize V gen) v) kvs 0 =
      of_nat (sum_list (map (wire_size V gen) (map snd kvs)))"
    using fold_sizes [of kvs "\<lambda>kv. GetItemSize V (GetSerializedSize V gen) (snd kv)" "\<lambda>kv. wire_size V gen (snd kv)" 0]
      item_size [OF vals] assms(4,6) by (simp add: case_prod_unfold comp_def)
  ultimately show ?thesis
    by (simp add: Map_GetSerializedSize_def Let_def map_value_size_def array_size_def sizeof_MojomMapLayout_def add_ac
        base_size [OF assms(1,3,5), symmetric] base_size [OF assms(2,4,6), symmetric])
qed

lemma elements_ok_union: "elements_ok E sp gen p vs \<Longrightarrow> \<forall>c. E \<noteq> UnionW c"
  by (cases E) auto

lemma key_type_value: "key_type K \<Longrightarrow> value_type K"
  by (cases K) (simp_all add: key_type_def value_type_def)

lemma pointers_okD: "pointers_ok okv p vs \<Longrightarrow> v \<in> set vs \<Longrightarrow> okv v"
  by (simp add: pointers_ok_def list_all_iff)

lemma array_okE:
  assumes "array_ok T okl q v" and "v \<noteq> NullV"
  obtains vs p where "v = ArrayV vs" "fits_header T (length vs)" "okl p vs"
  using assms by (auto simp: array_ok_def split: mojo_value.splits option.splits)

lemma map_okE:
  assumes "map_ok K V lt okk okl q v" and "v \<noteq> NullV"
  obtains kvs p where "v = MapV kvs" "fits_header K (length kvs)" "fits_header V (length kvs)"
    "okk (map fst kvs)" "okl p (map snd kvs)"
  using assms by (auto simp: map_ok_def split: mojo_value.splits option.splits)

lemma value_size_eq:
  "elements_ok E sp gen p vs \<Longrightarrow> v \<in> set vs \<Longrightarrow> v \<noteq> NullV \<Longrightarrow> GetSerializedSize E gen v = of_nat (wire_size E gen v)"
proof (induction E arbitrary: p vs v)
  case StringW
  from pointers_okD [OF StringW(1) [unfolded elements_ok.simps] StringW(2)] StringW(3) obtain bs where
    v: "v = StringV bs" "fits_header (Primitive 1) (length bs)"
    by (auto simp: string_ok_def split: mojo_value.splits)
  then have "Align (of_nat (8 + length bs)) = of_nat (array_bytes (Primitive 1) (length bs))"
    by (simp add: Align_of_nat fits_header_def array_bytes_def storage_bytes_def round8_add del: of_nat_add)
  then show ?case by (simp add: v String_GetSerializedSize_def string_size_def)
next
  case (ArrayW E)
  from pointers_okD [OF ArrayW.prems(1) [unfolded elements_ok.simps] ArrayW.prems(2)] ArrayW.prems(3)
  obtain ws q where v: "v = ArrayV ws" "fits_header (DataType E) (length ws)" and ok: "elements_ok E sp gen q ws"
    by (rule array_okE)
  from array_size_eq [OF v(2) elements_ok_union [OF ok] ArrayW.IH [OF ok]] show ?case
    by (simp add: v(1) Array_GetSerializedSize_def array_value_size_def)
next
  case (MapW K V)
  have types: "key_type K" "value_type V" and ok: "map_ok (DataType K) (DataType V) (Key_less gen K)
       (elements_ok K sp gen (MapKeyValidateParamsFactory_Get (DataType K))) (elements_ok V sp gen)
       (element_validate_params p) v"
    using MapW.prems(1,2) pointers_okD by (simp_all only: elements_ok.simps) blast
  from ok MapW.prems(3) obtain kvs q where v: "v = MapV kvs" "fits_header (DataType K) (length kvs)" "fits_header (DataType V) (length kvs)"
    and ok: "elements_ok K sp gen (MapKeyValidateParamsFactory_Get (DataType K)) (map fst kvs)" "elements_ok V sp gen q (map snd kvs)"
    by (rule map_okE)
  show ?case
    unfolding v(1)
    by (rule map_size_eq [OF v(2,3) elements_ok_union [OF ok(1)] elements_ok_union [OF ok(2)] key_type_value [OF types(1)] types(2)])
      (blast intro: MapW.IH(1) [OF ok(1)] MapW.IH(2) [OF ok(2)])+
next
  case (StructW c)
  then show ?case by simp
qed simp_all

section \<open>Properties\<close>

lemma array_size_computed:
  assumes "array_ok (DataType E) (elements_ok E sp gen) q v"
  shows "GetSerializedSize (ArrayW E) gen v = of_nat (wire_size (ArrayW E) gen v)"
proof (cases "v = NullV")
  case True
  then show ?thesis by (simp add: Array_GetSerializedSize_def array_value_size_def)
next
  case False
  have "elements_ok (ArrayW E) sp gen (ArrayValidateParams 0 True q) [v]"
    using assms by (simp add: pointers_ok_def)
  from value_size_eq [OF this _ False] show ?thesis by simp
qed

text \<open>
  Claim C22. Arrays survive serialisation, and fill exactly the buffer they were measured for. Take an array of
  the C++ bindings of any element type built from numbers, bools, handles, interface requests,
  interfaces, strings, generated structs, arrays and maps, null or with elements that its validation
  parameters admit, and a \<^verbatim>\<open>FixedBuffer\<close> of \<^verbatim>\<open>GetSerializedSize_\<close> bytes at an aligned address. Then \<^verbatim>\<open>SerializeArray_\<close>
  returns no error, uses the buffer to its last byte, writes nothing outside of it, takes every
  handle out of the array, and yields a pointer, null for a null array only, from which \<^verbatim>\<open>Deserialize_\<close> gives
  the array back. The classes generated for structs are assumed to have this contract for their values.
\<close>

theorem array_serialization_round_trip:
  assumes "structs_serialize gen sp"
    and ok: "array_ok (DataType E) (elements_ok E sp gen) q v"
    and n: "n = GetSerializedSize (ArrayW E) gen v"
    and memory: "memory \<noteq> 0" "8 dvd memory" "memory + wire_size (ArrayW E) gen v < 18446744073709551616"
      "mapped m memory (unat n)"
  shows "\<exists>result m' m''.
    SerializeArray dbg E (SerializeElements E dbg gen) v q (m, FixedBuffer_Initialize memory n) =
      Inr ((NONE, result, left_of (ArrayW E) sp v), m', \<lparr>fb_ptr = memory, fb_cursor = n, fb_size = n\<rparr>) \<and>
    (result = 0 \<longleftrightarrow> v = NullV) \<and>
    (\<forall>x. x < memory \<or> memory + unat n \<le> x \<longrightarrow> m' x = m x) \<and>
    Array_Deserialize (DeserializeElements E dbg gen) m' result = Inr (v, m'')"
proof -
  let ?b = "FixedBuffer_Initialize memory n" and ?k = "wire_size (ArrayW E) gen v"
  have k: "n = of_nat ?k" using n array_size_computed [OF ok] by simp
  then have u: "unat n = ?k" using memory(3) by (simp add: unat_of_nat del: wire_size.simps)
  have fb: "fb_ptr ?b = memory" "fb_cursor ?b = 0" "fb_size ?b = n" by (simp_all add: FixedBuffer_Initialize_def)
  then have top: "top_of ?b = memory" by (simp add: top_of_def)
  have room: "room m ?b ?k"
    using memory u top fb by (simp add: room_def del: wire_size.simps)
  have "pointer_codec (\<lambda>v. SerializeArray dbg E (SerializeElements E dbg gen) v q) (Array_Deserialize (DeserializeElements E dbg gen))
      (wire_size (ArrayW E) gen) (left_of (ArrayW E) sp) (array_ok (DataType E) (elements_ok E sp gen) q)"
    unfolding wire_size.simps left_of.simps
    by (rule array_codec [where ser = "SerializeElements E dbg gen", OF elements_codec_wrapper [OF assms(1)]])
  from pointer_codec.object [OF this ok room] obtain result where result: "result = 0 \<longleftrightarrow> v = NullV"
    and em: "emits {} {} m ?b ?k (SerializeArray dbg E (SerializeElements E dbg gen) v q (m, ?b))
      (NONE, result, left_of (ArrayW E) sp v) (\<lambda>m. Array_Deserialize (DeserializeElements E dbg gen) m result) v"
    by (elim exE conjE) (erule (1) that)
  from em obtain m' where ser: "SerializeArray dbg E (SerializeElements E dbg gen) v q (m, ?b) =
        Inr ((NONE, result, left_of (ArrayW E) sp v), m', advance ?b ?k)"
    and fr: "writes_only ({} \<union> span ?b ?k) m m'"
    and st: "stored {} (\<lambda>m. Array_Deserialize (DeserializeElements E dbg gen) m result) m' ({} \<union> span ?b ?k) v"
    by (rule emitsE)
  have adv: "advance ?b ?k = \<lparr>fb_ptr = memory, fb_cursor = n, fb_size = n\<rparr>"
    by (simp add: advance_def FixedBuffer_Initialize_def k del: wire_size.simps)
  have "m' x = m x" if "x < memory \<or> memory + unat n \<le> x" for x
    using fr that by (auto simp: writes_only_def same_on_def span_def top u simp del: wire_size.simps)
  moreover obtain m'' where "Array_Deserialize (DeserializeElements E dbg gen) m' result = Inr (v, m'')"
    using storedD [OF st, of m'] by auto
  ultimately show ?thesis using ser [unfolded adv] result by blast
qed

text \<open>
  A struct with one field of 64 bits, as the generator would emit it, and strings ordered by their bytes.
\<close>

fun bytes_less :: "u8 list \<Rightarrow> u8 list \<Rightarrow> bool" where
  "bytes_less [] t \<longleftrightarrow> t \<noteq> []"
| "bytes_less (x # s) [] \<longleftrightarrow> False"
| "bytes_less (x # s) (y # t) \<longleftrightarrow> x < y \<or> x = y \<and> bytes_less s t"

definition sample_serializers :: generated_serializers where
  "sample_serializers = \<lparr>
     Struct_GetSerializedSize = (\<lambda>_ _. 16),
     Struct_Serialize = (\<lambda>_ v st. case v of
         StructV x \<Rightarrow>
           bindR (FixedBuffer_Allocate False (snd st) 16) (\<lambda>(b, a).
           bindR (store32 (fst st) a 16) (\<lambda>m.
           bindR (store32 m (a + 4) 0) (\<lambda>m.
           bindR (store64 m (a + 8) (of_nat x)) (\<lambda>m. Inr ((NONE, a, v), m, b)))))
       | _ \<Rightarrow> Inr ((NONE, 0, v), st)),
     Struct_Deserialize = (\<lambda>_ m a. bindR (load64 m (a + 8)) (\<lambda>w. Inr (StructV (unat w), m))),
     Union_GetSerializedSize = (\<lambda>_ _. 0),
     Union_Serialize = (\<lambda>_ _ _ _. Inl BadAccess),
     Union_null = (\<lambda>_ _ _. Inl BadAccess),
     Union_Deserialize = (\<lambda>_ _ _. Inl BadAccess),
     Key_less = (\<lambda>_ k k'. case (k, k') of (StringV s, StringV t) \<Rightarrow> bytes_less s t | _ \<Rightarrow> False)\<rparr>"

definition sample_structs :: struct_spec where
  "sample_structs = \<lparr>
     struct_ok = (\<lambda>_ v. case v of StructV x \<Rightarrow> x < 18446744073709551616 | NullV \<Rightarrow> True | _ \<Rightarrow> False),
     struct_left = (\<lambda>_ v. v)\<rparr>"

lemma sample_structs_serialize: "structs_serialize sample_serializers sample_structs"
  unfolding structs_serialize_def
proof (intro allI, unfold_locales)
  fix c v m b
  show "8 dvd wire_size (StructW c) sample_serializers v" by (simp add: sample_serializers_def)
  assume ok: "struct_ok sample_structs c v" and room: "room m b (wire_size (StructW c) sample_serializers v)"
  from ok consider (null) "v = NullV" | (struct) x where "v = StructV x" "x < 18446744073709551616"
    by (auto simp: sample_structs_def split: mojo_value.splits)
  then show "\<exists>p. p < 18446744073709551616 \<and> (p = 0 \<longleftrightarrow> v = NullV) \<and>
      emits {} {} m b (wire_size (StructW c) sample_serializers v) (Struct_Serialize sample_serializers c v (m, b))
        (NONE, p, struct_left sample_structs c v) (\<lambda>m. DeserializeCaller_Run_struct sample_serializers c m p) v"
  proof cases
    case null
    then show ?thesis using emits_null [of "DeserializeCaller_Run_struct sample_serializers c"]
      by (simp add: sample_serializers_def sample_structs_def DeserializeCaller_Run_struct_def)
  next
    case struct
    let ?a = "top_of b"
    have size: "wire_size (StructW c) sample_serializers v = 16" using struct by (simp add: sample_serializers_def)
    have rm: "room m b 16" using room size by simp
    have al: "FixedBuffer_Allocate False b 16 = Inr (advance b 16, ?a)"
      using Allocate_room [of m b 16 0 16 False] rm by (simp add: round8_def)
    have mp: "mapped m ?a 8" "mapped m (?a + 8) 8" using rm by (auto simp: room_def intro: mapped_sub)
    have "{?a..<?a + 8} \<subseteq> span b 16" by (auto simp: span_def)
    from two_words [OF mp(1) this, of 16 0] obtain m1 where
      w: "store32 m ?a 16 = Inr (poke m ?a (bytes_of_word 4 (16 :: u32)))"
        "store32 (poke m ?a (bytes_of_word 4 (16 :: u32))) (?a + 4) 0 = Inr m1"
      and f1: "writes_only (span b 16) m m1" by blast
    let ?m = "poke m1 (?a + 8) (bytes_of_word 8 (of_nat x :: u64))"
    have mp1: "mapped m1 (?a + 8) 8" using mp(2) writes_only_mapped [OF f1] by simp
    have f2: "writes_only (span b 16) m1 ?m" by (rule writes_only_poke) (use mp1 in \<open>auto simp: span_def\<close>)
    have "stored {} (\<lambda>m. DeserializeCaller_Run_struct sample_serializers c m ?a) ?m (span b 16) v"
    proof (rule stored_readI)
      fix m' assume "same_on ({} \<union> span b 16) ?m m'"
      then have "same_on {?a + 8..<?a + 8 + 8} ?m m'" by (auto simp: same_on_def span_def)
      from same_on_mapped [OF this] same_on_peek(1) [OF this] mp1
      show "DeserializeCaller_Run_struct sample_serializers c m' ?a = Inr (v, m')"
        using struct room_nonnull [OF rm]
        by (simp add: DeserializeCaller_Run_struct_def sample_serializers_def load64_eq mapped_poke unat_of_nat)
    qed
    moreover have "Struct_Serialize sample_serializers c v (m, b) = Inr ((NONE, ?a, v), ?m, advance b 16)"
      using w mp1 by (simp add: sample_serializers_def struct al store64_eq del: bytes_of_word.simps)
    ultimately have "emits {} {} m b 16 (Struct_Serialize sample_serializers c v (m, b)) (NONE, ?a, struct_left sample_structs c v)
        (\<lambda>m. DeserializeCaller_Run_struct sample_serializers c m ?a) v"
      using writes_only_trans [OF f1 f2] by (intro emitsI [of _ _ ?m]) (simp_all add: sample_structs_def)
    moreover have "?a < 18446744073709551616" "?a \<noteq> 0" using rm room_nonnull [OF rm] by (simp_all add: room_def)
    ultimately show ?thesis using struct(1) size by auto
  qed
qed

text \<open>An array of two maps from strings to arrays of structs and one null map.\<close>

definition sample_wrapper :: wrapper where
  "sample_wrapper = MapW StringW (ArrayW (StructW 0))"

definition sample_maps :: mojo_value where
  "sample_maps = ArrayV [
     MapV [(StringV [97], ArrayV [StructV 7, NullV]), (StringV [97, 98], NullV)],
     NullV,
     MapV []]"

definition sample_maps_params :: ArrayValidateParams where
  "sample_maps_params = ArrayValidateParams 3 True (Some (ArrayValidateParams 0 True (Some (ArrayValidateParams 0 True None))))"

theorem array_serialization_round_trip_witness:
  "let n = GetSerializedSize (ArrayW sample_wrapper) sample_serializers sample_maps in
   n = 216 \<and>
   (\<exists>result m' m''.
      SerializeArray True sample_wrapper (SerializeElements sample_wrapper True sample_serializers) sample_maps
          (Some sample_maps_params) (mem_of 64 (replicate 216 0), FixedBuffer_Initialize 64 n) =
        Inr ((NONE, result, sample_maps), m', \<lparr>fb_ptr = 64, fb_cursor = n, fb_size = n\<rparr>) \<and>
      result \<noteq> 0 \<and>
      Array_Deserialize (DeserializeElements sample_wrapper True sample_serializers) m' result = Inr (sample_maps, m''))"
proof -
  let ?n = "GetSerializedSize (ArrayW sample_wrapper) sample_serializers sample_maps"
  have n: "?n = 216" "wire_size (ArrayW sample_wrapper) sample_serializers sample_maps = 216" by code_simp+
  have ok: "array_ok (DataType sample_wrapper) (elements_ok sample_wrapper sample_structs sample_serializers)
      (Some sample_maps_params) sample_maps"
    by (simp add: sample_wrapper_def sample_maps_params_def sample_maps_def array_ok_def map_ok_def pointers_ok_def
        key_type_def value_type_def fits_header_def string_ok_def string_params_def sample_structs_def
        sample_serializers_def key_before_def MapKeyValidateParamsFactory_Get_def GetMapKeyValidateParamsForStrings_def)
  have left: "left_of (ArrayW sample_wrapper) sample_structs sample_maps = sample_maps"
    by (simp add: sample_wrapper_def sample_maps_def array_left_def map_left_def sample_structs_def)
  have "sample_maps \<noteq> NullV" by (simp add: sample_maps_def)
  have mp: "mapped (mem_of 64 (replicate 216 0)) 64 (unat ?n)" by (simp only: n) (simp add: mapped_mem_of)
  have "64 + wire_size (ArrayW sample_wrapper) sample_serializers sample_maps < 18446744073709551616" unfolding n by simp
  from array_serialization_round_trip [OF sample_structs_serialize ok refl _ _ this mp, of True]
  show ?thesis unfolding Let_def left using \<open>sample_maps \<noteq> NullV\<close> n(1) by auto
qed

end
