(* ===== verification/Cpp_MessageOwnership.thy ===== *)
theory Cpp_MessageOwnership
  imports Cpp_Message "HOL-Library.Multiset"
begin

text \<open>
  What the class \<^verbatim>\<open>Message\<close> of \<^verbatim>\<open>message.cc\<close> owns: a block of the heap and a vector of handles. Every block is
  freed once, and every handle is closed once, whatever messages are created, filled, moved, reset and
  destroyed. A message is a slot of the state; slots of destroyed messages are empty. \<^verbatim>\<open>free\<close> of what is
  not allocated is a fault, and the calls of \<^verbatim>\<open>MojoClose\<close> are recorded.
\<close>

section \<open>Operations\<close>

record message_world =
  heap_blocks :: "addr list"
  close_calls :: "MojoHandle list"
  given_out :: "MojoHandle list"
  message_slots :: "Message option list"

definition empty_world :: message_world where
  "empty_world = \<lparr>heap_blocks = [], close_calls = [], given_out = [], message_slots = []\<rparr>"

definition with_message :: "nat \<Rightarrow> message_world \<Rightarrow> (Message \<Rightarrow> 'a res) \<Rightarrow> 'a res" where
  "with_message i w k =
     (if i < length (message_slots w)
      then case message_slots w ! i of None \<Rightarrow> Inl BadAccess | Some msg \<Rightarrow> k msg
      else Inl BadAccess)"

definition set_slot :: "nat \<Rightarrow> Message option \<Rightarrow> message_world \<Rightarrow> message_world" where
  "set_slot i s w = w\<lparr>message_slots := (message_slots w)[i := s]\<rparr>"

definition heap_free :: "addr \<Rightarrow> message_world \<Rightarrow> message_world res" where
  "heap_free a w =
     (if a = 0 then Inr w
      else if a \<in> set (heap_blocks w) then Inr (w\<lparr>heap_blocks := remove1 a (heap_blocks w)\<rparr>)
      else Inl BadAccess)"

definition is_valid_handle :: "MojoHandle \<Rightarrow> bool" where
  "is_valid_handle h \<longleftrightarrow> h \<noteq> MOJO_HANDLE_INVALID"

definition FreeDataAndCloseHandles :: "nat \<Rightarrow> message_world \<Rightarrow> message_world res" where
  "FreeDataAndCloseHandles i w =
     with_message i w (\<lambda>msg.
     bindR (heap_free (msg_data msg) w) (\<lambda>w.
     Inr (w\<lparr>close_calls := close_calls w @ filter is_valid_handle (msg_handles msg)\<rparr>)))"

definition Message_Initialize :: "nat \<Rightarrow> message_world \<Rightarrow> message_world res" where
  "Message_Initialize i w =
     with_message i w (\<lambda>msg. Inr (set_slot i (Some (msg\<lparr>msg_num_bytes := 0, msg_data := 0\<rparr>)) w))"

definition handles_clear :: "nat \<Rightarrow> message_world \<Rightarrow> message_world res" where
  "handles_clear i w = with_message i w (\<lambda>msg. Inr (set_slot i (Some (msg\<lparr>msg_handles := []\<rparr>)) w))"

definition Message_create :: "message_world \<Rightarrow> message_world" where
  "Message_create w = w\<lparr>message_slots := message_slots w @ [Some Message_new]\<rparr>"

definition Message_destroy :: "nat \<Rightarrow> message_world \<Rightarrow> message_world res" where
  "Message_destroy i w = bindR (FreeDataAndCloseHandles i w) (\<lambda>w. Inr (set_slot i None w))"

definition Message_Reset :: "nat \<Rightarrow> message_world \<Rightarrow> message_world res" where
  "Message_Reset i w =
     bindR (FreeDataAndCloseHandles i w) (\<lambda>w. bindR (handles_clear i w) (Message_Initialize i))"

text \<open>\<^verbatim>\<open>malloc\<close> returns the block given as an argument; null is a failed allocation.\<close>

definition Message_AllocUninitializedData :: "bool \<Rightarrow> nat \<Rightarrow> addr \<Rightarrow> u32 \<Rightarrow> message_world \<Rightarrow> message_world res" where
  "Message_AllocUninitializedData dbg i block num_bytes w =
     with_message i w (\<lambda>msg.
     MOJO_DCHECK dbg (msg_data msg = 0) (
     let w = (if block = 0 then w else w\<lparr>heap_blocks := block # heap_blocks w\<rparr>) in
     Inr (set_slot i (Some (msg\<lparr>msg_num_bytes := num_bytes, msg_data := block\<rparr>)) w)))"

text \<open>\<^verbatim>\<open>MoveTo\<close>, step by step, since the two messages may be one in a release build.\<close>

definition MoveTo :: "bool \<Rightarrow> nat \<Rightarrow> nat \<Rightarrow> message_world \<Rightarrow> message_world res" where
  "MoveTo dbg i j w =
     MOJO_DCHECK dbg (i \<noteq> j) (
     bindR (FreeDataAndCloseHandles j w) (\<lambda>w.
     bindR (with_message i w (\<lambda>src. with_message j w (\<lambda>dst.
       Inr (set_slot j (Some (dst\<lparr>msg_num_bytes := msg_num_bytes src, msg_data := msg_data src\<rparr>)) w)))) (\<lambda>w.
     bindR (with_message i w (\<lambda>src. with_message j w (\<lambda>dst.
       Inr (set_slot j (Some (dst\<lparr>msg_handles := msg_handles src\<rparr>)) (set_slot i (Some (src\<lparr>msg_handles := msg_handles dst\<rparr>)) w))))) (\<lambda>w.
     bindR (handles_clear i w) (Message_Initialize i)))))"

section \<open>Clients\<close>

text \<open>
  A client also fills the vector of handles, and takes handles out of it, which leaves invalid ones.
\<close>

datatype message_op =
    Create
  | Destroy nat
  | Reset nat
  | Alloc nat addr u32
  | PutHandles nat "MojoHandle list"
  | TakeHandles nat
  | Move nat nat

definition do_op :: "bool \<Rightarrow> message_op \<Rightarrow> message_world \<Rightarrow> message_world res" where
  "do_op dbg op w =
     (case op of
        Create \<Rightarrow> Inr (Message_create w)
      | Destroy i \<Rightarrow> Message_destroy i w
      | Reset i \<Rightarrow> Message_Reset i w
      | Alloc i block n \<Rightarrow> Message_AllocUninitializedData dbg i block n w
      | PutHandles i hs \<Rightarrow> with_message i w (\<lambda>msg. Inr (set_slot i (Some (msg\<lparr>msg_handles := msg_handles msg @ hs\<rparr>)) w))
      | TakeHandles i \<Rightarrow> with_message i w (\<lambda>msg.
          Inr (set_slot i (Some (msg\<lparr>msg_handles := map (\<lambda>_. MOJO_HANDLE_INVALID) (msg_handles msg)\<rparr>))
            (w\<lparr>given_out := given_out w @ filter is_valid_handle (msg_handles msg)\<rparr>)))
      | Move i j \<Rightarrow> MoveTo dbg i j w)"

fun run_ops :: "bool \<Rightarrow> message_op list \<Rightarrow> message_world \<Rightarrow> message_world res" where
  "run_ops dbg [] w = Inr w"
| "run_ops dbg (op # ops) w = bindR (do_op dbg op w) (run_ops dbg ops)"

text \<open>
  A client may use the messages that exist, may allocate data for a message that has none, and may not
  move a message to itself; \<^verbatim>\<open>malloc\<close> returns null or a block that is not in use.
\<close>

definition is_live :: "message_world \<Rightarrow> nat \<Rightarrow> bool" where
  "is_live w i \<longleftrightarrow> i < length (message_slots w) \<and> message_slots w ! i \<noteq> None"

definition op_allowed :: "message_world \<Rightarrow> message_op \<Rightarrow> bool" where
  "op_allowed w op \<longleftrightarrow>
     (case op of
        Create \<Rightarrow> True
      | Destroy i \<Rightarrow> is_live w i
      | Reset i \<Rightarrow> is_live w i
      | Alloc i block n \<Rightarrow> is_live w i \<and> msg_data (the (message_slots w ! i)) = 0 \<and> block \<notin> set (heap_blocks w)
      | PutHandles i hs \<Rightarrow> is_live w i
      | TakeHandles i \<Rightarrow> is_live w i
      | Move i j \<Rightarrow> is_live w i \<and> is_live w j \<and> i \<noteq> j)"

fun ops_allowed :: "bool \<Rightarrow> message_op list \<Rightarrow> message_world \<Rightarrow> bool" where
  "ops_allowed dbg [] w \<longleftrightarrow> True"
| "ops_allowed dbg (op # ops) w \<longleftrightarrow>
     op_allowed w op \<and> (case do_op dbg op w of Inl _ \<Rightarrow> True | Inr w' \<Rightarrow> ops_allowed dbg ops w')"

definition handles_put :: "message_op list \<Rightarrow> MojoHandle list" where
  "handles_put ops = concat (map (\<lambda>op. case op of PutHandles i hs \<Rightarrow> filter is_valid_handle hs | _ \<Rightarrow> []) ops)"

section \<open>The invariant\<close>

definition slot_blocks :: "Message option \<Rightarrow> addr multiset" where
  "slot_blocks s = (case s of None \<Rightarrow> {#} | Some msg \<Rightarrow> if msg_data msg = 0 then {#} else {#msg_data msg#})"

definition slot_handles :: "Message option \<Rightarrow> MojoHandle multiset" where
  "slot_handles s = (case s of None \<Rightarrow> {#} | Some msg \<Rightarrow> mset (filter is_valid_handle (msg_handles msg)))"

definition owned_blocks :: "message_world \<Rightarrow> addr multiset" where
  "owned_blocks w = sum_list (map slot_blocks (message_slots w))"

definition owned_handles :: "message_world \<Rightarrow> MojoHandle multiset" where
  "owned_handles w = sum_list (map slot_handles (message_slots w))"

text \<open>\<open>hs\<close> are the handles that were ever put into a message.\<close>

definition owns :: "MojoHandle multiset \<Rightarrow> message_world \<Rightarrow> bool" where
  "owns hs w \<longleftrightarrow> mset (heap_blocks w) = owned_blocks w \<and> distinct (heap_blocks w) \<and>
     mset (close_calls w) + mset (given_out w) + owned_handles w = hs"

lemma sum_slots_update:
  fixes f :: "'a \<Rightarrow> 'b::comm_monoid_add"
  shows "i < length xs \<Longrightarrow> sum_list (map f (xs[i := y])) + f (xs ! i) = sum_list (map f xs) + f y"
proof (induction xs arbitrary: i)
  case (Cons x xs)
  show ?case
  proof (cases i)
    case 0
    then show ?thesis by (simp add: add_ac)
  next
    case (Suc k)
    with Cons show ?thesis by (simp add: add.assoc)
  qed
qed simp

lemma set_slot_owned:
  assumes "i < length (message_slots w)"
  shows "owned_blocks (set_slot i s w) + slot_blocks (message_slots w ! i) = owned_blocks w + slot_blocks s"
    and "owned_handles (set_slot i s w) + slot_handles (message_slots w ! i) = owned_handles w + slot_handles s"
  using sum_slots_update [OF assms] by (simp_all add: owned_blocks_def owned_handles_def set_slot_def)

lemma slot_owned:
  assumes "i < length (message_slots w)"
  shows "slot_blocks (message_slots w ! i) \<subseteq># owned_blocks w"
proof -
  have "f (xs ! i) \<subseteq># sum_list (map f xs)" if "i < length xs" for f :: "Message option \<Rightarrow> addr multiset" and xs
    using that by (induction xs arbitrary: i) (auto simp: nth_Cons' intro: subset_mset.add_increasing)
  with assms show ?thesis by (simp add: owned_blocks_def)
qed

lemma set_slot_simps [simp]:
  "heap_blocks (set_slot i s w) = heap_blocks w" "close_calls (set_slot i s w) = close_calls w"
  "given_out (set_slot i s w) = given_out w" "length (message_slots (set_slot i s w)) = length (message_slots w)"
  "set_slot i s (set_slot i s' w) = set_slot i s w"
  by (simp_all add: set_slot_def)

lemma slot_simps [simp]:
  "slot_blocks None = {#}" "slot_handles None = {#}" "slot_blocks (Some Message_new) = {#}" "slot_handles (Some Message_new) = {#}"
  by (simp_all add: slot_blocks_def slot_handles_def Message_new_def)

text \<open>Between freeing what the message \<open>i\<close> owns and giving it a new value.\<close>

definition freed :: "nat \<Rightarrow> MojoHandle multiset \<Rightarrow> message_world \<Rightarrow> bool" where
  "freed i hs w \<longleftrightarrow> mset (heap_blocks w) + slot_blocks (message_slots w ! i) = owned_blocks w \<and>
     distinct (heap_blocks w) \<and>
     mset (close_calls w) + mset (given_out w) + owned_handles w = hs + slot_handles (message_slots w ! i)"

lemma FreeDataAndCloseHandles_frees:
  assumes "owns hs w" and "i < length (message_slots w)" and "message_slots w ! i = Some msg"
  obtains w' where "FreeDataAndCloseHandles i w = Inr w'" "message_slots w' = message_slots w" "freed i hs w'"
proof -
  let ?w = "w\<lparr>heap_blocks := remove1 (msg_data msg) (heap_blocks w),
      close_calls := close_calls w @ filter is_valid_handle (msg_handles msg)\<rparr>"
  have in_heap: "msg_data msg \<in> set (heap_blocks w)" if "msg_data msg \<noteq> 0"
    using slot_owned [OF assms(2)] assms(1,3) that
    by (simp add: owns_def slot_blocks_def single_subset_iff flip: set_mset_mset)
  show thesis
  proof (cases "msg_data msg = 0")
    case True
    then show ?thesis
      using assms by (intro that [of "w\<lparr>close_calls := close_calls w @ filter is_valid_handle (msg_handles msg)\<rparr>"])
        (auto simp: FreeDataAndCloseHandles_def with_message_def heap_free_def freed_def owns_def owned_blocks_def
          owned_handles_def slot_blocks_def slot_handles_def)
  next
    case False
    from False in_heap assms(1) have "msg_data msg \<in># sum_list (map slot_blocks (message_slots w))"
      unfolding owns_def owned_blocks_def by (metis set_mset_mset)
    with False in_heap assms show ?thesis
      by (intro that [of ?w])
        (auto simp: FreeDataAndCloseHandles_def with_message_def heap_free_def freed_def owns_def owned_blocks_def
          owned_handles_def slot_blocks_def slot_handles_def)
  qed
qed

lemma freed_slot:
  assumes "freed i hs w" and "i < length (message_slots w)" and "slot_blocks s = {#}" and "slot_handles s = {#}"
  shows "owns hs (set_slot i s w)"
proof -
  have "mset (heap_blocks w) + slot_blocks (message_slots w ! i) = owned_blocks (set_slot i s w) + slot_blocks (message_slots w ! i)"
    using assms(1,3) set_slot_owned(1) [OF assms(2), of s] by (simp add: freed_def)
  moreover have "mset (close_calls w) + mset (given_out w) + owned_handles (set_slot i s w) + slot_handles (message_slots w ! i) =
      hs + slot_handles (message_slots w ! i)"
    using assms(1,4) set_slot_owned(2) [OF assms(2), of s] by (simp add: freed_def add.assoc)
  ultimately show ?thesis using assms(1) by (simp add: owns_def freed_def)
qed

lemma live_slot: "is_live w i \<Longrightarrow> (\<And>msg. i < length (message_slots w) \<Longrightarrow> message_slots w ! i = Some msg \<Longrightarrow> P) \<Longrightarrow> P"
  by (auto simp: is_live_def)

lemma with_message_slot [simp]:
  "i < length (message_slots w) \<Longrightarrow> message_slots w ! i = Some msg \<Longrightarrow> with_message i w k = k msg"
  by (simp add: with_message_def)

lemma nth_set_slot: "i < length (message_slots w) \<Longrightarrow> message_slots (set_slot i s w) ! j = (if j = i then s else message_slots w ! j)"
  by (simp add: set_slot_def)

lemma message_cleared [simp]: "(msg :: Message)\<lparr>msg_handles := [], msg_num_bytes := 0, msg_data := 0\<rparr> = Message_new"
  by (simp add: Message_new_def)

lemma message_moved [simp]:
  "(dst :: Message)\<lparr>msg_num_bytes := msg_num_bytes src, msg_data := msg_data src, msg_handles := msg_handles src\<rparr> = src"
  by (cases src, cases dst) simp

lemma exchange_sum:
  fixes a b :: "'a multiset"
  assumes "a + d = b + s" and "c + s = a"
  shows "c + d = b"
proof -
  have "(c + d) + s = b + s" using assms(1) unfolding assms(2) [symmetric] by (simp only: add_ac)
  then show ?thesis by simp
qed

lemma Message_destroy_owns:
  assumes "owns hs w" and "is_live w i"
  shows "\<exists>w'. Message_destroy i w = Inr w' \<and> owns hs w'"
proof -
  from assms(2) obtain msg where i: "i < length (message_slots w)" "message_slots w ! i = Some msg" by (rule live_slot)
  from FreeDataAndCloseHandles_frees [OF assms(1) i] obtain w' where
    "FreeDataAndCloseHandles i w = Inr w'" "message_slots w' = message_slots w" "freed i hs w'" .
  then show ?thesis using i(1) freed_slot [of i hs w' None] by (simp add: Message_destroy_def)
qed

lemma Message_Reset_owns:
  assumes "owns hs w" and "is_live w i"
  shows "\<exists>w'. Message_Reset i w = Inr w' \<and> owns hs w'"
proof -
  from assms(2) obtain msg where i: "i < length (message_slots w)" "message_slots w ! i = Some msg" by (rule live_slot)
  from FreeDataAndCloseHandles_frees [OF assms(1) i] obtain w' where
    w': "FreeDataAndCloseHandles i w = Inr w'" "message_slots w' = message_slots w" "freed i hs w'" .
  then have "Message_Reset i w = Inr (set_slot i (Some Message_new) w')"
    using i by (simp add: Message_Reset_def handles_clear_def Message_Initialize_def nth_set_slot)
  then show ?thesis using w' i(1) freed_slot [of i hs w' "Some Message_new"] by simp
qed

lemma MoveTo_owns:
  assumes "owns hs w" and "is_live w i" and "is_live w j" and "i \<noteq> j"
  shows "\<exists>w'. MoveTo dbg i j w = Inr w' \<and> owns hs w'"
proof -
  from assms(2) obtain src where i: "i < length (message_slots w)" "message_slots w ! i = Some src" by (rule live_slot)
  from assms(3) obtain dst where j: "j < length (message_slots w)" "message_slots w ! j = Some dst" by (rule live_slot)
  from FreeDataAndCloseHandles_frees [OF assms(1) j] obtain w' where
    free: "FreeDataAndCloseHandles j w = Inr w'" and slots: "message_slots w' = message_slots w" and fr: "freed j hs w'" .
  have move: "MoveTo dbg i j w = Inr (set_slot i (Some Message_new) (set_slot j (Some src) w'))"
    using i j free slots assms(4)
    by (simp add: MoveTo_def handles_clear_def Message_Initialize_def nth_set_slot)
      (simp add: set_slot_def list_update_swap)
  let ?w1 = "set_slot j (Some src) w'" and ?w2 = "set_slot i (Some Message_new) (set_slot j (Some src) w')"
  have slot: "message_slots ?w1 ! i = Some src" "i < length (message_slots ?w1)" "j < length (message_slots w')"
      "message_slots w' ! j = Some dst"
    using i j slots assms(4) by (simp_all add: nth_set_slot)
  have b: "owned_blocks ?w2 + slot_blocks (Some dst) = owned_blocks w'"
    using set_slot_owned(1) [OF slot(3), of "Some src"] set_slot_owned(1) [OF slot(2), of "Some Message_new"]
    unfolding slot(1,4) slot_simps add_0_right by (rule exchange_sum)
  have h: "owned_handles ?w2 + slot_handles (Some dst) = owned_handles w'"
    using set_slot_owned(2) [OF slot(3), of "Some src"] set_slot_owned(2) [OF slot(2), of "Some Message_new"]
    unfolding slot(1,4) slot_simps add_0_right by (rule exchange_sum)
  from fr have "mset (heap_blocks w') + slot_blocks (Some dst) = owned_blocks ?w2 + slot_blocks (Some dst)"
    unfolding b by (simp only: freed_def slot(4))
  moreover from fr have "mset (close_calls w') + mset (given_out w') + owned_handles ?w2 + slot_handles (Some dst) = hs + slot_handles (Some dst)"
    unfolding add.assoc h by (simp only: freed_def slot(4) add.assoc)
  ultimately have "owns hs ?w2" using fr by (simp add: owns_def freed_def)
  with move show ?thesis by blast
qed

lemma fill_slot:
  assumes "owns hs w" and "i < length (message_slots w)" and "message_slots w ! i = Some msg"
    and "slot_blocks (Some msg') = slot_blocks (Some msg)" and "slot_handles (Some msg') + gone = slot_handles (Some msg) + new"
    and "mset g = mset (given_out w) + gone"
  shows "owns (hs + new) (set_slot i (Some msg') (w\<lparr>given_out := g\<rparr>))"
proof -
  let ?w = "w\<lparr>given_out := g\<rparr>"
  have "owned_blocks ?w = owned_blocks w" "owned_handles ?w = owned_handles w"
    by (simp_all add: owned_blocks_def owned_handles_def)
  with set_slot_owned [of i ?w "Some msg'"] assms(2,3,4)
  have b: "owned_blocks (set_slot i (Some msg') ?w) = owned_blocks w"
    and h: "owned_handles (set_slot i (Some msg') ?w) + slot_handles (Some msg) = owned_handles w + slot_handles (Some msg')"
    by simp_all
  have "owned_handles (set_slot i (Some msg') ?w) + gone + slot_handles (Some msg) = owned_handles w + new + slot_handles (Some msg)"
    using h assms(5) by (metis (no_types, lifting) add.assoc add.commute)
  then have "owned_handles (set_slot i (Some msg') ?w) + gone = owned_handles w + new" by simp
  with assms(1,6) b show ?thesis by (auto simp: owns_def add_ac)
qed

lemma Alloc_owns:
  assumes "owns hs w" and "is_live w i" and "msg_data (the (message_slots w ! i)) = 0" and "block \<notin> set (heap_blocks w)"
  shows "\<exists>w'. Message_AllocUninitializedData dbg i block n w = Inr w' \<and> owns hs w'"
proof -
  from assms(2) obtain msg where i: "i < length (message_slots w)" "message_slots w ! i = Some msg" by (rule live_slot)
  let ?w = "if block = 0 then w else w\<lparr>heap_blocks := block # heap_blocks w\<rparr>"
  let ?msg = "msg\<lparr>msg_num_bytes := n, msg_data := block\<rparr>"
  have eq: "owned_blocks ?w = owned_blocks w" "owned_handles ?w = owned_handles w" "message_slots ?w = message_slots w"
    by (simp_all add: owned_blocks_def owned_handles_def)
  have "slot_blocks (Some msg) = {#}" "slot_handles (Some ?msg) = slot_handles (Some msg)"
    using i assms(3) by (simp_all add: slot_blocks_def slot_handles_def)
  with set_slot_owned [of i ?w "Some ?msg"] i
  have "owned_blocks (set_slot i (Some ?msg) ?w) = owned_blocks w + slot_blocks (Some ?msg)"
    "owned_handles (set_slot i (Some ?msg) ?w) = owned_handles w"
    by (simp_all only: eq add_0_right add_right_cancel)
  with assms(1,4) have "owns hs (set_slot i (Some ?msg) ?w)" by (auto simp: owns_def slot_blocks_def)
  moreover have "Message_AllocUninitializedData dbg i block n w = Inr (set_slot i (Some ?msg) ?w)"
    using i assms(3) by (simp add: Message_AllocUninitializedData_def Let_def)
  ultimately show ?thesis by blast
qed

lemma do_op_owns:
  assumes "owns hs w" and "op_allowed w op"
  shows "\<exists>w'. do_op dbg op w = Inr w' \<and> owns (hs + mset (handles_put [op])) w'"
proof (cases op)
  case Create
  then show ?thesis using assms(1)
    by (simp add: do_op_def handles_put_def Message_create_def owns_def owned_blocks_def owned_handles_def)
next
  case (PutHandles i hs')
  from assms(2) PutHandles have "is_live w i" by (simp add: op_allowed_def)
  then obtain msg where i: "i < length (message_slots w)" "message_slots w ! i = Some msg" by (rule live_slot)
  have "owns (hs + mset (filter is_valid_handle hs'))
      (set_slot i (Some (msg\<lparr>msg_handles := msg_handles msg @ hs'\<rparr>)) (w\<lparr>given_out := given_out w\<rparr>))"
    by (rule fill_slot [OF assms(1) i, of _ "{#}"]) (simp_all add: slot_blocks_def slot_handles_def)
  then show ?thesis using i PutHandles by (simp add: do_op_def handles_put_def)
next
  case (TakeHandles i)
  from assms(2) TakeHandles have "is_live w i" by (simp add: op_allowed_def)
  then obtain msg where i: "i < length (message_slots w)" "message_slots w ! i = Some msg" by (rule live_slot)
  have "owns (hs + {#}) (set_slot i (Some (msg\<lparr>msg_handles := map (\<lambda>_. MOJO_HANDLE_INVALID) (msg_handles msg)\<rparr>))
      (w\<lparr>given_out := given_out w @ filter is_valid_handle (msg_handles msg)\<rparr>))"
    by (rule fill_slot [OF assms(1) i, of _ "mset (filter is_valid_handle (msg_handles msg))"])
      (simp_all add: slot_blocks_def slot_handles_def filter_map comp_def is_valid_handle_def)
  then show ?thesis using i TakeHandles by (simp add: do_op_def handles_put_def)
qed (use assms Message_destroy_owns Message_Reset_owns MoveTo_owns Alloc_owns in
  \<open>simp_all add: do_op_def op_allowed_def handles_put_def\<close>)

lemma handles_put_Cons: "handles_put (op # ops) = handles_put [op] @ handles_put ops"
  by (simp add: handles_put_def)

lemma run_ops_owns:
  "owns hs w \<Longrightarrow> ops_allowed dbg ops w \<Longrightarrow> \<exists>w'. run_ops dbg ops w = Inr w' \<and> owns (hs + mset (handles_put ops)) w'"
proof (induction ops arbitrary: hs w)
  case Nil
  then show ?case by (simp add: handles_put_def)
next
  case (Cons op ops)
  then obtain w1 where w1: "do_op dbg op w = Inr w1" "owns (hs + mset (handles_put [op])) w1"
    using do_op_owns [of hs w op dbg] by auto
  then obtain w2 where "run_ops dbg ops w1 = Inr w2" "owns (hs + mset (handles_put [op]) + mset (handles_put ops)) w2"
    using Cons.IH [OF w1(2)] Cons.prems(2) by auto
  with w1(1) show ?case unfolding handles_put_Cons [of op ops] by (simp add: add.assoc)
qed

lemma slots_empty:
  "\<forall>s \<in> set xs. s = None \<Longrightarrow> sum_list (map slot_blocks xs) = {#}"
  "\<forall>s \<in> set xs. s = None \<Longrightarrow> sum_list (map slot_handles xs) = {#}"
  by (induction xs) auto

section \<open>Properties\<close>

text \<open>
  Claim C23. Messages neither leak nor free twice. Whatever messages a client creates, gives data and handles,
  moves to each other, resets and destroys, as long as it gives data only to messages without data and
  moves no message to itself, no operation faults: no block is freed that is not allocated. The blocks on
  the heap are at any time exactly those that messages own, each owned by one message. Each handle put
  into a message is accounted for once: it was closed, taken out by the client, or is in a message.
  When all messages are destroyed no block is left, and each handle that was not taken out was closed once.
\<close>

theorem message_ownership:
  assumes "ops_allowed dbg ops empty_world"
  shows "\<exists>w. run_ops dbg ops empty_world = Inr w \<and>
    mset (heap_blocks w) = owned_blocks w \<and> distinct (heap_blocks w) \<and>
    mset (handles_put ops) = mset (close_calls w) + mset (given_out w) + owned_handles w \<and>
    ((\<forall>s \<in> set (message_slots w). s = None) \<longrightarrow>
      heap_blocks w = [] \<and> mset (handles_put ops) = mset (close_calls w) + mset (given_out w))"
proof -
  have "owns {#} empty_world" by (simp add: owns_def empty_world_def owned_blocks_def owned_handles_def)
  from run_ops_owns [OF this assms] obtain w where w: "run_ops dbg ops empty_world = Inr w"
    "owns (mset (handles_put ops)) w" by auto
  have "owned_blocks w = {#} \<and> owned_handles w = {#}" if "\<forall>s \<in> set (message_slots w). s = None"
    using that by (simp add: owned_blocks_def owned_handles_def slots_empty)
  with w show ?thesis by (auto simp: owns_def)
qed

definition sample_ops :: "message_op list" where
  "sample_ops = [Create, Alloc 0 64 16, PutHandles 0 [3, 0, 5], Create, Alloc 1 128 8, PutHandles 1 [7],
     Move 0 1, Alloc 0 128 8, PutHandles 0 [9], TakeHandles 0, Reset 0, Destroy 0, Destroy 1]"

theorem message_ownership_witness:
  "ops_allowed True sample_ops empty_world \<and>
   (\<exists>w. run_ops True sample_ops empty_world = Inr w \<and> heap_blocks w = [] \<and>
     mset (handles_put sample_ops) = mset (close_calls w) + mset (given_out w)) \<and>
   map_sum (\<lambda>e. e) close_calls (run_ops True sample_ops empty_world) = Inr [7, 3, 5]"
proof -
  have ok: "ops_allowed True sample_ops empty_world" by code_simp
  have run: "map_sum (\<lambda>e. e) (\<lambda>w. (close_calls w, message_slots w)) (run_ops True sample_ops empty_world) =
      Inr ([7, 3, 5], [None, None])"
    by code_simp
  from message_ownership [OF ok] run ok show ?thesis by auto
qed

end
