(* ===== verification/Spec2Isabelle.thy ===== *)
theory Spec2Isabelle
  imports Mojom_NestedUnions Mojom_Map Mojom_Bounds Mojom_ArrayNew Mojom_Message
    Mojo_SystemThunks Mojo_GraphicsThunks Cpp_BoolArray Cpp_Interop Cpp_RoundTrip
    Cpp_Framing Cpp_RouterLiveness Cpp_RunLoopTasks
    Cpp_SerializationProperties Cpp_MessageOwnership
begin

text \<open>
  Verification of the Mojo public libraries: the C bindings, the core of the C++ bindings and the
  thunk tables through which a shared library reaches the Mojo system.

  \<^bold>\<open>The program.\<close> Mojo programs talk over message pipes. A message is a header, a struct of
  parameters whose pointers are relative offsets and whose handles are indices, and an array of
  handles. The bindings turn values in memory into such messages and back. Since a message comes from
  another process, a receiver first validates it, then decodes it in place. The C bindings
  (\<^verbatim>\<open>src/c/lib/bindings\<close>) interpret tables that describe the types (\<^verbatim>\<open>internal/type_descriptor.h\<close>); the
  C++ bindings (\<^verbatim>\<open>src/cpp/bindings/lib\<close>) do the same with templates and generated classes, and add the
  \<^verbatim>\<open>Connector\<close>, which reads and writes messages on a pipe, and the \<^verbatim>\<open>Router\<close>, which matches responses
  with requests, and the \<^verbatim>\<open>RunLoop\<close> (\<^verbatim>\<open>src/cpp/utility\<close>), which calls
  handlers when their handles are ready. Both reach the system through tables of function pointers that the embedder fills in
  (\<^verbatim>\<open>src/platform/native\<close>).

  \<^bold>\<open>The model.\<close> Memory maps addresses (natural numbers) to bytes, and every access goes through
  it (\<^verbatim>\<open>Mojo_Memory\<close>). Integers are words of the width they have in the source; wrap-around happens in
  the model where it happens in the code. A function returns \<open>Inr\<close> its result or \<open>Inl\<close> a fault
  (\<^verbatim>\<open>Mojo_Prelude\<close>): an access outside mapped memory or to a destroyed object, a failed assertion, or the
  end of the bound on nesting. \<^verbatim>\<open>assert\<close> is always on; \<^verbatim>\<open>MOJO_DCHECK\<close> is on in a debug build, which is an
  argument of the operations. Definitions carry the names of the code; the per-type operations of the C library take
  the dispatcher they call as an argument, as the two call each other.

  \<^bold>\<open>C bindings.\<close>
  \<^item> \<^verbatim>\<open>Mojom_Types\<close>, \<^verbatim>\<open>Mojom_WellFormed\<close>: descriptors, validation codes and the layouts of structs, arrays,
    unions, maps and messages (the headers under \<^verbatim>\<open>c/include/mojo/bindings\<close>); what the generator promises
    of the descriptors it emits, as \<open>wf_env\<close>.
  \<^item> \<^verbatim>\<open>Mojom_Buffer\<close>, \<^verbatim>\<open>Mojom_ArrayNew\<close>: \<^verbatim>\<open>buffer.c\<close> and \<^verbatim>\<open>MojomArray_New\<close>. An allocator is the locale
    \<open>linear_allocator\<close>, met by \<^verbatim>\<open>MojomBuffer_Allocate\<close> and by the C++ \<^verbatim>\<open>FixedBuffer\<close>: regions are disjoint, aligned
    and inside the buffer, and no request wraps around.
  \<^item> \<^verbatim>\<open>Mojom_Dispatch\<close>, \<^verbatim>\<open>Mojom_Struct\<close>, \<^verbatim>\<open>Mojom_Array\<close>, \<^verbatim>\<open>Mojom_Union\<close>, \<^verbatim>\<open>Mojom_TypeDescriptor\<close>: the five
    operations (size, encode, decode, validate, copy) of \<^verbatim>\<open>struct.c\<close>, \<^verbatim>\<open>array.c\<close>, \<^verbatim>\<open>union.c\<close>, \<^verbatim>\<open>map.c\<close> and the
    dispatchers of \<^verbatim>\<open>type_descriptor.c\<close>.
  \<^item> \<^verbatim>\<open>Mojom_Validation\<close>, \<^verbatim>\<open>Mojom_Map\<close>: validation returns a verdict on all mapped bytes, without reading
    outside the buffer; objects of an accepted message do not overlap, handles are used once, maps
    have as many keys as values. \<^verbatim>\<open>Mojom_Decode\<close>: decoding an accepted message cannot fault and restores
    every pointer and handle. Both are proved against locales that state what the dispatcher promises
    to the per-type operations; the dispatcher is an interpretation at every bound.
  \<^item> \<^verbatim>\<open>Mojom_Bounds\<close>: results do not depend on the nesting bound. \<^verbatim>\<open>Mojom_Message\<close>: \<^verbatim>\<open>message.c\<close>.
    \<^verbatim>\<open>Mojom_NestedUnions\<close>: messages with a union inside a union on which the library reads out of bounds or
    leaves pointers unencoded.

  \<^bold>\<open>C++ bindings.\<close>
  \<^item> \<^verbatim>\<open>Cpp_Bounds\<close>: \<^verbatim>\<open>bindings_serialization.cc\<close>, \<^verbatim>\<open>fixed_buffer.cc\<close>, \<^verbatim>\<open>bounds_checker.cc\<close>,
    \<^verbatim>\<open>validation_util.cc\<close>; what the checker grants is granted once.
  \<^item> \<^verbatim>\<open>Cpp_ArrayData\<close>: \<^verbatim>\<open>array_internal.h\<close> and \<^verbatim>\<open>map_data_internal.h\<close>, the template argument being a datatype.
    \<^verbatim>\<open>Cpp_ArraySafety\<close>, \<^verbatim>\<open>Cpp_RoundTrip\<close>, \<^verbatim>\<open>Cpp_BoolArray\<close>: validation is safe, decoding undoes encoding, bits of
    bool arrays are independent. \<^verbatim>\<open>Cpp_Interop\<close>: a simulation shows that both libraries accept the same
    arrays, and counterexamples show where they do not.
  \<^item> \<^verbatim>\<open>Cpp_Serialization\<close>: \<^verbatim>\<open>array_serialization.h\<close>, \<^verbatim>\<open>string_serialization.cc\<close> and \<^verbatim>\<open>map_serialization.h\<close>, the C++
    type being a datatype; handles are taken out of the values that are serialised. \<^verbatim>\<open>Cpp_SerializationCodec\<close>,
    \<^verbatim>\<open>Cpp_SerializationRoundTrip\<close>: the contracts of one element (\<open>element_codec\<close>), of all elements of an array
    (\<open>elements_codec\<close>) and of an object behind a pointer (\<open>pointer_codec\<close>), met by numbers, bools, handles,
    interfaces, strings, arrays and maps. \<^verbatim>\<open>Cpp_SerializationProperties\<close>: by induction on the type, arrays
    fill exactly the buffer that was measured for them and are read back as they were.
  \<^item> \<^verbatim>\<open>Cpp_Message\<close>, \<^verbatim>\<open>Cpp_Framing\<close>: \<^verbatim>\<open>message.cc\<close>, the builders and the validators of messages; both libraries
    agree on headers, and what the builders write reads back and is accepted. \<^verbatim>\<open>Cpp_MessageOwnership\<close>: the
    blocks and handles that messages own are freed and closed once.
  \<^item> \<^verbatim>\<open>Cpp_Connector\<close>, \<^verbatim>\<open>Cpp_Router\<close>: \<^verbatim>\<open>connector.cc\<close> and \<^verbatim>\<open>router.cc\<close> over a state that holds the objects, the
    waits, the frames of active calls and what the system will answer. \<^verbatim>\<open>Cpp_RouterSafety\<close>: the locale
    \<open>router_client\<close> is the contract of the code that runs inside callbacks; scripts of calls, nested to
    any depth, meet it, so that no such client can make the library touch a destroyed object, and each
    responder is deleted exactly once. \<^verbatim>\<open>Cpp_RouterLiveness\<close>: messages that have arrived are all delivered
    in order; four behaviours that differ from the comments.
  \<^item> \<^verbatim>\<open>Cpp_RunLoop\<close>: \<^verbatim>\<open>run_loop.cc\<close> over a state with the loop, the wait set, the clock and the frames of active
    runs. \<^verbatim>\<open>Cpp_RunLoopSafety\<close>: no assertion of the loop fails whatever the code does that it calls (the locale
    \<open>loop_user\<close>), its queues and maps stay in order, and handlers and tasks are accounted for once.
    \<^verbatim>\<open>Cpp_RunLoopTasks\<close>: an iteration runs exactly the tasks that are due, in order; a state in which deadlines
    are never reported again.

  \<^bold>\<open>Thunks.\<close> \<^verbatim>\<open>Mojo_Thunks\<close> states the protocol of all tables as a locale; \<^verbatim>\<open>Mojo_SystemThunks\<close> and
  \<^verbatim>\<open>Mojo_GraphicsThunks\<close> interpret it for the 31 system calls, the MGL tables and the GL tables: after
  installation each call is the embedder's function of that name, before it each call fails its assertion.

  \<^bold>\<open>Bounds.\<close> The C dispatchers recurse along descriptors, which may be cyclic; an argument bounds the
  nesting. One eighth of the message size is enough for validation and decoding (each level claims
  at least eight bytes), and a result does not change with a larger bound. The read loop of the
  connector takes a bound on its rounds; one more than the number of messages in the pipe is enough.
  Scripts of a client take a bound on the nesting of callbacks, which the theorems quantify over.

  \<^bold>\<open>Parameters.\<close> Not under \<^verbatim>\<open>src\<close> or not readable there: the embedder's functions, the classes the
  generator emits for C++ structs and unions (\<open>generated_classes\<close>, \<open>generated_serializers\<close>, \<open>params_class\<close>), the code that uses the
  bindings. What they have to do is stated as a hypothesis, and witnesses instantiate it.

  \<^bold>\<open>Not modelled.\<close> \<^verbatim>\<open>gles2_thunks.c\<close> includes a header that is not in the repository. The wrapper
  classes of the C++ bindings (\<^verbatim>\<open>InterfacePtr\<close>, \<^verbatim>\<open>Binding\<close>, \<^verbatim>\<open>StructPtr\<close>) forward to the router and to
  generated code. The headers under \<^verbatim>\<open>c/include/mojo/system\<close> declare functions of the embedder and constants, the GL headers are third
  party. The Dart and NaCl directories connect other runtimes; the generators are in Python and Go.

  \<^bold>\<open>Left open.\<close> Arrays of unions are modelled; a theorem on them needs a contract of the generated unions, whose
  data lies partly in the array and partly behind it. \<^verbatim>\<open>default_async_waiter.cc\<close>, which connects the waits of the
  connector with the run loop, would join the two models.
\<close>

end
